theory Spec2Isabelle
  imports Main "HOL-Library.AList" "HOL-Library.Sublist"
begin

section \<open>Python values, dictionaries and exceptions\<close>

text \<open>
  The incident and recovery code passes plain dictionaries around. A dictionary is an
  association list in insertion order; \<open>map_of\<close> is \<open>d.get(k)\<close> and \<open>AList.update\<close> is
  \<open>d[k] = v\<close> (an existing key keeps its position, a new key goes to the end).
\<close>

datatype pyval =
    VNone
  | VBool bool
  | VInt int
  | VStr string
  | VList "pyval list"
  | VTuple "pyval list"
  | VDict "(string \<times> pyval) list"

type_synonym pydict = "(string \<times> pyval) list"

datatype exn_class =
  CalledProcessError | OSError | KeyError | TypeError | AttributeError | ValueError | RuntimeError

text \<open>An exception is its class and \<open>str(e)\<close>. Every class here derives from \<open>Exception\<close>.\<close>

datatype exn = Exn exn_class string

fun exn_class_of :: "exn \<Rightarrow> exn_class" where
  "exn_class_of (Exn c m) = c"

fun exn_str :: "exn \<Rightarrow> string" where
  "exn_str (Exn c m) = m"

text \<open>Truthiness, as tested by \<open>if snapshot_info:\<close> and \<open>if snapshots:\<close>.\<close>

fun truthy :: "pyval \<Rightarrow> bool" where
  "truthy VNone = False"
| "truthy (VBool b) = b"
| "truthy (VInt i) = (i \<noteq> 0)"
| "truthy (VStr s) = (s \<noteq> [])"
| "truthy (VList xs) = (xs \<noteq> [])"
| "truthy (VTuple xs) = (xs \<noteq> [])"
| "truthy (VDict d) = (d \<noteq> [])"

text \<open>\<open>str(KeyError(k))\<close> is the \<open>repr\<close> of the key: the key in single quotes.\<close>

definition key_error :: "string \<Rightarrow> exn" where
  "key_error k = Exn KeyError ([CHR 0x27] @ k @ [CHR 0x27])"

text \<open>\<open>v[k]\<close> for a string key: a dictionary looks the key up, anything else is not subscriptable
  by a string (the message of that \<open>TypeError\<close> is the interpreter's).\<close>

definition subscript :: "pyval \<Rightarrow> string \<Rightarrow> exn + pyval" where
  "subscript v k =
     (case v of
        VDict d \<Rightarrow> (case map_of d k of None \<Rightarrow> Inl (key_error k) | Some x \<Rightarrow> Inr x)
      | _ \<Rightarrow> Inl (Exn TypeError ''bad subscript''))"

section \<open>Paths\<close>

text \<open>
  A \<open>pathlib.Path\<close> is the list of its parts, as \<open>Path.parts\<close> gives them; an absolute
  path starts with the part \<open>/\<close>, and \<open>Path('')\<close> = \<open>Path('.')\<close> is the empty list.
  (POSIX flavour; the special root \<open>//\<close> is not distinguished.)
\<close>

type_synonym path = "string list"

fun split_on :: "char \<Rightarrow> string \<Rightarrow> string list" where
  "split_on c [] = [[]]"
| "split_on c (x # xs) =
     (if x = c then [] # split_on c xs
      else (case split_on c xs of [] \<Rightarrow> [[x]] | y # ys \<Rightarrow> (x # y) # ys))"

fun join_with :: "char \<Rightarrow> string list \<Rightarrow> string" where
  "join_with c [] = []"
| "join_with c [x] = x"
| "join_with c (x # y # ys) = x @ c # join_with c (y # ys)"

definition path_of_str :: "string \<Rightarrow> path" where
  "path_of_str s =
     (if take 1 s = ''/'' then [''/''] else [])
     @ filter (\<lambda>p. p \<noteq> [] \<and> p \<noteq> ''.'') (split_on (CHR ''/'') s)"

definition str_of_path :: "path \<Rightarrow> string" where
  "str_of_path p =
     (case p of
        [] \<Rightarrow> ''.''
      | r # ps \<Rightarrow> if r = ''/'' then ''/'' @ join_with (CHR ''/'') ps
                 else join_with (CHR ''/'') (r # ps))"

definition path_name :: "path \<Rightarrow> string" where
  "path_name p = (if p = [] \<or> p = [''/''] then [] else last p)"

definition path_parent :: "path \<Rightarrow> path" where
  "path_parent p = (if p = [''/''] then p else butlast p)"

text \<open>\<open>p / s\<close>: an absolute right operand replaces the left one.\<close>

definition path_join :: "path \<Rightarrow> string \<Rightarrow> path" where
  "path_join p s = (let q = path_of_str s in if take 1 q = [''/''] then q else p @ q)"

text \<open>\<open>Path.suffix\<close>: the name from its last dot, when that dot is neither the first nor the
  last character of the name.\<close>

definition path_suffix :: "path \<Rightarrow> string" where
  "path_suffix p =
     (let name = path_name p;
          t = rev (takeWhile (\<lambda>c. c \<noteq> CHR ''.'') (rev name))
      in if CHR ''.'' \<in> set name \<and> t \<noteq> [] \<and> Suc (length t) < length name
         then CHR ''.'' # t else [])"

text \<open>\<open>Path.with_suffix(suffix)\<close>, with its two \<open>ValueError\<close>s.\<close>

definition with_suffix :: "path \<Rightarrow> string \<Rightarrow> exn + path" where
  "with_suffix p sfx =
     (if CHR ''/'' \<in> set sfx \<or> (sfx \<noteq> [] \<and> take 1 sfx \<noteq> ''.'') \<or> sfx = ''.''
      then Inl (Exn ValueError ''Invalid suffix'')
      else if path_name p = [] then Inl (Exn ValueError ''empty name'')
      else
        let name = path_name p;
            old_suffix = path_suffix p;
            name' = (if old_suffix = [] then name @ sfx
                     else take (length name - length old_suffix) name @ sfx)
        in Inr (butlast p @ [name']))"

section \<open>The outside world: file system, subprocesses, clock\<close>

datatype node = File string | Dir

type_synonym files = "(path \<times> node) list"

datatype proc_result =
    Completed int string   \<comment> \<open>return code and captured standard output\<close>
  | SpawnFailed string     \<comment> \<open>the program could not be started: an \<open>OSError\<close>\<close>

text \<open>Every effect on the outside world is appended to a trace, in the order it happens.\<close>

datatype event =
    Run "string list" proc_result
  | Copy path path
  | Write path
  | Unlink path
  | Mkdir path
  | Lib string

record world =
  fs :: files
  trace :: "event list"
  ticks :: nat

datatype errno = ENOENT | EISDIR | ENOTDIR | EEXIST | ESAMEFILE

datatype dataframe = DataFrame (df_shape: "nat \<times> nat") (df_csv: string)

text \<open>
  What the program does not decide is a parameter: what a subprocess returns and does to
  the files (it may depend on everything that happened before), what the clock reads, the
  texts of library messages, JSON and the pandas/numpy operations of the corruption simulator.
\<close>

record env =
  exec :: "string list \<Rightarrow> world \<Rightarrow> proc_result \<times> files"
  now_iso :: "nat \<Rightarrow> string"
  strerror :: "errno \<Rightarrow> path \<Rightarrow> string"
  cpe_str :: "string list \<Rightarrow> int \<Rightarrow> string"
  py_format :: "pyval \<Rightarrow> string"
  json_loads :: "string \<Rightarrow> string + pyval"
  json_dumps :: "pyval \<Rightarrow> string"
  read_csv :: "string \<Rightarrow> string + dataframe"
  corrupt_random :: "nat \<Rightarrow> dataframe \<Rightarrow> string + dataframe"
  corrupt_missing :: "nat \<Rightarrow> dataframe \<Rightarrow> string + dataframe"
  corrupt_duplicate :: "nat \<Rightarrow> dataframe \<Rightarrow> string + dataframe"
  random_choice :: "nat \<Rightarrow> nat \<Rightarrow> nat"
  lib_raises :: "string \<Rightarrow> world \<Rightarrow> exn option"

type_synonym 'a io = "world \<Rightarrow> (exn + 'a) \<times> world"

definition log_event :: "event \<Rightarrow> world \<Rightarrow> world" where
  "log_event ev w = w\<lparr>trace := trace w @ [ev]\<rparr>"

definition os_error :: "env \<Rightarrow> errno \<Rightarrow> path \<Rightarrow> exn" where
  "os_error e n p = Exn OSError (strerror e n p)"

text \<open>\<open>datetime.now().isoformat()\<close>\<close>

definition datetime_now :: "env \<Rightarrow> world \<Rightarrow> string \<times> world" where
  "datetime_now e w = (now_iso e (ticks w), w\<lparr>ticks := Suc (ticks w)\<rparr>)"

text \<open>\<open>f"{v}"\<close>: a string formats as itself.\<close>

definition fmt :: "env \<Rightarrow> pyval \<Rightarrow> string" where
  "fmt e v = (case v of VStr s \<Rightarrow> s | _ \<Rightarrow> py_format e v)"

subsection \<open>File operations\<close>

text \<open>\<open>Path.exists()\<close> and \<open>Path.is_dir()\<close> are lookups in the file table; the operating
  system errors that \<open>Path.exists()\<close> raises again (a name too long, a directory that may
  not be searched) do not occur in it.\<close>

definition path_exists :: "world \<Rightarrow> path \<Rightarrow> bool" where
  "path_exists w p = (map_of (fs w) p \<noteq> None)"

definition is_dir :: "world \<Rightarrow> path \<Rightarrow> bool" where
  "is_dir w p = (map_of (fs w) p = Some Dir)"

text \<open>\<open>open(p, 'w')\<close> followed by writing \<open>c\<close>: the file is created in an existing directory
  or truncated.\<close>

definition write_file :: "env \<Rightarrow> path \<Rightarrow> string \<Rightarrow> unit io" where
  "write_file e p c w =
     (case map_of (fs w) p of
        Some Dir \<Rightarrow> (Inl (os_error e EISDIR p), w)
      | Some (File old) \<Rightarrow> (Inr (), log_event (Write p) (w\<lparr>fs := AList.update p (File c) (fs w)\<rparr>))
      | None \<Rightarrow>
          if is_dir w (path_parent p)
          then (Inr (), log_event (Write p) (w\<lparr>fs := AList.update p (File c) (fs w)\<rparr>))
          else (Inl (os_error e ENOENT p), w))"

definition read_file :: "env \<Rightarrow> path \<Rightarrow> string io" where
  "read_file e p w =
     (case map_of (fs w) p of
        None \<Rightarrow> (Inl (os_error e ENOENT p), w)
      | Some Dir \<Rightarrow> (Inl (os_error e EISDIR p), w)
      | Some (File c) \<Rightarrow> (Inr c, w))"

text \<open>\<open>shutil.copy2(src, dst)\<close>: into \<open>dst\<close> under the name of \<open>src\<close> when \<open>dst\<close> is a
  directory; the source must be a regular file other than the destination.\<close>

definition shutil_copy2 :: "env \<Rightarrow> path \<Rightarrow> path \<Rightarrow> unit io" where
  "shutil_copy2 e src dst w =
     (let dst' = (if is_dir w dst then dst @ [path_name src] else dst);
          w1 = log_event (Copy src dst) w
      in if path_exists w src \<and> src = dst' then (Inl (os_error e ESAMEFILE src), w1)
         else case map_of (fs w) src of
                None \<Rightarrow> (Inl (os_error e ENOENT src), w1)
              | Some Dir \<Rightarrow> (Inl (os_error e EISDIR src), w1)
              | Some (File c) \<Rightarrow>
                  (case map_of (fs w) dst' of
                     Some Dir \<Rightarrow> (Inl (os_error e EISDIR dst'), w1)
                   | Some (File old) \<Rightarrow> (Inr (), w1\<lparr>fs := AList.update dst' (File c) (fs w)\<rparr>)
                   | None \<Rightarrow>
                       if is_dir w (path_parent dst')
                       then (Inr (), w1\<lparr>fs := AList.update dst' (File c) (fs w)\<rparr>)
                       else (Inl (os_error e ENOENT dst'), w1)))"

text \<open>\<open>Path.unlink()\<close>\<close>

definition unlink :: "env \<Rightarrow> path \<Rightarrow> unit io" where
  "unlink e p w =
     (case map_of (fs w) p of
        None \<Rightarrow> (Inl (os_error e ENOENT p), w)
      | Some Dir \<Rightarrow> (Inl (os_error e EISDIR p), w)
      | Some (File c) \<Rightarrow> (Inr (), log_event (Unlink p) (w\<lparr>fs := AList.delete p (fs w)\<rparr>)))"

text \<open>\<open>Path.mkdir(exist_ok=True)\<close>\<close>

definition mkdir :: "env \<Rightarrow> path \<Rightarrow> unit io" where
  "mkdir e p w =
     (case map_of (fs w) p of
        Some Dir \<Rightarrow> (Inr (), w)
      | Some (File c) \<Rightarrow> (Inl (os_error e EEXIST p), w)
      | None \<Rightarrow>
          if is_dir w (path_parent p)
          then (Inr (), log_event (Mkdir p) (w\<lparr>fs := AList.update p Dir (fs w)\<rparr>))
          else (Inl (os_error e ENOENT p), w))"

text \<open>\<open>Path.mkdir(parents=True, exist_ok=True)\<close>: the missing ancestors first, from the
  outermost one down.\<close>

fun mkdir_chain :: "env \<Rightarrow> path list \<Rightarrow> unit io" where
  "mkdir_chain e [] w = (Inr (), w)"
| "mkdir_chain e (p # ps) w =
     (case map_of (fs w) p of
        Some Dir \<Rightarrow> mkdir_chain e ps w
      | Some (File c) \<Rightarrow> (Inl (os_error e (if ps = [] then EEXIST else ENOTDIR) p), w)
      | None \<Rightarrow> mkdir_chain e ps (log_event (Mkdir p) (w\<lparr>fs := AList.update p Dir (fs w)\<rparr>)))"

definition mkdir_parents :: "env \<Rightarrow> path \<Rightarrow> unit io" where
  "mkdir_parents e p = mkdir_chain e (filter (\<lambda>q. q \<noteq> [] \<and> q \<noteq> [''/'']) (prefixes p))"

subsection \<open>Subprocesses\<close>

text \<open>\<open>subprocess.run(argv, check=...)\<close>: the outcome is the environment's; with
  \<open>check=True\<close> a non-zero return code raises \<open>CalledProcessError\<close>.\<close>

definition subprocess_run :: "env \<Rightarrow> string list \<Rightarrow> bool \<Rightarrow> (int \<times> string) io" where
  "subprocess_run e argv check w =
     (let (r, fs') = exec e argv w;
          w' = log_event (Run argv r) (w\<lparr>fs := fs'\<rparr>)
      in case r of
           SpawnFailed m \<Rightarrow> (Inl (Exn OSError m), w')
         | Completed rc out \<Rightarrow>
             if check \<and> rc \<noteq> 0 then (Inl (Exn CalledProcessError (cpe_str e argv rc)), w')
             else (Inr (rc, out), w'))"

text \<open>Sequencing of actions that may raise, and \<open>try: ... except subprocess.CalledProcessError\<close>.\<close>

definition bindE :: "'a io \<Rightarrow> ('a \<Rightarrow> 'b io) \<Rightarrow> 'b io" where
  "bindE m f w = (case m w of (Inl x, w') \<Rightarrow> (Inl x, w') | (Inr a, w') \<Rightarrow> f a w')"

definition returnE :: "'a \<Rightarrow> 'a io" where
  "returnE a w = (Inr a, w)"

definition raiseE :: "exn \<Rightarrow> 'a io" where
  "raiseE x w = (Inl x, w)"

definition except_cpe :: "'a io \<Rightarrow> 'a \<Rightarrow> 'a io" where
  "except_cpe m a w =
     (case m w of
        (Inl x, w') \<Rightarrow> if exn_class_of x = CalledProcessError then (Inr a, w') else (Inl x, w')
      | (Inr b, w') \<Rightarrow> (Inr b, w'))"

text \<open>\<open>str.strip()\<close> and \<open>str.split('\n')\<close> on the output of a subprocess. The white space
  stripped is that of ASCII; Python also strips the other Unicode spaces.\<close>

definition is_space :: "char \<Rightarrow> bool" where
  "is_space c = (c \<in> set [CHR 0x09, CHR 0x0A, CHR 0x0B, CHR 0x0C, CHR 0x0D,
                          CHR 0x1C, CHR 0x1D, CHR 0x1E, CHR 0x1F, CHR 0x20])"

definition strip :: "string \<Rightarrow> string" where
  "strip s = rev (dropWhile is_space (rev (dropWhile is_space s)))"

section \<open>DVCManager (src/versioning/dvc\_manager.py)\<close>

text \<open>\<open>add\<close>: \<open>dvc add\<close>, then \<open>git add\<close> of the \<open>.dvc\<close> file when \<open>autostage\<close> is configured
  and that file exists. Only \<open>CalledProcessError\<close> is turned into \<open>False\<close>.\<close>

definition dvc_add :: "env \<Rightarrow> bool \<Rightarrow> path \<Rightarrow> bool io" where
  "dvc_add e autostage p =
     except_cpe
       (bindE (subprocess_run e [''dvc'', ''add'', str_of_path p] True) (\<lambda>_.
          if autostage then
            (let dvc_file = path_of_str (str_of_path p @ ''.dvc'') in
             (\<lambda>w. if path_exists w dvc_file
                   then bindE (subprocess_run e [''git'', ''add'', str_of_path dvc_file] False)
                          (\<lambda>_. returnE True) w
                   else returnE True w))
          else returnE True))
       False"

definition dvc_push :: "env \<Rightarrow> bool io" where
  "dvc_push e =
     except_cpe (bindE (subprocess_run e [''dvc'', ''push''] True) (\<lambda>_. returnE True)) False"

definition dvc_pull :: "env \<Rightarrow> bool io" where
  "dvc_pull e =
     except_cpe (bindE (subprocess_run e [''dvc'', ''pull''] True) (\<lambda>_. returnE True)) False"

definition dvc_checkout :: "env \<Rightarrow> string \<Rightarrow> bool io" where
  "dvc_checkout e target =
     except_cpe (bindE (subprocess_run e [''dvc'', ''checkout'', target] True) (\<lambda>_. returnE True))
       False"

section \<open>VersionController (src/versioning/version\_controller.py)\<close>

text \<open>\<open>_load_snapshot_metadata\<close>: \<open>None\<close> when \<open>.snapshots/<tag>.json\<close> does not exist, else
  the parsed JSON document (a JSON error is a \<open>ValueError\<close>).\<close>

definition load_snapshot_metadata :: "env \<Rightarrow> string \<Rightarrow> pyval io" where
  "load_snapshot_metadata e version_tag w =
     (let metadata_file = path_join [''.snapshots''] (version_tag @ ''.json'')
      in if \<not> path_exists w metadata_file then (Inr VNone, w)
         else bindE (read_file e metadata_file)
                (\<lambda>c. case json_loads e c of
                        Inl m \<Rightarrow> raiseE (Exn ValueError m)
                      | Inr v \<Rightarrow> returnE v) w)"

definition save_snapshot_metadata :: "env \<Rightarrow> pydict \<Rightarrow> unit io" where
  "save_snapshot_metadata e snapshot_info =
     bindE (mkdir e [''.snapshots'']) (\<lambda>_.
     bindE (\<lambda>w. (subscript (VDict snapshot_info) ''version'', w)) (\<lambda>v.
       write_file e (path_join [''.snapshots''] (fmt e v @ ''.json''))
         (json_dumps e (VDict snapshot_info))))"

text \<open>\<open>_git_checkout\<close>: the arguments of a subprocess must be strings.\<close>

definition git_checkout :: "env \<Rightarrow> pyval \<Rightarrow> unit io" where
  "git_checkout e tag =
     (case tag of
        VStr t \<Rightarrow> bindE (subprocess_run e [''git'', ''checkout'', t] True) (\<lambda>_. returnE ())
      | _ \<Rightarrow> raiseE (Exn TypeError ''expected str''))"

text \<open>The body of the \<open>try\<close> of \<open>restore_snapshot\<close>. The two log lines read
  \<open>snapshot_info['timestamp']\<close> and \<open>snapshot_info['description']\<close>; the results of
  \<open>dvc.pull()\<close> and \<open>dvc.checkout('.')\<close> are dropped.\<close>

definition restore_snapshot_body :: "env \<Rightarrow> pyval \<Rightarrow> bool \<Rightarrow> bool \<Rightarrow> bool \<Rightarrow> bool io" where
  "restore_snapshot_body e version_tag restore_data restore_models restore_code =
     bindE (load_snapshot_metadata e (fmt e version_tag)) (\<lambda>snapshot_info.
       if \<not> truthy snapshot_info
       then raiseE (Exn ValueError (''Snapshot not found: '' @ fmt e version_tag))
       else
         bindE (\<lambda>w. (subscript snapshot_info ''timestamp'', w)) (\<lambda>_.
         bindE (\<lambda>w. (subscript snapshot_info ''description'', w)) (\<lambda>_.
         bindE (if restore_code then git_checkout e version_tag else returnE ()) (\<lambda>_.
         bindE (if restore_data \<or> restore_models
                then bindE (dvc_pull e) (\<lambda>_. bindE (dvc_checkout e ''.'') (\<lambda>_. returnE ()))
                else returnE ()) (\<lambda>_.
         returnE True)))))"

text \<open>\<open>restore_snapshot\<close>: \<open>except Exception: return False\<close>.\<close>

definition restore_snapshot :: "env \<Rightarrow> pyval \<Rightarrow> bool \<Rightarrow> bool \<Rightarrow> bool \<Rightarrow> world \<Rightarrow> bool \<times> world" where
  "restore_snapshot e version_tag restore_data restore_models restore_code w =
     (case restore_snapshot_body e version_tag restore_data restore_models restore_code w of
        (Inl x, w') \<Rightarrow> (False, w')
      | (Inr b, w') \<Rightarrow> (b, w'))"

text \<open>The loop of \<open>list_snapshots\<close> over the tags: empty lines are skipped, tags without
  (truthy) metadata too.\<close>

fun load_tags :: "env \<Rightarrow> string list \<Rightarrow> pyval list \<Rightarrow> pyval list io" where
  "load_tags e [] snapshots w = (Inr snapshots, w)"
| "load_tags e (tag # tags) snapshots w =
     (if tag \<noteq> [] then
        (case load_snapshot_metadata e tag w of
           (Inl x, w') \<Rightarrow> (Inl x, w')
         | (Inr snapshot_info, w') \<Rightarrow>
             load_tags e tags (if truthy snapshot_info then snapshots @ [snapshot_info]
                               else snapshots) w')
      else load_tags e tags snapshots w)"

definition list_snapshots :: "env \<Rightarrow> pyval list io" where
  "list_snapshots e =
     except_cpe
       (bindE (subprocess_run e [''git'', ''tag'', ''-l''] True) (\<lambda>(rc, out).
          load_tags e (split_on (CHR 0x0A) (strip out)) []))
       []"

section \<open>RecoveryManager (src/incident/recovery\_manager.py)\<close>

text \<open>\<open>Path(v)\<close>: only a string makes a path. The text of the \<open>TypeError\<close> is shortened.\<close>

definition path_of_val :: "pyval \<Rightarrow> exn + path" where
  "path_of_val v =
     (case v of VStr s \<Rightarrow> Inr (path_of_str s) | _ \<Rightarrow> Inl (Exn TypeError ''expected str''))"

text \<open>\<open>d.get(k, default)\<close>\<close>

definition dict_get :: "pydict \<Rightarrow> string \<Rightarrow> pyval \<Rightarrow> pyval" where
  "dict_get d k dflt = (case map_of d k of None \<Rightarrow> dflt | Some v \<Rightarrow> v)"

text \<open>\<open>recovery_result['actions_taken'].append(a)\<close>\<close>

definition append_action :: "pydict \<Rightarrow> string \<Rightarrow> exn + pydict" where
  "append_action rr a =
     (case map_of rr ''actions_taken'' of
        None \<Rightarrow> Inl (key_error ''actions_taken'')
      | Some (VList xs) \<Rightarrow> Inr (AList.update ''actions_taken'' (VList (xs @ [VStr a])) rr)
      | Some _ \<Rightarrow> Inl (Exn AttributeError ''append''))"

text \<open>
  The three private helpers mutate the dictionary \<open>recovery_result\<close> that the handler of
  \<open>recover_from_incident\<close> goes on to use, so each returns the exception it raised (if any)
  together with the dictionary as it stands and the world.
\<close>

type_synonym recovery = "(exn option \<times> pydict) \<times> world"

definition mark_success :: "pydict \<Rightarrow> string \<Rightarrow> world \<Rightarrow> recovery" where
  "mark_success rr a w =
     (case append_action rr a of
        Inl x \<Rightarrow> ((Some x, rr), w)
      | Inr rr' \<Rightarrow> ((None, AList.update ''status'' (VStr ''success'') rr'), w))"

definition all_failed :: "pydict \<Rightarrow> world \<Rightarrow> recovery" where
  "all_failed rr w =
     ((None, AList.update ''error'' (VStr ''All recovery strategies failed'')
               (AList.update ''status'' (VStr ''failed'') rr)), w)"

text \<open>Strategy 3 of \<open>_recover_data_corruption\<close>: the last listed snapshot, data only.\<close>

definition full_restore :: "env \<Rightarrow> pydict \<Rightarrow> world \<Rightarrow> recovery" where
  "full_restore e rr w =
     (case list_snapshots e w of
        (Inl x, w1) \<Rightarrow> ((Some x, rr), w1)
      | (Inr snapshots, w1) \<Rightarrow>
          if snapshots \<noteq> [] then
            (let latest_snapshot = last snapshots in
             case subscript latest_snapshot ''version'' of
               Inl x \<Rightarrow> ((Some x, rr), w1)
             | Inr version \<Rightarrow>
                 (case restore_snapshot e version True False False w1 of
                    (True, w2) \<Rightarrow>
                      (case append_action rr ''full_data_restore'' of
                         Inl x \<Rightarrow> ((Some x, rr), w2)
                       | Inr rr' \<Rightarrow>
                           ((None, AList.update ''status'' (VStr ''success'')
                                     (AList.update ''restored_version'' version rr')), w2))
                  | (False, w2) \<Rightarrow> all_failed rr w2))
          else all_failed rr w1)"

definition recover_data_corruption :: "env \<Rightarrow> pydict \<Rightarrow> pydict \<Rightarrow> world \<Rightarrow> recovery" where
  "recover_data_corruption e incident rr w =
     (case subscript (VDict incident) ''affected_file'' of
        Inl x \<Rightarrow> ((Some x, rr), w)
      | Inr af \<Rightarrow>
     (case path_of_val af of
        Inl x \<Rightarrow> ((Some x, rr), w)
      | Inr affected_file \<Rightarrow>
     (case path_of_val (dict_get incident ''backup_path'' (VStr [])) of
        Inl x \<Rightarrow> ((Some x, rr), w)
      | Inr backup_path \<Rightarrow>
          if path_exists w backup_path then
            (case shutil_copy2 e backup_path affected_file w of
               (Inl x, w1) \<Rightarrow> ((Some x, rr), w1)
             | (Inr u, w1) \<Rightarrow> mark_success rr ''restored_from_backup'' w1)
          else
            (case dvc_checkout e (str_of_path affected_file @ ''.dvc'') w of
               (Inl x, w1) \<Rightarrow> ((Some x, rr), w1)
             | (Inr True, w1) \<Rightarrow> mark_success rr ''restored_from_dvc'' w1
             | (Inr False, w1) \<Rightarrow> full_restore e rr w1))))"

definition recover_model_degradation :: "env \<Rightarrow> pydict \<Rightarrow> pydict \<Rightarrow> world \<Rightarrow> recovery" where
  "recover_model_degradation e incident rr w =
     (case subscript (VDict incident) ''affected_file'' of
        Inl x \<Rightarrow> ((Some x, rr), w)
      | Inr af \<Rightarrow>
     (case path_of_val af of
        Inl x \<Rightarrow> ((Some x, rr), w)
      | Inr affected_file \<Rightarrow>
     (case path_of_val (dict_get incident ''backup_path'' (VStr [])) of
        Inl x \<Rightarrow> ((Some x, rr), w)
      | Inr backup_path \<Rightarrow>
          if path_exists w backup_path then
            (case bindE (mkdir_parents e (path_parent affected_file))
                    (\<lambda>_. shutil_copy2 e backup_path affected_file) w of
               (Inl x, w1) \<Rightarrow> ((Some x, rr), w1)
             | (Inr u, w1) \<Rightarrow> mark_success rr ''restored_from_backup'' w1)
          else
            (let dvc_file = str_of_path affected_file @ ''.dvc'' in
             if path_exists w (path_of_str dvc_file) then
               (case dvc_checkout e dvc_file w of
                  (Inl x, w1) \<Rightarrow> ((Some x, rr), w1)
                | (Inr True, w1) \<Rightarrow> mark_success rr ''restored_from_dvc'' w1
                | (Inr False, w1) \<Rightarrow> all_failed rr w1)
             else all_failed rr w))))"

definition recover_pipeline_failure :: "env \<Rightarrow> pydict \<Rightarrow> pydict \<Rightarrow> world \<Rightarrow> recovery" where
  "recover_pipeline_failure e incident rr w =
     (case path_of_val (dict_get incident ''marker_file'' (VStr [])) of
        Inl x \<Rightarrow> ((Some x, rr), w)
      | Inr marker_file \<Rightarrow>
          (case (if path_exists w marker_file then unlink e marker_file w else (Inr (), w)) of
             (Inl x, w1) \<Rightarrow> ((Some x, rr), w1)
           | (Inr u, w1) \<Rightarrow>
               (case append_action rr ''cleared_failure_markers'' of
                  Inl x \<Rightarrow> ((Some x, rr), w1)
                | Inr rr' \<Rightarrow>
                    ((None, AList.update ''note'' (VStr ''Pipeline can be restarted'')
                              (AList.update ''status'' (VStr ''success'') rr')), w1))))"

text \<open>The dispatch on \<open>incident.get('type')\<close> inside the \<open>try\<close>.\<close>

definition dispatch :: "env \<Rightarrow> pydict \<Rightarrow> pydict \<Rightarrow> world \<Rightarrow> recovery" where
  "dispatch e incident rr w =
     (let incident_type = dict_get incident ''type'' VNone in
      if incident_type = VStr ''data_corruption'' then recover_data_corruption e incident rr w
      else if incident_type = VStr ''model_degradation''
        then recover_model_degradation e incident rr w
      else if incident_type = VStr ''pipeline_failure''
        then recover_pipeline_failure e incident rr w
      else ((None, AList.update ''status'' (VStr ''unknown_incident_type'') rr), w))"

text \<open>\<open>recover_from_incident(incident, target_version)\<close>: the result dictionary and the new
  world. It has no exceptional outcome: \<open>except Exception\<close> covers the whole body after the
  construction of \<open>recovery_result\<close>.\<close>

definition recover_from_incident ::
  "env \<Rightarrow> pydict \<Rightarrow> string option \<Rightarrow> world \<Rightarrow> pydict \<times> world" where
  "recover_from_incident e incident target_version w =
     (let (t0, w0) = datetime_now e w;
          recovery_result =
            [(''incident'', VDict incident), (''start_time'', VStr t0),
             (''status'', VStr ''in_progress''), (''actions_taken'', VList [])]
      in case dispatch e incident recovery_result w0 of
           ((None, rr), w1) \<Rightarrow>
             (let (t1, w2) = datetime_now e w1
              in (AList.update ''end_time'' (VStr t1) rr, w2))
         | ((Some x, rr), w1) \<Rightarrow>
             (let rr1 = AList.update ''status'' (VStr ''failed'') rr;
                  rr2 = AList.update ''error'' (VStr (exn_str x)) rr1;
                  (t1, w2) = datetime_now e w1
              in (AList.update ''end_time'' (VStr t1) rr2, w2)))"

section \<open>IncidentGenerator (src/incident/incident\_generator.py)\<close>

text \<open>
  The generator's state is its \<open>incident_log\<close>. Each simulation builds a local dictionary
  \<open>incident\<close>; when the body of its \<open>try\<close> raises, the handler marks that dictionary as it
  stands and returns it without appending it.
\<close>

definition failed_incident :: "pydict \<Rightarrow> exn \<Rightarrow> pydict" where
  "failed_incident incident x =
     AList.update ''error'' (VStr (exn_str x)) (AList.update ''status'' (VStr ''failed'') incident)"

definition shape_val :: "nat \<times> nat \<Rightarrow> pyval" where
  "shape_val sh = VTuple [VInt (int (fst sh)), VInt (int (snd sh))]"

text \<open>The corruption branch of \<open>simulate_data_corruption\<close>; an unknown type changes nothing.\<close>

definition corrupt_df :: "env \<Rightarrow> string \<Rightarrow> nat \<Rightarrow> dataframe \<Rightarrow> string + dataframe" where
  "corrupt_df e corruption_type n df =
     (if corruption_type = ''random'' then corrupt_random e n df
      else if corruption_type = ''missing'' then corrupt_missing e n df
      else if corruption_type = ''duplicate'' then corrupt_duplicate e n df
      else Inr df)"

definition simulate_data_corruption ::
  "env \<Rightarrow> path \<Rightarrow> string \<Rightarrow> pydict list \<Rightarrow> world \<Rightarrow> (pydict \<times> pydict list) \<times> world" where
  "simulate_data_corruption e file_path corruption_type incident_log w =
     (let (t, w0) = datetime_now e w;
          incident =
            [(''type'', VStr ''data_corruption''), (''subtype'', VStr corruption_type),
             (''timestamp'', VStr t), (''affected_file'', VStr (str_of_path file_path)),
             (''status'', VStr ''created'')]
      in case with_suffix file_path (path_suffix file_path @ ''.backup'') of
           Inl x \<Rightarrow> ((failed_incident incident x, incident_log), w0)
         | Inr backup_path \<Rightarrow>
        (case shutil_copy2 e file_path backup_path w0 of
           (Inl x, w1) \<Rightarrow> ((failed_incident incident x, incident_log), w1)
         | (Inr u, w1) \<Rightarrow>
        (let incident1 = AList.update ''backup_path'' (VStr (str_of_path backup_path)) incident
         in case read_file e file_path w1 of
           (Inl x, w2) \<Rightarrow> ((failed_incident incident1 x, incident_log), w2)
         | (Inr c, w2) \<Rightarrow>
        (case read_csv e c of
           Inl m \<Rightarrow> ((failed_incident incident1 (Exn ValueError m), incident_log), w2)
         | Inr df \<Rightarrow>
        (case corrupt_df e corruption_type (ticks w) df of
           Inl m \<Rightarrow> ((failed_incident incident1 (Exn ValueError m), incident_log), w2)
         | Inr df' \<Rightarrow>
        (case write_file e file_path (df_csv df') w2 of
           (Inl x, w3) \<Rightarrow> ((failed_incident incident1 x, incident_log), w3)
         | (Inr u', w3) \<Rightarrow>
             (let incident2 =
                    AList.update ''status'' (VStr ''active'')
                      (AList.update ''original_shape'' (shape_val (df_shape df))
                         (AList.update ''corrupted_shape'' (shape_val (df_shape df')) incident1))
              in ((incident2, incident_log @ [incident2]), w3))))))))"

definition simulate_model_degradation ::
  "env \<Rightarrow> path \<Rightarrow> string \<Rightarrow> pydict list \<Rightarrow> world \<Rightarrow> (pydict \<times> pydict list) \<times> world" where
  "simulate_model_degradation e model_path degradation_type incident_log w =
     (let (t, w0) = datetime_now e w;
          incident =
            [(''type'', VStr ''model_degradation''), (''subtype'', VStr degradation_type),
             (''timestamp'', VStr t), (''affected_file'', VStr (str_of_path model_path)),
             (''status'', VStr ''created'')]
      in if \<not> path_exists w0 model_path
         then ((failed_incident incident
                  (Exn OSError (''Model not found: '' @ str_of_path model_path)), incident_log), w0)
         else
        (case with_suffix model_path (path_suffix model_path @ ''.backup'') of
           Inl x \<Rightarrow> ((failed_incident incident x, incident_log), w0)
         | Inr backup_path \<Rightarrow>
        (case shutil_copy2 e model_path backup_path w0 of
           (Inl x, w1) \<Rightarrow> ((failed_incident incident x, incident_log), w1)
         | (Inr u, w1) \<Rightarrow>
        (let incident1 = AList.update ''backup_path'' (VStr (str_of_path backup_path)) incident
         in case (if degradation_type = ''delete'' then unlink e model_path w1
                  else if degradation_type = ''corrupt''
                    then write_file e model_path
                           (concat (replicate 1000 ''CORRUPTED_DATA'')) w1
                  else (Inr (), w1)) of
              (Inl x, w2) \<Rightarrow> ((failed_incident incident1 x, incident_log), w2)
            | (Inr u', w2) \<Rightarrow>
                (let incident2 = AList.update ''status'' (VStr ''active'') incident1
                 in ((incident2, incident_log @ [incident2]), w2))))))"

text \<open>\<open>simulate_pipeline_failure\<close> has no \<open>try\<close>: an error while the marker is written
  leaves the function as an exception, with the log as it was.\<close>

definition simulate_pipeline_failure ::
  "env \<Rightarrow> string \<Rightarrow> pydict list \<Rightarrow> world \<Rightarrow> ((exn + pydict) \<times> pydict list) \<times> world" where
  "simulate_pipeline_failure e failure_point incident_log w =
     (let (t, w0) = datetime_now e w;
          incident =
            [(''type'', VStr ''pipeline_failure''), (''subtype'', VStr failure_point),
             (''timestamp'', VStr t), (''status'', VStr ''active'')];
          marker_file =
            path_join [''.incident_markers''] (''pipeline_failure_'' @ failure_point @ ''.marker'')
      in case bindE (mkdir e (path_parent marker_file))
                (\<lambda>_. write_file e marker_file
                        (''Pipeline failure at: '' @ failure_point @ [CHR 0x0A]
                         @ ''Timestamp: '' @ t @ [CHR 0x0A])) w0 of
           (Inl x, w1) \<Rightarrow> ((Inl x, incident_log), w1)
         | (Inr u, w1) \<Rightarrow>
             (let incident1 = AList.update ''marker_file'' (VStr (str_of_path marker_file)) incident
              in ((Inr incident1, incident_log @ [incident1]), w1)))"

text \<open>\<open>Path.glob\<close> with one \<open>*\<close> pattern: the entries of a directory whose names end as the
  pattern says, in the order the file system lists them.\<close>

definition glob_star :: "world \<Rightarrow> path \<Rightarrow> string \<Rightarrow> path list" where
  "glob_star w d ending =
     (if is_dir w d
      then filter (\<lambda>p. p \<noteq> [] \<and> butlast p = d \<and> suffix ending (last p)) (remdups (map fst (fs w)))
      else [])"

text \<open>\<open>glob("*/*.joblib")\<close>\<close>

definition glob_star_star :: "world \<Rightarrow> path \<Rightarrow> string \<Rightarrow> path list" where
  "glob_star_star w d ending =
     concat (map (\<lambda>sub. glob_star w sub ending) (filter (is_dir w) (glob_star w d [])))"

record path_config =
  raw_data :: path
  processed_data :: path
  trained_models :: path

definition choice :: "env \<Rightarrow> nat \<Rightarrow> 'a list \<Rightarrow> 'a" where
  "choice e n xs = xs ! (random_choice e n (length xs) mod length xs)"

definition simulate_random_incident ::
  "env \<Rightarrow> path_config \<Rightarrow> pydict list \<Rightarrow> world \<Rightarrow> ((exn + pydict) \<times> pydict list) \<times> world" where
  "simulate_random_incident e paths incident_log w =
     (let (incident_type, subtype) =
            choice e (2 * ticks w)
              [(''data_corruption'', ''random''), (''data_corruption'', ''missing''),
               (''model_degradation'', ''delete''), (''pipeline_failure'', ''preprocessing'')];
          no_target = [(''type'', VStr ''none''), (''status'', VStr ''no_target_found'')]
      in if incident_type = ''data_corruption'' then
           (let data_files = glob_star w (raw_data paths) ''.csv'' in
            if data_files \<noteq> [] then
              (case simulate_data_corruption e (choice e (2 * ticks w + 1) data_files) subtype
                      incident_log w of
                 ((incident, log'), w') \<Rightarrow> ((Inr incident, log'), w'))
            else ((Inr no_target, incident_log), w))
         else if incident_type = ''model_degradation'' then
           (let model_files = glob_star_star w (trained_models paths) ''.joblib'' in
            if model_files \<noteq> [] then
              (case simulate_model_degradation e (choice e (2 * ticks w + 1) model_files) subtype
                      incident_log w of
                 ((incident, log'), w') \<Rightarrow> ((Inr incident, log'), w'))
            else ((Inr no_target, incident_log), w))
         else if incident_type = ''pipeline_failure'' then
           simulate_pipeline_failure e subtype incident_log w
         else ((Inr no_target, incident_log), w))"

definition get_incident_log :: "pydict list \<Rightarrow> pydict list" where
  "get_incident_log incident_log = incident_log"

definition clear_incident_log :: "pydict list \<Rightarrow> pydict list" where
  "clear_incident_log incident_log = []"

section \<open>VersionController.create\_snapshot\<close>

text \<open>The \<open>for\<close> loops of \<open>create_snapshot\<close>: \<open>dvc.add\<close> on every file of a listing, keeping
  the names of those for which it returned \<open>True\<close>; the inner listing of a sub-directory is
  taken when its loop starts.\<close>

fun add_files :: "env \<Rightarrow> bool \<Rightarrow> path list \<Rightarrow> pyval list \<Rightarrow> pyval list io" where
  "add_files e autostage [] dvc_files w = (Inr dvc_files, w)"
| "add_files e autostage (f # files) dvc_files w =
     (case dvc_add e autostage f w of
        (Inl x, w') \<Rightarrow> (Inl x, w')
      | (Inr ok, w') \<Rightarrow>
          add_files e autostage files
            (if ok then dvc_files @ [VStr (str_of_path f)] else dvc_files) w')"

fun add_dirs :: "env \<Rightarrow> bool \<Rightarrow> string \<Rightarrow> path list \<Rightarrow> pyval list \<Rightarrow> pyval list io" where
  "add_dirs e autostage ending [] dvc_files w = (Inr dvc_files, w)"
| "add_dirs e autostage ending (d # dirs) dvc_files w =
     (if is_dir w d then
        (case add_files e autostage (glob_star w d ending) dvc_files w of
           (Inl x, w') \<Rightarrow> (Inl x, w')
         | (Inr dvc_files', w') \<Rightarrow> add_dirs e autostage ending dirs dvc_files' w')
      else add_dirs e autostage ending dirs dvc_files w)"

definition stage_files ::
  "env \<Rightarrow> bool \<Rightarrow> path_config \<Rightarrow> bool \<Rightarrow> bool \<Rightarrow> pyval list io" where
  "stage_files e autostage paths include_data include_models =
     bindE (if include_data
            then bindE (\<lambda>w. add_files e autostage (glob_star w (raw_data paths) ''.csv'') [] w)
                   (\<lambda>fs1 w. add_dirs e autostage ''.csv'' (glob_star w (processed_data paths) [])
                              fs1 w)
            else returnE [])
       (\<lambda>fs2. if include_models
               then (\<lambda>w. add_dirs e autostage ''.joblib''
                            (glob_star w (trained_models paths) []) fs2 w)
               else returnE fs2)"

text \<open>\<open>_git_commit\<close> (every call with \<open>check=False\<close>) and \<open>_git_tag\<close>.\<close>

definition git_commit :: "env \<Rightarrow> string \<Rightarrow> string \<Rightarrow> unit io" where
  "git_commit e tag message =
     except_cpe
       (bindE (subprocess_run e [''git'', ''add'', ''*.dvc'', ''.dvc/''] False) (\<lambda>_.
        bindE (subprocess_run e [''git'', ''add'', ''.gitignore''] False) (\<lambda>_.
        bindE (subprocess_run e [''git'', ''commit'', ''-m'', tag @ '': '' @ message] False) (\<lambda>_.
        returnE ()))))
       ()"

definition git_tag :: "env \<Rightarrow> string \<Rightarrow> string \<Rightarrow> unit io" where
  "git_tag e tag message =
     except_cpe
       (bindE (subprocess_run e [''git'', ''tag'', ''-a'', tag, ''-m'', message] True)
          (\<lambda>_. returnE ()))
       ()"

text \<open>\<open>create_snapshot\<close>: its handler logs and re-raises, so an exception of the body is the
  exception of the call.\<close>

definition create_snapshot ::
  "env \<Rightarrow> bool \<Rightarrow> path_config \<Rightarrow> string \<Rightarrow> string \<Rightarrow> bool \<Rightarrow> bool \<Rightarrow> pydict io" where
  "create_snapshot e autostage paths version_tag description include_data include_models w =
     (let (t, w0) = datetime_now e w;
          snapshot_info =
            [(''version'', VStr version_tag), (''timestamp'', VStr t),
             (''description'', VStr description), (''git_commit'', VNone),
             (''dvc_files'', VList []), (''mlflow_run_id'', VNone)]
      in bindE (stage_files e autostage paths include_data include_models) (\<lambda>dvc_files.
         bindE (git_commit e version_tag description) (\<lambda>_.
         bindE (subprocess_run e [''git'', ''rev-parse'', ''HEAD''] True) (\<lambda>(rc, out).
         bindE (git_tag e version_tag description) (\<lambda>_.
         bindE (dvc_push e) (\<lambda>_.
           (let info = AList.update ''git_commit'' (VStr (strip out))
                         (AList.update ''dvc_files'' (VList dvc_files) snapshot_info)
            in bindE (save_snapshot_metadata e info) (\<lambda>_. returnE info))))))) w0)"

section \<open>The training pipeline (scripts/train\_pipeline.py)\<close>

text \<open>
  Every statement of the \<open>try\<close> block of \<open>main\<close> that calls into a component is a step: a
  call of a component method (it is recorded, and raises when the environment says so) or
  the call \<open>dvc.add(model_path)\<close>. The path of the saved model depends on the clock's
  formatting and is a parameter.
\<close>

datatype pstep = Call string | DvcAdd path

definition lib_call :: "env \<Rightarrow> string \<Rightarrow> unit io" where
  "lib_call e name w =
     (case lib_raises e name w of
        None \<Rightarrow> (Inr (), log_event (Lib name) w)
      | Some x \<Rightarrow> (Inl x, log_event (Lib name) w))"

fun run_step :: "env \<Rightarrow> bool \<Rightarrow> pstep \<Rightarrow> unit io" where
  "run_step e autostage (Call name) = lib_call e name"
| "run_step e autostage (DvcAdd p) = bindE (dvc_add e autostage p) (\<lambda>_. returnE ())"

fun run_steps :: "env \<Rightarrow> bool \<Rightarrow> pstep list \<Rightarrow> unit io" where
  "run_steps e autostage [] w = (Inr (), w)"
| "run_steps e autostage (s # ss) w =
     (case run_step e autostage s w of
        (Inl x, w') \<Rightarrow> (Inl x, w')
      | (Inr u, w') \<Rightarrow> run_steps e autostage ss w')"

definition pipeline_steps :: "path \<Rightarrow> pstep list" where
  "pipeline_steps model_path =
     [Call ''mlflow_tracker.start_run'',
      Call ''loader.load_csv X_train.csv'',
      Call ''loader.load_csv X_test.csv'',
      Call ''loader.load_csv y_train.csv'',
      Call ''loader.load_csv y_test.csv'',
      Call ''mlflow_tracker.log_params data'',
      Call ''RandomForestModel'',
      Call ''mlflow_tracker.log_params model_params'',
      Call ''trainer.train'',
      Call ''trainer.cross_validate'',
      Call ''mlflow_tracker.log_metrics cv'',
      Call ''evaluator.evaluate'',
      Call ''mlflow_tracker.log_metrics metrics'',
      Call ''evaluator.get_classification_report'',
      Call ''evaluator.calculate_business_metrics'',
      Call ''mlflow_tracker.log_metrics business_metrics'',
      Call ''evaluator.compare_predictions'',
      Call ''trainer.save_model'',
      Call ''mlflow_tracker.log_model'',
      DvcAdd model_path,
      Call ''mlflow_tracker.log_params model_path'',
      Call ''mlflow_tracker.get_run_info'',
      Call ''mlflow_tracker.end_run FINISHED'']"

text \<open>\<open>main\<close>: \<open>except Exception: mlflow_tracker.end_run(status="FAILED"); raise\<close>.\<close>

definition train_pipeline_main :: "env \<Rightarrow> bool \<Rightarrow> path \<Rightarrow> unit io" where
  "train_pipeline_main e autostage model_path w =
     (case run_steps e autostage (pipeline_steps model_path) w of
        (Inr u, w1) \<Rightarrow> (Inr (), w1)
      | (Inl x, w1) \<Rightarrow>
          (case lib_call e ''mlflow_tracker.end_run FAILED'' w1 of
             (Inl y, w2) \<Rightarrow> (Inl y, w2)
           | (Inr u, w2) \<Rightarrow> (Inl x, w2)))"

section \<open>Auxiliary definitions for the proofs\<close>

text \<open>\<open>recover_from_incident\<close> is the initial dictionary, the dispatch, and the common end
  (the \<open>end_time\<close>, and the handler's two entries when the dispatch raised); lemma
  \<open>rfi_finish\<close> below proves that factorisation.\<close>

definition result0 :: "pydict \<Rightarrow> string \<Rightarrow> pydict" where
  "result0 incident t0 =
     [(''incident'', VDict incident), (''start_time'', VStr t0),
      (''status'', VStr ''in_progress''), (''actions_taken'', VList [])]"

definition finish :: "env \<Rightarrow> recovery \<Rightarrow> pydict \<times> world" where
  "finish e out =
     (case out of
        ((None, rr), w1) \<Rightarrow>
          (AList.update ''end_time'' (VStr (now_iso e (ticks w1))) rr,
           w1\<lparr>ticks := Suc (ticks w1)\<rparr>)
      | ((Some x, rr), w1) \<Rightarrow>
          (AList.update ''end_time'' (VStr (now_iso e (ticks w1)))
             (AList.update ''error'' (VStr (exn_str x))
                (AList.update ''status'' (VStr ''failed'') rr)),
           w1\<lparr>ticks := Suc (ticks w1)\<rparr>))"

text \<open>What the helpers of \<open>recover_from_incident\<close> leave alone in the result dictionary.\<close>

definition keeps :: "pydict \<Rightarrow> pydict \<Rightarrow> bool" where
  "keeps rr rr' \<longleftrightarrow>
     map_of rr' ''incident'' = map_of rr ''incident'' \<and>
     map_of rr' ''start_time'' = map_of rr ''start_time'' \<and>
     ((\<exists>xs. map_of rr ''actions_taken'' = Some (VList xs)) \<longrightarrow> (\<exists>xs. map_of rr' ''actions_taken'' = Some (VList xs))) \<and>
     ((\<exists>s. map_of rr ''status'' = Some (VStr s)) \<longrightarrow> (\<exists>s. map_of rr' ''status'' = Some (VStr s)))"

text \<open>Effects on single files: no snapshot listing, no \<open>dvc pull\<close>, no \<open>git\<close> command.\<close>

definition file_level_event :: "event \<Rightarrow> bool" where
  "file_level_event ev =
     (case ev of
        Run argv r \<Rightarrow> length argv = 3 \<and> take 2 argv = [''dvc'', ''checkout''] \<and> suffix ''.dvc'' (argv ! 2)
      | Copy src dst \<Rightarrow> True
      | Mkdir p \<Rightarrow> True
      | Unlink p \<Rightarrow> True
      | Write p \<Rightarrow> False
      | Lib n \<Rightarrow> False)"

definition file_level_only :: "world \<Rightarrow> world \<Rightarrow> bool" where
  "file_level_only w w' = (\<exists>evs. trace w' = trace w @ evs \<and> list_all file_level_event evs)"

text \<open>The snapshots that \<open>list_snapshots\<close> collects from a tag listing: for every
  non-empty tag, in the order listed, its metadata when that is truthy.\<close>

definition snapshots_in :: "env \<Rightarrow> world \<Rightarrow> string list \<Rightarrow> pyval list" where
  "snapshots_in e w tags =
     concat (map (\<lambda>tag. if tag = [] then []
                         else (case fst (load_snapshot_metadata e tag w) of
                                 Inr v \<Rightarrow> if truthy v then [v] else []
                               | Inl x \<Rightarrow> [])) tags)"

text \<open>The invariant of the incident log.\<close>

definition all_active :: "pydict list \<Rightarrow> bool" where
  "all_active incident_log = list_all (\<lambda>i. map_of i ''status'' = Some (VStr ''active'')) incident_log"

text \<open>The parts of a \<open>Path\<close> object are never empty, never \<open>.\<close>, and hold no \<open>/\<close>; only the
  first part may be the root.\<close>

definition wf_part :: "string \<Rightarrow> bool" where
  "wf_part c = (c \<noteq> [] \<and> c \<noteq> ''.'' \<and> CHR ''/'' \<notin> set c)"

definition wf_path :: "path \<Rightarrow> bool" where
  "wf_path p = (case p of [] \<Rightarrow> True | r # ps \<Rightarrow> (r = ''/'' \<or> wf_part r) \<and> list_all wf_part ps)"

section \<open>Auxiliary definitions for snapshots and the training pipeline\<close>

text \<open>The component calls recorded in a trace, and the calls of a list of steps.\<close>

fun lib_names :: "event list \<Rightarrow> string list" where
  "lib_names [] = []"
| "lib_names (Lib n # evs) = n # lib_names evs"
| "lib_names (ev # evs) = lib_names evs"

fun step_name :: "pstep \<Rightarrow> string list" where
  "step_name (Call n) = [n]"
| "step_name (DvcAdd p) = []"

text \<open>The component calls of the \<open>try\<close> block of \<open>main\<close>, before and after \<open>dvc.add\<close>.\<close>

definition calls_before_add :: "string list" where
  "calls_before_add =
     [''mlflow_tracker.start_run'',
      ''loader.load_csv X_train.csv'',
      ''loader.load_csv X_test.csv'',
      ''loader.load_csv y_train.csv'',
      ''loader.load_csv y_test.csv'',
      ''mlflow_tracker.log_params data'',
      ''RandomForestModel'',
      ''mlflow_tracker.log_params model_params'',
      ''trainer.train'',
      ''trainer.cross_validate'',
      ''mlflow_tracker.log_metrics cv'',
      ''evaluator.evaluate'',
      ''mlflow_tracker.log_metrics metrics'',
      ''evaluator.get_classification_report'',
      ''evaluator.calculate_business_metrics'',
      ''mlflow_tracker.log_metrics business_metrics'',
      ''evaluator.compare_predictions'',
      ''trainer.save_model'',
      ''mlflow_tracker.log_model'']"

definition calls_after_add :: "string list" where
  "calls_after_add =
     [''mlflow_tracker.log_params model_path'',
      ''mlflow_tracker.get_run_info'',
      ''mlflow_tracker.end_run FINISHED'']"

text \<open>The steps that claim C7 names, in the order it gives them.\<close>

definition claimed_order :: "string list" where
  "claimed_order =
     [''loader.load_csv X_train.csv'',
      ''RandomForestModel'',
      ''trainer.train'',
      ''trainer.cross_validate'',
      ''evaluator.evaluate'',
      ''mlflow_tracker.log_metrics metrics'',
      ''trainer.save_model'']"

text \<open>The events of the staging loops of \<open>create_snapshot\<close>: \<open>dvc add <file>\<close> and, with
  autostaging, \<open>git add <file>.dvc\<close>. \<open>attempted\<close> lists the files given to \<open>dvc add\<close>,
  \<open>added_ok\<close> those whose \<open>dvc add\<close> exited with status 0.\<close>

definition staging_event :: "event \<Rightarrow> bool" where
  "staging_event ev =
     (case ev of
        Run argv r \<Rightarrow> length argv = 3 \<and> (take 2 argv = [''dvc'', ''add''] \<or> take 2 argv = [''git'', ''add''])
      | _ \<Rightarrow> False)"

fun added_ok :: "event list \<Rightarrow> pyval list" where
  "added_ok [] = []"
| "added_ok (Run argv (Completed rc out) # evs) =
     (if take 2 argv = [''dvc'', ''add''] \<and> length argv = 3 \<and> rc = 0
      then VStr (argv ! 2) # added_ok evs else added_ok evs)"
| "added_ok (ev # evs) = added_ok evs"

fun attempted :: "event list \<Rightarrow> string list" where
  "attempted [] = []"
| "attempted (Run argv r # evs) =
     (if take 2 argv = [''dvc'', ''add''] \<and> length argv = 3
      then (argv ! 2) # attempted evs else attempted evs)"
| "attempted (ev # evs) = attempted evs"

text \<open>Subprocesses that leave the files of the model alone.\<close>

definition files_untouched :: "env \<Rightarrow> bool" where
  "files_untouched e = (\<forall>argv w. snd (exec e argv w) = fs w)"

section \<open>A concrete environment and concrete worlds\<close>

text \<open>Subprocesses answer by their command line and leave the files alone; JSON parsing is
  a table.\<close>

definition demo_env :: "(string list \<Rightarrow> proc_result) \<Rightarrow> (string \<Rightarrow> string + pyval) \<Rightarrow> env" where
  "demo_env out parse =
     \<lparr> exec = (\<lambda>argv w. (out argv, fs w)), now_iso = (\<lambda>n. ''2024-01-01T00:00:00''),
       strerror = (\<lambda>n p. ''OSError''), cpe_str = (\<lambda>argv rc. ''non-zero exit status''),
       py_format = (\<lambda>v. ''?''), json_loads = parse, json_dumps = (\<lambda>v. ''{...}''),
       read_csv = (\<lambda>s. Inr (DataFrame (1, 1) s)),
       corrupt_random = (\<lambda>n df. Inr (DataFrame (df_shape df) ''noise'')),
       corrupt_missing = (\<lambda>n df. Inr df), corrupt_duplicate = (\<lambda>n df. Inr df),
       random_choice = (\<lambda>n k. 0), lib_raises = (\<lambda>name w. None) \<rparr>"

definition snapshot_doc :: "string \<Rightarrow> string \<Rightarrow> pyval" where
  "snapshot_doc v t = VDict [(''version'', VStr v), (''timestamp'', VStr t), (''description'', VStr ''demo'')]"

definition demo_parse :: "string \<Rightarrow> string + pyval" where
  "demo_parse s = (if s = ''meta-v9'' then Inr (snapshot_doc ''v9'' ''2024-01-01'')
                   else if s = ''meta-v10'' then Inr (snapshot_doc ''v10'' ''2024-02-01'')
                   else Inl ''not JSON'')"

text \<open>Every \<open>dvc\<close> command exits with status 1; \<open>git tag -l\<close> lists two tags.\<close>

definition dvc_down :: "string list \<Rightarrow> proc_result" where
  "dvc_down argv = (if argv = [''git'', ''tag'', ''-l''] then Completed 0 (''v10'' @ [CHR 0x0A] @ ''v9'' @ [CHR 0x0A])
                    else if take 1 argv = [''dvc''] then Completed 1 [] else Completed 0 [])"

definition demo_files :: files where
  "demo_files = [([], Dir), ([''.snapshots''], Dir),
       ([''.snapshots'', ''v9.json''], File ''meta-v9''),
       ([''.snapshots'', ''v10.json''], File ''meta-v10''),
       ([''data''], Dir), ([''data'', ''x.csv''], File ''a,b'')]"

definition demo_world :: world where
  "demo_world = \<lparr> fs = demo_files, trace = [], ticks = 0 \<rparr>"

definition demo_incident :: "string \<Rightarrow> pydict" where
  "demo_incident ty = [(''type'', VStr ty), (''affected_file'', VStr ''data/x.csv''),
      (''backup_path'', VStr ''data/x.csv.backup''), (''status'', VStr ''active'')]"


definition demo_dvc_world :: world where
  "demo_dvc_world = \<lparr> fs = demo_files @ [([''data'', ''x.csv.dvc''], File ''md5''),
       ([''.incident_markers''], Dir), ([''.incident_markers'', ''pipeline_failure_test.marker''], File ''m'')], trace = [], ticks = 0 \<rparr>"

definition marker_incident :: pydict where
  "marker_incident = [(''type'', VStr ''pipeline_failure''), (''subtype'', VStr ''test''),
     (''timestamp'', VStr ''2024-01-01T00:00:00''), (''status'', VStr ''active''),
     (''marker_file'', VStr ''.incident_markers/pipeline_failure_test.marker'')]"

text \<open>A world where the backup path of \<open>data/x.csv\<close> is already a directory.\<close>

definition demo_dir_world :: world where
  "demo_dir_world = \<lparr> fs = demo_files @ [([''data'', ''x.csv.backup''], Dir)], trace = [], ticks = 0 \<rparr>"

text \<open>\<open>dvc checkout\<close> of the single \<open>.dvc\<close> file exits with status 1; every other command
  succeeds, and \<open>git tag -l\<close> prints the given listing.\<close>

definition file_checkout_fails :: "string \<Rightarrow> string list \<Rightarrow> proc_result" where
  "file_checkout_fails listing argv =
     (if argv = [''git'', ''tag'', ''-l''] then Completed 0 listing
      else if argv = [''dvc'', ''checkout'', ''data/x.csv.dvc''] then Completed 1 []
      else Completed 0 [])"

text \<open>A world with one snapshot, \<open>v9\<close>.\<close>

definition demo_single_world :: world where
  "demo_single_world =
     \<lparr> fs = [([], Dir), ([''.snapshots''], Dir), ([''.snapshots'', ''v9.json''], File ''meta-v9''),
             ([''data''], Dir), ([''data'', ''x.csv''], File ''a,b'')],
       trace = [], ticks = 0 \<rparr>"

text \<open>Every command succeeds; \<open>git rev-parse HEAD\<close> prints a hash.\<close>

definition all_ok :: "string list \<Rightarrow> proc_result" where
  "all_ok argv = (if argv = [''git'', ''rev-parse'', ''HEAD''] then Completed 0 (''abc1234'' @ [CHR 0x0A])
                  else Completed 0 [])"

text \<open>A project with one raw file, one processed file in a version directory, a CSV directly
  under the processed directory, and one saved model.\<close>

definition demo_paths :: path_config where
  "demo_paths = \<lparr> raw_data = [''data''], processed_data = [''processed''], trained_models = [''models''] \<rparr>"

definition demo_project_world :: world where
  "demo_project_world =
     \<lparr> fs = demo_files @
            [([''processed''], Dir), ([''processed'', ''v1''], Dir),
             ([''processed'', ''v1'', ''X_train.csv''], File ''1,2''),
             ([''processed'', ''notes.csv''], File ''not in a version directory''),
             ([''models''], Dir), ([''models'', ''v1''], Dir),
             ([''models'', ''v1'', ''model.joblib''], File ''model'')],
       trace = [], ticks = 0 \<rparr>"

text \<open>An environment where \<open>trainer.train\<close> raises.\<close>

definition training_fails :: env where
  "training_fails = (demo_env all_ok demo_parse)
     \<lparr> lib_raises := (\<lambda>name w. if name = ''trainer.train'' then Some (Exn RuntimeError ''fit failed'') else None) \<rparr>"

section \<open>Basic facts\<close>

lemma datetime_now_fields [simp]:
  "fs (snd (datetime_now e w)) = fs w" "trace (snd (datetime_now e w)) = trace w"
  "ticks (snd (datetime_now e w)) = Suc (ticks w)" "fst (datetime_now e w) = now_iso e (ticks w)"
  by (simp_all add: datetime_now_def)

lemma path_exists_cong: "fs w = fs w' \<Longrightarrow> path_exists w p = path_exists w' p"
  by (simp add: path_exists_def)

lemma shutil_copy2_trace:
  "shutil_copy2 e src dst w = (res, w') \<Longrightarrow> trace w' = trace w @ [Copy src dst]"
  by (auto simp: shutil_copy2_def Let_def log_event_def split: if_splits option.splits node.splits)

lemma subprocess_run_trace:
  "subprocess_run e argv chk w = (res, w') \<Longrightarrow>
     trace w' = trace w @ [Run argv (fst (exec e argv w))]"
  by (auto simp: subprocess_run_def Let_def log_event_def split: prod.splits proc_result.splits if_splits)

lemma dvc_checkout_cases:
  "dvc_checkout e target w = (res, w') \<Longrightarrow>
     trace w' = trace w @ [Run [''dvc'', ''checkout'', target] (fst (exec e [''dvc'', ''checkout'', target] w))] \<and>
     (case fst (exec e [''dvc'', ''checkout'', target] w) of
        Completed rc out \<Rightarrow> res = Inr (rc = 0)
      | SpawnFailed m \<Rightarrow> res = Inl (Exn OSError m))"
  by (auto simp: dvc_checkout_def except_cpe_def bindE_def returnE_def subprocess_run_def Let_def log_event_def
      split: prod.splits proc_result.splits if_splits sum.splits)

lemma update_lookup [simp]: "map_of (AList.update k v d) k' = (if k' = k then Some v else map_of d k')"
  by (simp add: update_conv')

lemma dispatch_dc:
  assumes "map_of incident ''type'' = Some (VStr ''data_corruption'')"
    and "map_of incident ''affected_file'' = Some (VStr af)"
    and "path_of_val (dict_get incident ''backup_path'' (VStr [])) = Inr backup"
  shows "dispatch e incident rr w =
     (if path_exists w backup then
        (case shutil_copy2 e backup (path_of_str af) w of
           (Inl x, w1) \<Rightarrow> ((Some x, rr), w1)
         | (Inr u, w1) \<Rightarrow> mark_success rr ''restored_from_backup'' w1)
      else
        (case dvc_checkout e (str_of_path (path_of_str af) @ ''.dvc'') w of
           (Inl x, w1) \<Rightarrow> ((Some x, rr), w1)
         | (Inr True, w1) \<Rightarrow> mark_success rr ''restored_from_dvc'' w1
         | (Inr False, w1) \<Rightarrow> full_restore e rr w1))"
  using assms
  by (simp add: dispatch_def recover_data_corruption_def dict_get_def subscript_def path_of_val_def)

lemma rfi_finish:
  "recover_from_incident e incident tv w =
     finish e (dispatch e incident (result0 incident (now_iso e (ticks w))) (w\<lparr>ticks := Suc (ticks w)\<rparr>))"
  by (simp add: recover_from_incident_def finish_def result0_def datetime_now_def Let_def split: prod.splits option.splits)

lemma mark_success_result0:
  "mark_success (result0 incident t) a w = ((None, [(''incident'', VDict incident), (''start_time'', VStr t),
             (''status'', VStr ''success''), (''actions_taken'', VList [VStr a])]), w)"
  by (simp add: mark_success_def append_action_def result0_def)

lemma all_failed_result0:
  "all_failed (result0 incident t) w = ((None, [(''incident'', VDict incident), (''start_time'', VStr t),
             (''status'', VStr ''failed''), (''actions_taken'', VList []),
             (''error'', VStr ''All recovery strategies failed'')]), w)"
  by (simp add: all_failed_def result0_def)

lemma finish_fields:
  "finish e ((ex, rr), w1) = (r, w') \<Longrightarrow>
     trace w' = trace w1 \<and> fs w' = fs w1 \<and>
     (case ex of
        None \<Rightarrow> map_of r ''status'' = map_of rr ''status'' \<and> map_of r ''error'' = map_of rr ''error''
      | Some x \<Rightarrow> map_of r ''status'' = Some (VStr ''failed'') \<and> map_of r ''error'' = Some (VStr (exn_str x))) \<and>
     map_of r ''actions_taken'' = map_of rr ''actions_taken'' \<and>
     map_of r ''restored_version'' = map_of rr ''restored_version''"
  by (auto simp: finish_def split: option.splits)

lemma keeps_refl [simp]: "keeps rr rr" by (simp add: keeps_def)

lemma mark_success_keeps: "mark_success rr a w = ((ex, rr'), w') \<Longrightarrow> keeps rr rr'"
  by (auto simp: mark_success_def append_action_def keeps_def split: option.splits pyval.splits)

lemma all_failed_keeps: "all_failed rr w = ((ex, rr'), w') \<Longrightarrow> keeps rr rr'"
  by (auto simp: all_failed_def keeps_def)

lemma full_restore_keeps: "full_restore e rr w = ((ex, rr'), w') \<Longrightarrow> keeps rr rr'"
  unfolding full_restore_def
  by (auto simp: Let_def append_action_def keeps_def all_failed_def split: prod.splits sum.splits if_splits bool.splits option.splits pyval.splits)

lemma recover_data_corruption_keeps:
  "recover_data_corruption e incident rr w = ((ex, rr'), w') \<Longrightarrow> keeps rr rr'"
  unfolding recover_data_corruption_def
  by (auto split: sum.splits if_splits prod.splits bool.splits dest: mark_success_keeps full_restore_keeps)

lemma recover_model_degradation_keeps:
  "recover_model_degradation e incident rr w = ((ex, rr'), w') \<Longrightarrow> keeps rr rr'"
  unfolding recover_model_degradation_def
  by (auto simp: Let_def split: sum.splits if_splits prod.splits bool.splits dest: mark_success_keeps all_failed_keeps)

lemma recover_pipeline_failure_keeps:
  "recover_pipeline_failure e incident rr w = ((ex, rr'), w') \<Longrightarrow> keeps rr rr'"
  unfolding recover_pipeline_failure_def
  by (auto simp: append_action_def keeps_def split: sum.splits if_splits prod.splits option.splits pyval.splits)

lemma dispatch_keeps: "dispatch e incident rr w = ((ex, rr'), w') \<Longrightarrow> keeps rr rr'"
  unfolding dispatch_def Let_def
  by (auto simp: keeps_def[of rr "AList.update _ _ _"] split: if_splits
      dest: recover_data_corruption_keeps recover_model_degradation_keeps recover_pipeline_failure_keeps)

lemma file_level_only_refl [simp]: "file_level_only w w"
  by (simp add: file_level_only_def)

lemma file_level_only_trans: "file_level_only w w1 \<Longrightarrow> file_level_only w1 w2 \<Longrightarrow> file_level_only w w2"
  by (auto simp: file_level_only_def)

lemma file_level_only_ticks [simp]: "file_level_only (w\<lparr>ticks := n\<rparr>) w' = file_level_only w w'"
  "file_level_only w (w'\<lparr>ticks := n\<rparr>) = file_level_only w w'"
  by (simp_all add: file_level_only_def)

lemma mkdir_chain_events:
  "mkdir_chain e ps w = (res, w') \<Longrightarrow> \<exists>dirs. trace w' = trace w @ map Mkdir dirs"
proof (induction ps arbitrary: w)
  case Nil
  then show ?case by simp
next
  case (Cons p ps)
  show ?case
  proof (cases "map_of (fs w) p")
    case None
    with Cons.prems have "mkdir_chain e ps (log_event (Mkdir p) (w\<lparr>fs := AList.update p Dir (fs w)\<rparr>)) = (res, w')"
      by simp
    from Cons.IH[OF this] obtain dirs where "trace w' = trace w @ map Mkdir (p # dirs)"
      by (auto simp: log_event_def)
    then show ?thesis by blast
  next
    case (Some n)
    with Cons.prems Cons.IH show ?thesis by (cases n) auto
  qed
qed

lemma mkdir_chain_file_level: "mkdir_chain e ps w = (res, w') \<Longrightarrow> file_level_only w w'"
  by (drule mkdir_chain_events) (auto simp: file_level_only_def list_all_iff file_level_event_def)

lemma shutil_copy2_file_level: "shutil_copy2 e src dst w = (res, w') \<Longrightarrow> file_level_only w w'"
  by (drule shutil_copy2_trace) (simp add: file_level_only_def file_level_event_def)

lemma unlink_trace: "unlink e p w = (res, w') \<Longrightarrow> trace w' = trace w \<or> trace w' = trace w @ [Unlink p]"
  by (auto simp: unlink_def log_event_def split: option.splits node.splits)

lemma unlink_file_level: "unlink e p w = (res, w') \<Longrightarrow> file_level_only w w'"
  by (drule unlink_trace) (auto simp: file_level_only_def file_level_event_def)

lemma dvc_checkout_file_level:
  "dvc_checkout e (t @ ''.dvc'') w = (res, w') \<Longrightarrow> file_level_only w w'"
  by (drule dvc_checkout_cases) (simp add: file_level_only_def file_level_event_def suffix_def)

lemma mark_success_world: "mark_success rr a w = (out, w') \<Longrightarrow> w' = w"
  by (auto simp: mark_success_def split: sum.splits)

lemma all_failed_world: "all_failed rr w = (out, w') \<Longrightarrow> w' = w"
  by (auto simp: all_failed_def)

lemma recover_model_degradation_file_level:
  "recover_model_degradation e incident rr w = (out, w') \<Longrightarrow> file_level_only w w'"
  unfolding recover_model_degradation_def Let_def bindE_def mkdir_parents_def
  by (auto split: sum.splits if_splits prod.splits bool.splits
      dest!: mark_success_world all_failed_world
      dest: mkdir_chain_file_level shutil_copy2_file_level dvc_checkout_file_level file_level_only_trans)

lemma recover_pipeline_failure_file_level:
  "recover_pipeline_failure e incident rr w = (out, w') \<Longrightarrow> file_level_only w w'"
  unfolding recover_pipeline_failure_def
  by (auto split: sum.splits if_splits prod.splits dest: unlink_file_level)

lemma finish_file_level: "finish e (out, w1) = (r, w') \<Longrightarrow> file_level_only w w1 \<Longrightarrow> file_level_only w w'"
  by (cases out) (auto simp: finish_def file_level_only_def split: option.splits)

lemma delete_lookup [simp]: "map_of (AList.delete k d) k' = (if k' = k then None else map_of d k')"
  by (simp add: delete_conv')

lemma load_snapshot_metadata_world: "load_snapshot_metadata e t w = (res, w') \<Longrightarrow> w' = w"
  by (auto simp: load_snapshot_metadata_def Let_def bindE_def read_file_def returnE_def raiseE_def
      split: if_splits option.splits node.splits sum.splits)

lemma load_tags_snapshots:
  "load_tags e tags acc w = (Inr snaps, w') \<Longrightarrow> w' = w \<and> snaps = acc @ snapshots_in e w tags"
proof (induction tags arbitrary: acc)
  case Nil
  then show ?case by (simp add: snapshots_in_def)
next
  case (Cons t tags)
  show ?case
  proof (cases "t = []")
    case True
    with Cons show ?thesis by (simp add: snapshots_in_def)
  next
    case False
    obtain res w1 where l: "load_snapshot_metadata e t w = (res, w1)" by (cases "load_snapshot_metadata e t w")
    then have w1: "w1 = w" by (rule load_snapshot_metadata_world)
    from Cons.prems False l obtain v where res: "res = Inr v" by (cases res) auto
    from Cons.prems False l res w1
    have "load_tags e tags (if truthy v then acc @ [v] else acc) w = (Inr snaps, w')" by simp
    from Cons.IH[OF this] l res w1 False show ?thesis by (simp add: snapshots_in_def)
  qed
qed

lemma load_snapshot_metadata_class:
  "load_snapshot_metadata e t w = (Inl x, w') \<Longrightarrow> exn_class_of x \<noteq> CalledProcessError"
  by (auto simp: load_snapshot_metadata_def Let_def bindE_def read_file_def returnE_def raiseE_def os_error_def
      split: if_splits option.splits node.splits sum.splits)

lemma load_tags_class:
  "load_tags e tags acc w = (Inl x, w') \<Longrightarrow> exn_class_of x \<noteq> CalledProcessError"
proof (induction tags arbitrary: acc w)
  case Nil
  then show ?case by simp
next
  case (Cons t tags)
  show ?case
  proof (cases "t = []")
    case True
    with Cons show ?thesis by simp
  next
    case False
    obtain res w1 where l: "load_snapshot_metadata e t w = (res, w1)" by (cases "load_snapshot_metadata e t w")
    show ?thesis
    proof (cases res)
      case (Inl y)
      with Cons.prems False l load_snapshot_metadata_class[of e t w y w1] show ?thesis by simp
    next
      case (Inr v)
      with Cons.prems False l Cons.IH show ?thesis by simp
    qed
  qed
qed

lemma list_snapshots_listing:
  assumes "list_snapshots e w = (Inr snaps, w')"
  shows "trace w' = trace w @ [Run [''git'', ''tag'', ''-l''] (fst (exec e [''git'', ''tag'', ''-l''] w))] \<and>
         (case fst (exec e [''git'', ''tag'', ''-l''] w) of
            Completed rc out \<Rightarrow>
              snaps = (if rc = 0 then snapshots_in e w' (split_on (CHR 0x0A) (strip out)) else [])
          | SpawnFailed m \<Rightarrow> False)"
proof -
  obtain res w1 where s: "subprocess_run e [''git'', ''tag'', ''-l''] True w = (res, w1)"
    by (cases "subprocess_run e [''git'', ''tag'', ''-l''] True w")
  note t = subprocess_run_trace[OF s]
  show ?thesis
  proof (cases res)
    case (Inl x)
    with assms s t show ?thesis
      by (auto simp: list_snapshots_def except_cpe_def bindE_def subprocess_run_def Let_def
          split: prod.splits proc_result.splits if_splits)
  next
    case (Inr a)
    obtain rc out where a: "a = (rc, out)" by (cases a)
    from s Inr a have ex: "fst (exec e [''git'', ''tag'', ''-l''] w) = Completed rc out" "rc = 0"
      by (auto simp: subprocess_run_def Let_def split: prod.splits proc_result.splits if_splits)
    from assms s Inr a have "load_tags e (split_on (CHR 0x0A) (strip out)) [] w1 = (Inr snaps, w')"
      by (auto simp: list_snapshots_def except_cpe_def bindE_def split: prod.splits sum.splits if_splits
          dest: load_tags_class)
    from load_tags_snapshots[OF this] t ex show ?thesis by simp
  qed
qed

lemma dvc_pull_cases:
  "dvc_pull e w = (res, w') \<Longrightarrow>
     trace w' = trace w @ [Run [''dvc'', ''pull''] (fst (exec e [''dvc'', ''pull''] w))] \<and>
     (case fst (exec e [''dvc'', ''pull''] w) of
        Completed rc out \<Rightarrow> res = Inr (rc = 0)
      | SpawnFailed m \<Rightarrow> res = Inl (Exn OSError m))"
  by (auto simp: dvc_pull_def except_cpe_def bindE_def returnE_def subprocess_run_def Let_def log_event_def
      split: prod.splits proc_result.splits if_splits sum.splits)

lemma restore_data_only_events:
  assumes "restore_snapshot e v True False False w = (True, w')"
  shows "\<exists>r1 r2. trace w' = trace w @ [Run [''dvc'', ''pull''] r1, Run [''dvc'', ''checkout'', ''.''] r2]"
proof -
  from assms have
    "bindE (dvc_pull e) (\<lambda>_. bindE (dvc_checkout e ''.'') (\<lambda>_. returnE ())) w = (Inr (), w')"
    by (auto simp: restore_snapshot_def restore_snapshot_body_def bindE_def returnE_def raiseE_def
        split: prod.splits sum.splits if_splits dest!: load_snapshot_metadata_world)
  then obtain b1 w1 b2 where p: "dvc_pull e w = (Inr b1, w1)" and c: "dvc_checkout e ''.'' w1 = (Inr b2, w')"
    by (auto simp: bindE_def returnE_def split: prod.splits sum.splits)
  from dvc_pull_cases[OF p] dvc_checkout_cases[OF c] show ?thesis by simp
qed

text \<open>The case analysis of \<open>_recover_data_corruption\<close>, as seen from the result of
  \<open>recover_from_incident\<close>.\<close>

lemma data_corruption_cases:
  assumes ty: "map_of incident ''type'' = Some (VStr ''data_corruption'')"
    and af: "map_of incident ''affected_file'' = Some (VStr af)"
    and bp: "path_of_val (dict_get incident ''backup_path'' (VStr [])) = Inr backup"
    and run: "recover_from_incident e incident tv w = (r, w')"
    and w0: "w0 = snd (datetime_now e w)"
    and tgt: "target = str_of_path (path_of_str af) @ ''.dvc''"
  shows
   "(path_exists w backup \<longrightarrow>
        trace w' = trace w @ [Copy backup (path_of_str af)] \<and>
        (shutil_copy2 e backup (path_of_str af) w0 = (Inr (), wa) \<longrightarrow>
           fs w' = fs wa \<and>
           map_of r ''status'' = Some (VStr ''success'') \<and>
           map_of r ''actions_taken'' = Some (VList [VStr ''restored_from_backup''])))
    \<and> (\<not> path_exists w backup \<and> dvc_checkout e target w0 = (Inr True, wb) \<longrightarrow>
           trace w' = trace w @ [Run [''dvc'', ''checkout'', target]
                                   (fst (exec e [''dvc'', ''checkout'', target] w0))] \<and>
           map_of r ''status'' = Some (VStr ''success'') \<and>
           map_of r ''actions_taken'' = Some (VList [VStr ''restored_from_dvc'']))
    \<and> (\<not> path_exists w backup \<and> dvc_checkout e target w0 = (Inr False, wb) \<and>
        list_snapshots e wb = (Inr [], wc) \<longrightarrow>
           trace w' = trace wc \<and>
           map_of r ''status'' = Some (VStr ''failed'') \<and>
           map_of r ''error'' = Some (VStr ''All recovery strategies failed'') \<and>
           map_of r ''actions_taken'' = Some (VList []))
    \<and> (\<not> path_exists w backup \<and> dvc_checkout e target w0 = (Inr False, wb) \<and>
        list_snapshots e wb = (Inr snaps, wc) \<and> snaps \<noteq> [] \<and>
        subscript (last snaps) ''version'' = Inr v \<and>
        restore_snapshot e v True False False wc = (b, wd) \<longrightarrow>
           trace w' = trace wd \<and>
           (if b then map_of r ''status'' = Some (VStr ''success'') \<and>
                     map_of r ''actions_taken'' = Some (VList [VStr ''full_data_restore'']) \<and>
                     map_of r ''restored_version'' = Some v
            else map_of r ''status'' = Some (VStr ''failed'') \<and>
                 map_of r ''error'' = Some (VStr ''All recovery strategies failed'') \<and>
                 map_of r ''actions_taken'' = Some (VList [])))"
proof -
  let ?rr = "result0 incident (now_iso e (ticks w))"
  have w0': "w0 = w\<lparr>ticks := Suc (ticks w)\<rparr>" by (simp add: w0 datetime_now_def)
  have ex: "path_exists w0 backup = path_exists w backup" by (simp add: w0' path_exists_def)
  have fin: "finish e (dispatch e incident ?rr w0) = (r, w')"
    using run by (simp add: rfi_finish w0')
  note d = dispatch_dc[OF ty af bp, of e ?rr w0, folded tgt]
  have A1: "trace w' = trace w @ [Copy backup (path_of_str af)]" if E: "path_exists w backup"
  proof -
    obtain res w1 where c: "shutil_copy2 e backup (path_of_str af) w0 = (res, w1)" by force
    have t1: "trace w1 = trace w @ [Copy backup (path_of_str af)]"
      using shutil_copy2_trace[OF c] by (simp add: w0')
    show ?thesis
      using fin d E c t1 ex
      by (cases res) (auto simp: mark_success_result0 dest!: finish_fields)
  qed
  have A2: "fs w' = fs wa \<and> map_of r ''status'' = Some (VStr ''success'') \<and>
           map_of r ''actions_taken'' = Some (VList [VStr ''restored_from_backup''])"
    if E: "path_exists w backup" and c: "shutil_copy2 e backup (path_of_str af) w0 = (Inr (), wa)"
  proof -
    from fin d E c ex have "finish e ((None, [(''incident'', VDict incident),
             (''start_time'', VStr (now_iso e (ticks w))),
             (''status'', VStr ''success''),
             (''actions_taken'', VList [VStr ''restored_from_backup''])]), wa) = (r, w')"
      by (simp add: mark_success_result0)
    from finish_fields[OF this] show ?thesis by simp
  qed
  have B: "trace w' = trace w @ [Run [''dvc'', ''checkout'', target]
                                   (fst (exec e [''dvc'', ''checkout'', target] w0))] \<and>
           map_of r ''status'' = Some (VStr ''success'') \<and>
           map_of r ''actions_taken'' = Some (VList [VStr ''restored_from_dvc''])"
    if E: "\<not> path_exists w backup" and c: "dvc_checkout e target w0 = (Inr True, wb)"
  proof -
    from fin d E c ex have "finish e ((None, [(''incident'', VDict incident),
             (''start_time'', VStr (now_iso e (ticks w))),
             (''status'', VStr ''success''),
             (''actions_taken'', VList [VStr ''restored_from_dvc''])]), wb) = (r, w')"
      by (simp add: mark_success_result0)
    from finish_fields[OF this] dvc_checkout_cases[OF c] show ?thesis by (simp add: w0')
  qed
  have C: "trace w' = trace wc \<and>
           map_of r ''status'' = Some (VStr ''failed'') \<and>
           map_of r ''error'' = Some (VStr ''All recovery strategies failed'') \<and>
           map_of r ''actions_taken'' = Some (VList [])"
    if E: "\<not> path_exists w backup" and c: "dvc_checkout e target w0 = (Inr False, wb)"
      and l: "list_snapshots e wb = (Inr [], wc)"
  proof -
    from fin d E c l ex have "finish e (all_failed ?rr wc) = (r, w')"
      by (simp add: full_restore_def)
    from finish_fields[OF this[unfolded all_failed_result0]] show ?thesis by simp
  qed
  have D: "trace w' = trace wd \<and>
           (if b then map_of r ''status'' = Some (VStr ''success'') \<and>
                     map_of r ''actions_taken'' = Some (VList [VStr ''full_data_restore'']) \<and>
                     map_of r ''restored_version'' = Some v
            else map_of r ''status'' = Some (VStr ''failed'') \<and>
                 map_of r ''error'' = Some (VStr ''All recovery strategies failed'') \<and>
                 map_of r ''actions_taken'' = Some (VList []))"
    if E: "\<not> path_exists w backup" and c: "dvc_checkout e target w0 = (Inr False, wb)"
      and l: "list_snapshots e wb = (Inr snaps, wc)" and n: "snaps \<noteq> []"
      and s: "subscript (last snaps) ''version'' = Inr v"
      and rs: "restore_snapshot e v True False False wc = (b, wd)"
  proof -
    have fr: "dispatch e incident ?rr w0 =
        (if b then ((None, [(''incident'', VDict incident),
             (''start_time'', VStr (now_iso e (ticks w))),
             (''status'', VStr ''success''),
             (''actions_taken'', VList [VStr ''full_data_restore'']),
             (''restored_version'', v)]), wd)
         else all_failed ?rr wd)"
      using d E c l n s rs ex by (simp add: full_restore_def result0_def append_action_def)
    show ?thesis
    proof (cases b)
      case True
      with fin fr have "finish e ((None, [(''incident'', VDict incident),
             (''start_time'', VStr (now_iso e (ticks w))),
             (''status'', VStr ''success''),
             (''actions_taken'', VList [VStr ''full_data_restore'']),
             (''restored_version'', v)]), wd) = (r, w')" by simp
      from finish_fields[OF this] True show ?thesis by simp
    next
      case False
      with fin fr have "finish e (all_failed ?rr wd) = (r, w')" by simp
      from finish_fields[OF this[unfolded all_failed_result0]] False show ?thesis by simp
    qed
  qed
  from A1 A2 B C D show ?thesis by blast
qed

lemma failed_incident_status [simp]:
  "map_of (failed_incident i x) ''status'' = Some (VStr ''failed'')"
  by (simp add: failed_incident_def)

lemma simulate_data_corruption_log:
  assumes "simulate_data_corruption e p ct lg w = ((inc, lg'), w')"
  shows "(map_of inc ''status'' = Some (VStr ''active'') \<and> lg' = lg @ [inc]) \<or>
         (map_of inc ''status'' = Some (VStr ''failed'') \<and> lg' = lg)"
  using assms unfolding simulate_data_corruption_def Let_def
  by (auto split: prod.splits sum.splits)

lemma simulate_model_degradation_log:
  assumes "simulate_model_degradation e p dt lg w = ((inc, lg'), w')"
  shows "(map_of inc ''status'' = Some (VStr ''active'') \<and> lg' = lg @ [inc]) \<or>
         (map_of inc ''status'' = Some (VStr ''failed'') \<and> lg' = lg)"
  using assms unfolding simulate_model_degradation_def Let_def
  by (auto split: prod.splits sum.splits if_splits)

lemma simulate_pipeline_failure_log:
  assumes "simulate_pipeline_failure e fp lg w = ((res, lg'), w')"
  shows "case res of Inr inc \<Rightarrow> map_of inc ''status'' = Some (VStr ''active'') \<and> lg' = lg @ [inc]
                   | Inl x \<Rightarrow> lg' = lg"
  using assms unfolding simulate_pipeline_failure_def Let_def
  by (auto split: prod.splits sum.splits if_splits)

lemma simulate_pipeline_failure_log':
  assumes "simulate_pipeline_failure e fp lg w = ((res, lg'), w')"
  shows "lg' = lg \<or> (\<exists>inc. res = Inr inc \<and> map_of inc ''status'' = Some (VStr ''active'') \<and> lg' = lg @ [inc])"
  using simulate_pipeline_failure_log[OF assms] by (cases res) auto

lemma simulate_random_incident_log:
  assumes "simulate_random_incident e paths lg w = ((res, lg'), w')"
  shows "lg' = lg \<or> (\<exists>inc. res = Inr inc \<and> map_of inc ''status'' = Some (VStr ''active'') \<and> lg' = lg @ [inc])"
proof -
  obtain ty sub where c: "choice e (2 * ticks w)
      [(''data_corruption'', ''random''), (''data_corruption'', ''missing''),
       (''model_degradation'', ''delete''), (''pipeline_failure'', ''preprocessing'')] = (ty, sub)"
    by (cases "choice e (2 * ticks w)
      [(''data_corruption'', ''random''), (''data_corruption'', ''missing''),
       (''model_degradation'', ''delete''), (''pipeline_failure'', ''preprocessing'')]")
  consider (dc) "ty = ''data_corruption''" | (md) "ty = ''model_degradation''"
    | (pf) "ty = ''pipeline_failure''"
    | (other) "ty \<noteq> ''data_corruption''" "ty \<noteq> ''model_degradation''" "ty \<noteq> ''pipeline_failure''"
    by blast
  then show ?thesis
  proof cases
    case dc
    show ?thesis
    proof (cases "glob_star w (raw_data paths) ''.csv'' = []")
      case True
      with assms c dc show ?thesis by (simp add: simulate_random_incident_def)
    next
      case False
      obtain inc l2 w2 where s: "simulate_data_corruption e
          (choice e (2 * ticks w + 1) (glob_star w (raw_data paths) ''.csv'')) sub lg w = ((inc, l2), w2)"
        by (metis surj_pair)
      with assms c dc False have "res = Inr inc" "lg' = l2"
        by (simp_all add: simulate_random_incident_def)
      with simulate_data_corruption_log[OF s] show ?thesis by auto
    qed
  next
    case md
    show ?thesis
    proof (cases "glob_star_star w (trained_models paths) ''.joblib'' = []")
      case True
      with assms c md show ?thesis by (simp add: simulate_random_incident_def)
    next
      case False
      obtain inc l2 w2 where s: "simulate_model_degradation e
          (choice e (2 * ticks w + 1) (glob_star_star w (trained_models paths) ''.joblib'')) sub lg w = ((inc, l2), w2)"
        by (metis surj_pair)
      with assms c md False have "res = Inr inc" "lg' = l2"
        by (simp_all add: simulate_random_incident_def)
      with simulate_model_degradation_log[OF s] show ?thesis by auto
    qed
  next
    case pf
    with assms c have "simulate_pipeline_failure e sub lg w = ((res, lg'), w')"
      by (simp add: simulate_random_incident_def)
    then show ?thesis by (rule simulate_pipeline_failure_log')
  next
    case other
    with assms c show ?thesis by (simp add: simulate_random_incident_def)
  qed
qed

lemma split_on_absent: "c \<notin> set s \<Longrightarrow> split_on c s = [s]"
  by (induction s) auto

lemma marker_path:
  "CHR ''/'' \<notin> set fp \<Longrightarrow>
   path_join [''.incident_markers''] (''pipeline_failure_'' @ fp @ ''.marker'')
     = [''.incident_markers'', ''pipeline_failure_'' @ fp @ ''.marker'']"
  by (simp add: path_join_def path_of_str_def split_on_absent Let_def)

lemma split_on_append: "c \<notin> set x \<Longrightarrow> split_on c (x @ c # rest) = x # split_on c rest"
  by (induction x) auto

lemma split_join:
  "ps \<noteq> [] \<Longrightarrow> \<forall>x\<in>set ps. c \<notin> set x \<Longrightarrow> split_on c (join_with c ps) = ps"
proof (induction c ps rule: join_with.induct)
  case (1 c)
  then show ?case by simp
next
  case (2 c x)
  then show ?case by (simp add: split_on_absent)
next
  case (3 c x y ys)
  then show ?case by (simp add: split_on_append)
qed

lemma filter_wf_parts: "list_all wf_part ps \<Longrightarrow> filter (\<lambda>p. p \<noteq> [] \<and> p \<noteq> ''.'') ps = ps"
  by (induction ps) (auto simp: wf_part_def)

lemma join_with_not_root: "wf_part r \<Longrightarrow> take 1 (join_with (CHR ''/'') (r # ps)) \<noteq> ''/''"
  by (cases r; cases ps) (auto simp: wf_part_def)

lemma path_str_roundtrip:
  assumes "wf_path p"
  shows "path_of_str (str_of_path p) = p"
proof (cases p)
  case Nil
  then show ?thesis by (simp add: str_of_path_def path_of_str_def)
next
  case (Cons r ps)
  with assms have ps: "list_all wf_part ps" and r: "r = ''/'' \<or> wf_part r" by (simp_all add: wf_path_def)
  from ps have nos: "\<forall>x\<in>set ps. CHR ''/'' \<notin> set x" by (simp add: list_all_iff wf_part_def)
  show ?thesis
  proof (cases "r = ''/''")
    case True
    show ?thesis
    proof (cases "ps = []")
      case True
      with \<open>r = ''/''\<close> Cons show ?thesis by (simp add: str_of_path_def path_of_str_def)
    next
      case False
      from split_join[OF False nos] filter_wf_parts[OF ps] True Cons show ?thesis
        by (simp add: str_of_path_def path_of_str_def)
    qed
  next
    case False
    with r have wr: "wf_part r" by simp
    then have all: "list_all wf_part (r # ps)" using ps by simp
    have nos': "\<forall>x\<in>set (r # ps). CHR ''/'' \<notin> set x" using nos wr by (simp add: wf_part_def)
    from join_with_not_root[OF wr, of ps] split_join[OF _ nos'] filter_wf_parts[OF all] False Cons show ?thesis
      by (simp add: str_of_path_def path_of_str_def)
  qed
qed

lemma path_suffix_is_suffix:
  "path_suffix p \<noteq> [] \<Longrightarrow>
   take (length (path_name p) - length (path_suffix p)) (path_name p) @ path_suffix p = path_name p"
proof -
  let ?n = "path_name p"
  let ?P = "\<lambda>c. c \<noteq> CHR ''.''"
  assume ne: "path_suffix p \<noteq> []"
  then have dot: "CHR ''.'' \<in> set ?n" and s: "path_suffix p = CHR ''.'' # rev (takeWhile ?P (rev ?n))"
    by (auto simp: path_suffix_def Let_def split: if_splits)
  from dot have "dropWhile ?P (rev ?n) \<noteq> []" by (simp add: dropWhile_eq_Nil_conv)
  then obtain rest where d: "dropWhile ?P (rev ?n) = CHR ''.'' # rest"
    using hd_dropWhile[of ?P "rev ?n"] by (cases "dropWhile ?P (rev ?n)") auto
  have "rev ?n = takeWhile ?P (rev ?n) @ CHR ''.'' # rest"
    using takeWhile_dropWhile_id[of ?P "rev ?n"] d by simp
  then have "?n = rev rest @ path_suffix p"
    by (metis s rev_append rev_rev_ident rev.simps(2) append_Cons append_Nil append_assoc)
  then show ?thesis by (metis append_eq_conv_conj length_append add_diff_cancel_right')
qed

lemma path_suffix_starts_with_dot: "path_suffix p \<noteq> [] \<Longrightarrow> take 1 (path_suffix p) = ''.''"
  by (auto simp: path_suffix_def Let_def split: if_splits)

lemma path_suffix_chars: "set (path_suffix p) \<subseteq> set (path_name p)"
proof (cases "path_suffix p = []")
  case True
  then show ?thesis by simp
next
  case False
  from path_suffix_is_suffix[OF this] show ?thesis
    by (metis Un_upper2 set_append)
qed

lemma backup_path_shape:
  assumes "with_suffix p (path_suffix p @ ''.backup'') = Inr bp"
  shows "p \<noteq> [] \<and> bp = butlast p @ [last p @ ''.backup'']"
proof -
  from assms have n: "path_name p \<noteq> []"
    by (auto simp: with_suffix_def split: if_splits)
  then have pn: "p \<noteq> []" "path_name p = last p" by (auto simp: path_name_def split: if_splits)
  have "(if path_suffix p = [] then path_name p @ path_suffix p @ ''.backup''
         else take (length (path_name p) - length (path_suffix p)) (path_name p) @ path_suffix p @ ''.backup'')
        = path_name p @ ''.backup''"
    using path_suffix_is_suffix[of p] by (cases "path_suffix p = []") (simp_all flip: append_assoc)
  with assms n pn show ?thesis
    by (auto simp: with_suffix_def Let_def split: if_splits)
qed

lemma wf_part_backup: "wf_part c \<Longrightarrow> wf_part (c @ ''.backup'')"
  by (cases c) (auto simp: wf_part_def)

lemma wf_path_backup:
  assumes "wf_path p" "path_name p \<noteq> []"
  shows "wf_path (butlast p @ [last p @ ''.backup''])"
proof (cases p)
  case Nil
  with assms show ?thesis by (simp add: path_name_def)
next
  case (Cons r ps)
  show ?thesis
  proof (cases "ps = []")
    case True
    with assms Cons show ?thesis
      by (auto simp: wf_path_def path_name_def wf_part_backup)
  next
    case False
    with assms Cons have "list_all wf_part ps" "r = ''/'' \<or> wf_part r" by (simp_all add: wf_path_def)
    moreover from this False have "list_all wf_part (butlast ps @ [last ps @ ''.backup''])"
      by (auto simp: list_all_iff wf_part_backup dest: in_set_butlastD)
    ultimately show ?thesis using False Cons by (simp add: wf_path_def)
  qed
qed

lemma backup_path_differs: "p \<noteq> [] \<Longrightarrow> butlast p @ [last p @ ''.backup''] \<noteq> p"
proof
  assume "p \<noteq> []" and eq: "butlast p @ [last p @ ''.backup''] = p"
  then have "last (butlast p @ [last p @ ''.backup'']) = last p" by simp
  then show False by simp
qed

lemma simulate_data_corruption_active:
  assumes sim: "simulate_data_corruption e p ct lg w = ((inc, lg'), w1)"
    and act: "map_of inc ''status'' = Some (VStr ''active'')"
    and nd: "\<not> is_dir w (butlast p @ [last p @ ''.backup''])"
  shows "\<exists>c c'. map_of (fs w) p = Some (File c) \<and>
           fs w1 = AList.update p (File c') (AList.update (butlast p @ [last p @ ''.backup'']) (File c) (fs w)) \<and>
           map_of inc ''type'' = Some (VStr ''data_corruption'') \<and>
           map_of inc ''affected_file'' = Some (VStr (str_of_path p)) \<and>
           map_of inc ''backup_path'' = Some (VStr (str_of_path (butlast p @ [last p @ ''.backup'']))) \<and>
           path_name p \<noteq> []"
proof -
  let ?bp = "butlast p @ [last p @ ''.backup'']"
  let ?w0 = "w\<lparr>ticks := Suc (ticks w)\<rparr>"
  obtain bp where ws: "with_suffix p (path_suffix p @ ''.backup'') = Inr bp"
    using sim act
    by (cases "with_suffix p (path_suffix p @ ''.backup'')")
       (auto simp: simulate_data_corruption_def Let_def datetime_now_def)
  from backup_path_shape[OF ws] have bp: "bp = ?bp" and pne: "p \<noteq> []" by simp_all
  from ws have pn: "path_name p \<noteq> []" by (auto simp: with_suffix_def split: if_splits)
  have neq: "?bp \<noteq> p" by (rule backup_path_differs[OF pne])
  obtain res wa where cp: "shutil_copy2 e p ?bp ?w0 = (res, wa)" by (cases "shutil_copy2 e p ?bp ?w0")
  from sim act ws bp cp have res: "res = Inr ()"
    by (cases res) (auto simp: simulate_data_corruption_def Let_def datetime_now_def)
  from cp res nd neq obtain c where c: "map_of (fs w) p = Some (File c)"
    and wa: "fs wa = AList.update ?bp (File c) (fs w)"
    by (auto simp: shutil_copy2_def Let_def is_dir_def path_exists_def log_event_def
        split: if_splits option.splits node.splits)
  have rd: "read_file e p wa = (Inr c, wa)"
    using c wa neq by (simp add: read_file_def update_conv')
  obtain df where df: "read_csv e c = Inr df"
    using sim act ws bp cp res rd
    by (cases "read_csv e c") (auto simp: simulate_data_corruption_def Let_def datetime_now_def)
  obtain df' where df': "corrupt_df e ct (ticks w) df = Inr df'"
    using sim act ws bp cp res rd df
    by (cases "corrupt_df e ct (ticks w) df") (auto simp: simulate_data_corruption_def Let_def datetime_now_def)
  have wr: "write_file e p (df_csv df') wa =
      (Inr (), log_event (Write p) (wa\<lparr>fs := AList.update p (File (df_csv df')) (fs wa)\<rparr>))"
    using c wa neq by (simp add: write_file_def update_conv')
  from sim ws bp cp res rd df df' wr wa
  have "fs w1 = AList.update p (File (df_csv df')) (AList.update ?bp (File c) (fs w))"
    and "map_of inc ''type'' = Some (VStr ''data_corruption'')"
    and "map_of inc ''affected_file'' = Some (VStr (str_of_path p))"
    and "map_of inc ''backup_path'' = Some (VStr (str_of_path ?bp))"
    by (auto simp: simulate_data_corruption_def Let_def datetime_now_def log_event_def)
  with c pn show ?thesis by blast
qed

text \<open>Without \<open>restore_code\<close>, a successful \<open>restore_snapshot\<close> is \<open>dvc pull\<close> followed by
  \<open>dvc checkout .\<close>, whatever the version and the \<open>restore_models\<close> flag.\<close>

lemma restore_without_code:
  assumes "restore_snapshot e v True m False w = (True, w')"
  shows "bindE (dvc_pull e) (\<lambda>_. bindE (dvc_checkout e ''.'') (\<lambda>_. returnE ())) w = (Inr (), w')"
  using assms
  by (auto simp: restore_snapshot_def restore_snapshot_body_def bindE_def returnE_def raiseE_def
        split: prod.splits sum.splits if_splits dest!: load_snapshot_metadata_world)

lemma restore_models_flag: "restore_snapshot e v True m c w = restore_snapshot e v True m' c w"
  by (simp add: restore_snapshot_def restore_snapshot_body_def)

lemma restore_version_irrelevant:
  assumes "restore_snapshot e v True m False w = (True, w1)"
    and "restore_snapshot e v' True m' False w = (True, w2)"
  shows "w2 = w1"
  using restore_without_code[OF assms(1)] restore_without_code[OF assms(2)] by simp

section \<open>Lemmas on the training pipeline and on snapshot creation\<close>

lemma pipeline_steps_split:
  "pipeline_steps mp = map Call calls_before_add @ [DvcAdd mp] @ map Call calls_after_add"
  by (simp add: pipeline_steps_def calls_before_add_def calls_after_add_def)

lemma lib_names_append [simp]: "lib_names (xs @ ys) = lib_names xs @ lib_names ys"
  by (induction xs rule: lib_names.induct) auto

lemma lib_names_map_Lib [simp]: "lib_names (map Lib ns) = ns"
  by (induction ns) auto

lemma lib_call_trace: "lib_call e n w = (res, w') \<Longrightarrow> trace w' = trace w @ [Lib n]"
  by (auto simp: lib_call_def log_event_def split: option.splits)

lemma dvc_add_events:
  assumes "dvc_add e a p w = (res, w')"
  shows "\<exists>evs. trace w' = trace w @ Run [''dvc'', ''add'', str_of_path p] (fst (exec e [''dvc'', ''add'', str_of_path p] w)) # evs \<and>
               lib_names evs = []"
proof -
  obtain r1 w1 where s: "subprocess_run e [''dvc'', ''add'', str_of_path p] True w = (r1, w1)"
    by (cases "subprocess_run e [''dvc'', ''add'', str_of_path p] True w")
  note t1 = subprocess_run_trace[OF s]
  show ?thesis
  proof (cases r1)
    case (Inl x)
    with assms s have "w' = w1"
      by (auto simp: dvc_add_def except_cpe_def bindE_def split: if_splits)
    with t1 show ?thesis by simp
  next
    case (Inr v)
    let ?d = "path_of_str (str_of_path p @ ''.dvc'')"
    show ?thesis
    proof (cases "a \<and> path_exists w1 ?d")
      case False
      with assms s Inr have "w' = w1"
        by (auto simp: dvc_add_def except_cpe_def bindE_def returnE_def Let_def split: if_splits)
      with t1 show ?thesis by simp
    next
      case True
      obtain r2 w2 where s2: "subprocess_run e [''git'', ''add'', str_of_path ?d] False w1 = (r2, w2)"
        by (cases "subprocess_run e [''git'', ''add'', str_of_path ?d] False w1")
      with assms s Inr True have "w' = w2"
        by (auto simp: dvc_add_def except_cpe_def bindE_def returnE_def Let_def split: if_splits sum.splits)
      with t1 subprocess_run_trace[OF s2] show ?thesis by simp
    qed
  qed
qed

lemma run_step_events:
  "run_step e a s w = (res, w') \<Longrightarrow> \<exists>evs. trace w' = trace w @ evs \<and> lib_names evs = step_name s"
proof (cases s)
  case (Call n)
  assume "run_step e a s w = (res, w')"
  with Call lib_call_trace[of e n w res w'] show ?thesis by auto
next
  case (DvcAdd p)
  assume r: "run_step e a s w = (res, w')"
  obtain r1 w1 where d: "dvc_add e a p w = (r1, w1)" by (cases "dvc_add e a p w")
  with r DvcAdd have "w' = w1" by (auto simp: bindE_def returnE_def split: sum.splits)
  with dvc_add_events[OF d] DvcAdd show ?thesis by auto
qed

lemma run_steps_events:
  "run_steps e a steps w = (res, w') \<Longrightarrow>
   \<exists>evs. trace w' = trace w @ evs \<and> prefix (lib_names evs) (concat (map step_name steps)) \<and>
         (res = Inr () \<longrightarrow> lib_names evs = concat (map step_name steps))"
proof (induction steps arbitrary: w)
  case Nil
  then show ?case by simp
next
  case (Cons s steps)
  obtain r1 w1 where s: "run_step e a s w = (r1, w1)" by (cases "run_step e a s w")
  from run_step_events[OF s] obtain ev1 where e1: "trace w1 = trace w @ ev1" "lib_names ev1 = step_name s"
    by blast
  show ?case
  proof (cases r1)
    case (Inl x)
    with Cons.prems s have "w' = w1" "res = Inl x" by auto
    with e1 show ?thesis by auto
  next
    case (Inr u)
    with Cons.prems s have "run_steps e a steps w1 = (res, w')" by simp
    from Cons.IH[OF this] obtain ev2 where
      "trace w' = trace w1 @ ev2" "prefix (lib_names ev2) (concat (map step_name steps))"
      "res = Inr () \<longrightarrow> lib_names ev2 = concat (map step_name steps)" by blast
    with e1 show ?thesis by (intro exI[of _ "ev1 @ ev2"]) simp
  qed
qed

lemma run_steps_append:
  "run_steps e a (s1 @ s2) w =
     (case run_steps e a s1 w of (Inl x, w') \<Rightarrow> (Inl x, w') | (Inr u, w') \<Rightarrow> run_steps e a s2 w')"
  by (induction s1 arbitrary: w) (auto split: prod.splits sum.splits)

lemma run_calls_ok:
  "run_steps e a (map Call ns) w = (Inr (), w') \<Longrightarrow> trace w' = trace w @ map Lib ns \<and> fs w' = fs w"
proof (induction ns arbitrary: w)
  case Nil
  then show ?case by simp
next
  case (Cons n ns)
  from Cons.prems obtain w1 where l: "lib_call e n w = (Inr (), w1)" and r: "run_steps e a (map Call ns) w1 = (Inr (), w')"
    by (auto split: prod.splits sum.splits)
  from l have "trace w1 = trace w @ [Lib n]" "fs w1 = fs w"
    by (auto simp: lib_call_def log_event_def split: option.splits)
  with Cons.IH[OF r] show ?case by simp
qed

lemma added_ok_append [simp]: "added_ok (xs @ ys) = added_ok xs @ added_ok ys"
  by (induction xs rule: added_ok.induct) auto

lemma attempted_append [simp]: "attempted (xs @ ys) = attempted xs @ attempted ys"
  by (induction xs rule: attempted.induct) auto

lemma subprocess_run_unchecked:
  "subprocess_run e argv False w = (Inl x, w') \<Longrightarrow> exn_class_of x = OSError"
  by (auto simp: subprocess_run_def Let_def split: prod.splits proc_result.splits)

lemma dvc_add_staging:
  assumes "dvc_add e a p w = (Inr ok, w')"
  shows "\<exists>evs. trace w' = trace w @ evs \<and> list_all staging_event evs \<and>
               added_ok evs = (if ok then [VStr (str_of_path p)] else []) \<and>
               attempted evs = [str_of_path p]"
proof -
  let ?argv = "[''dvc'', ''add'', str_of_path p]"
  obtain r1 w1 where s: "subprocess_run e ?argv True w = (r1, w1)"
    by (cases "subprocess_run e ?argv True w")
  note t1 = subprocess_run_trace[OF s]
  show ?thesis
  proof (cases r1)
    case (Inl x)
    with assms s have w': "w' = w1" and ok: "\<not> ok" and cpe: "exn_class_of x = CalledProcessError"
      by (auto simp: dvc_add_def except_cpe_def bindE_def split: if_splits)
    from s Inl cpe obtain rc out where "fst (exec e ?argv w) = Completed rc out" "rc \<noteq> 0"
      by (auto simp: subprocess_run_def Let_def split: prod.splits proc_result.splits if_splits)
    with t1 w' ok show ?thesis by (simp add: staging_event_def)
  next
    case (Inr v)
    with s obtain out where c: "fst (exec e ?argv w) = Completed 0 out"
      by (auto simp: subprocess_run_def Let_def split: prod.splits proc_result.splits if_splits)
    let ?d = "path_of_str (str_of_path p @ ''.dvc'')"
    show ?thesis
    proof (cases "a \<and> path_exists w1 ?d")
      case False
      with assms s Inr have "w' = w1" "ok"
        by (auto simp: dvc_add_def except_cpe_def bindE_def returnE_def Let_def split: if_splits)
      with t1 c show ?thesis by (simp add: staging_event_def)
    next
      case True
      obtain r2 w2 where s2: "subprocess_run e [''git'', ''add'', str_of_path ?d] False w1 = (r2, w2)"
        by (cases "subprocess_run e [''git'', ''add'', str_of_path ?d] False w1")
      with assms s Inr True have "w' = w2" "ok"
        by (auto simp: dvc_add_def except_cpe_def bindE_def returnE_def Let_def split: if_splits sum.splits
            dest: subprocess_run_unchecked)
      with t1 subprocess_run_trace[OF s2] c show ?thesis
        by (cases "fst (exec e [''git'', ''add'', str_of_path ?d] w1)") (simp_all add: staging_event_def)
    qed
  qed
qed

lemma glob_star_fs: "fs w' = fs w \<Longrightarrow> glob_star w' d ending = glob_star w d ending"
  by (simp add: glob_star_def is_dir_def)

lemma is_dir_fs: "fs w' = fs w \<Longrightarrow> is_dir w' d = is_dir w d"
  by (simp add: is_dir_def)

lemma subprocess_run_fs:
  "files_untouched e \<Longrightarrow> subprocess_run e argv chk w = (res, w') \<Longrightarrow> fs w' = fs w"
  by (auto simp: files_untouched_def subprocess_run_def Let_def log_event_def
      split: prod.splits proc_result.splits if_splits dest: spec[of _ argv])
     (metis snd_conv)+

lemma dvc_add_fs:
  assumes "files_untouched e" "dvc_add e a p w = (res, w')"
  shows "fs w' = fs w"
proof -
  let ?argv = "[''dvc'', ''add'', str_of_path p]"
  let ?d = "path_of_str (str_of_path p @ ''.dvc'')"
  obtain r1 w1 where s: "subprocess_run e ?argv True w = (r1, w1)"
    by (cases "subprocess_run e ?argv True w")
  obtain r2 w2 where s2: "subprocess_run e [''git'', ''add'', str_of_path ?d] False w1 = (r2, w2)"
    by (cases "subprocess_run e [''git'', ''add'', str_of_path ?d] False w1")
  from assms(2) s s2 have "w' = w1 \<or> w' = w2"
    by (auto simp: dvc_add_def except_cpe_def bindE_def returnE_def Let_def split: if_splits sum.splits)
  with subprocess_run_fs[OF assms(1) s] subprocess_run_fs[OF assms(1) s2] show ?thesis by auto
qed

lemma add_files_staging:
  "add_files e a files acc w = (Inr acc', w') \<Longrightarrow>
   \<exists>evs. trace w' = trace w @ evs \<and> list_all staging_event evs \<and>
         acc' = acc @ added_ok evs \<and> attempted evs = map str_of_path files \<and>
         (files_untouched e \<longrightarrow> fs w' = fs w)"
proof (induction files arbitrary: acc w)
  case Nil
  then show ?case by simp
next
  case (Cons f files)
  from Cons.prems obtain ok w1 where d: "dvc_add e a f w = (Inr ok, w1)"
    and r: "add_files e a files (if ok then acc @ [VStr (str_of_path f)] else acc) w1 = (Inr acc', w')"
    by (auto split: prod.splits sum.splits)
  from dvc_add_staging[OF d] obtain ev1 where e1: "trace w1 = trace w @ ev1" "list_all staging_event ev1"
    "added_ok ev1 = (if ok then [VStr (str_of_path f)] else [])" "attempted ev1 = [str_of_path f]" by blast
  from Cons.IH[OF r] obtain ev2 where e2: "trace w' = trace w1 @ ev2" "list_all staging_event ev2"
    "acc' = (if ok then acc @ [VStr (str_of_path f)] else acc) @ added_ok ev2"
    "attempted ev2 = map str_of_path files" "files_untouched e \<longrightarrow> fs w' = fs w1" by blast
  from e1 e2 dvc_add_fs[OF _ d] show ?case by (intro exI[of _ "ev1 @ ev2"]) simp
qed

lemma add_dirs_staging:
  "add_dirs e a ending dirs acc w = (Inr acc', w') \<Longrightarrow>
   \<exists>evs. trace w' = trace w @ evs \<and> list_all staging_event evs \<and>
         acc' = acc @ added_ok evs \<and>
         (files_untouched e \<longrightarrow> fs w' = fs w \<and>
            attempted evs =
              map str_of_path (concat (map (\<lambda>d. glob_star w d ending) (filter (is_dir w) dirs))))"
proof (induction dirs arbitrary: acc w)
  case Nil
  then show ?case by simp
next
  case (Cons d dirs)
  show ?case
  proof (cases "is_dir w d")
    case False
    with Cons.prems have "add_dirs e a ending dirs acc w = (Inr acc', w')" by simp
    from Cons.IH[OF this] False show ?thesis by simp
  next
    case True
    with Cons.prems obtain acc1 w1 where f: "add_files e a (glob_star w d ending) acc w = (Inr acc1, w1)"
      and r: "add_dirs e a ending dirs acc1 w1 = (Inr acc', w')"
      by (auto split: prod.splits sum.splits)
    from add_files_staging[OF f] obtain ev1 where e1: "trace w1 = trace w @ ev1" "list_all staging_event ev1"
      "acc1 = acc @ added_ok ev1" "attempted ev1 = map str_of_path (glob_star w d ending)"
      "files_untouched e \<longrightarrow> fs w1 = fs w" by blast
    from Cons.IH[OF r] obtain ev2 where e2: "trace w' = trace w1 @ ev2" "list_all staging_event ev2"
      "acc' = acc1 @ added_ok ev2"
      "files_untouched e \<longrightarrow> fs w' = fs w1 \<and>
            attempted ev2 =
              map str_of_path (concat (map (\<lambda>d. glob_star w1 d ending) (filter (is_dir w1) dirs)))"
      by blast
    have st: "concat (map (\<lambda>d. glob_star w1 d ending) (filter (is_dir w1) dirs))
            = concat (map (\<lambda>d. glob_star w d ending) (filter (is_dir w) dirs))" if "fs w1 = fs w"
      using that by (simp add: glob_star_fs[OF that] is_dir_fs[OF that] cong: filter_cong)
    from e1 e2 True st show ?thesis
      by (intro exI[of _ "ev1 @ ev2"]) auto
  qed
qed

lemma bindE_Inr:
  "bindE m f w = (Inr b, w') \<Longrightarrow> \<exists>a w1. m w = (Inr a, w1) \<and> f a w1 = (Inr b, w')"
  by (auto simp: bindE_def split: prod.splits sum.splits)

lemma stage_files_staging:
  assumes "stage_files e a paths include_data include_models w = (Inr dvc_files, w')"
  shows "\<exists>evs. trace w' = trace w @ evs \<and> list_all staging_event evs \<and>
           dvc_files = added_ok evs \<and>
           (include_data \<longrightarrow>
              prefix (map str_of_path (glob_star w (raw_data paths) ''.csv'')) (attempted evs)) \<and>
           (files_untouched e \<longrightarrow>
              attempted evs =
                (if include_data
                 then map str_of_path (glob_star w (raw_data paths) ''.csv'') @
                      map str_of_path (glob_star_star w (processed_data paths) ''.csv'')
                 else []) @
                (if include_models
                 then map str_of_path (glob_star_star w (trained_models paths) ''.joblib'')
                 else []))"
proof -
  have A: "\<exists>evs. trace w1 = trace w @ evs \<and> list_all staging_event evs \<and>
           fs1 = added_ok evs \<and>
           (include_data \<longrightarrow>
              prefix (map str_of_path (glob_star w (raw_data paths) ''.csv'')) (attempted evs)) \<and>
           (files_untouched e \<longrightarrow> fs w1 = fs w \<and>
              attempted evs =
                (if include_data
                 then map str_of_path (glob_star w (raw_data paths) ''.csv'') @
                      map str_of_path (glob_star_star w (processed_data paths) ''.csv'')
                 else []))"
    if d: "(if include_data
            then bindE (\<lambda>w. add_files e a (glob_star w (raw_data paths) ''.csv'') [] w)
                   (\<lambda>fs1 w. add_dirs e a ''.csv'' (glob_star w (processed_data paths) []) fs1 w)
            else returnE []) w = (Inr fs1, w1)" for fs1 w1
  proof (cases include_data)
    case False
    with d show ?thesis by (intro exI[of _ "[]"]) (simp add: returnE_def)
  next
    case True
    with d obtain f0 w0 where
      f: "add_files e a (glob_star w (raw_data paths) ''.csv'') [] w = (Inr f0, w0)"
      and g: "add_dirs e a ''.csv'' (glob_star w0 (processed_data paths) []) f0 w0 = (Inr fs1, w1)"
      by (auto dest!: bindE_Inr)
    from add_files_staging[OF f] obtain ev1 where e1: "trace w0 = trace w @ ev1" "list_all staging_event ev1"
      "f0 = added_ok ev1" "attempted ev1 = map str_of_path (glob_star w (raw_data paths) ''.csv'')"
      "files_untouched e \<longrightarrow> fs w0 = fs w" by auto
    from add_dirs_staging[OF g] obtain ev2 where e2: "trace w1 = trace w0 @ ev2" "list_all staging_event ev2"
      "fs1 = f0 @ added_ok ev2"
      "files_untouched e \<longrightarrow> fs w1 = fs w0 \<and>
            attempted ev2 =
              map str_of_path (concat (map (\<lambda>d. glob_star w0 d ''.csv'')
                 (filter (is_dir w0) (glob_star w0 (processed_data paths) []))))"
      by blast
    have st: "concat (map (\<lambda>d. glob_star w0 d ''.csv'') (filter (is_dir w0) (glob_star w0 (processed_data paths) [])))
        = glob_star_star w (processed_data paths) ''.csv''" if "fs w0 = fs w"
      unfolding glob_star_star_def
      by (simp add: glob_star_fs[OF that] is_dir_fs[OF that] cong: filter_cong)
    from e1 e2 True st show ?thesis
      by (intro exI[of _ "ev1 @ ev2"]) auto
  qed
  from assms obtain fs1 w1 where
    d: "(if include_data
            then bindE (\<lambda>w. add_files e a (glob_star w (raw_data paths) ''.csv'') [] w)
                   (\<lambda>fs1 w. add_dirs e a ''.csv'' (glob_star w (processed_data paths) []) fs1 w)
            else returnE []) w = (Inr fs1, w1)"
    and m: "(if include_models
               then (\<lambda>w. add_dirs e a ''.joblib'' (glob_star w (trained_models paths) []) fs1 w)
               else returnE fs1) w1 = (Inr dvc_files, w')"
    unfolding stage_files_def by (auto dest!: bindE_Inr)
  from A[OF d] obtain ev1 where e1: "trace w1 = trace w @ ev1" "list_all staging_event ev1"
    "fs1 = added_ok ev1"
    "include_data \<longrightarrow> prefix (map str_of_path (glob_star w (raw_data paths) ''.csv'')) (attempted ev1)"
    "files_untouched e \<longrightarrow> fs w1 = fs w \<and>
              attempted ev1 =
                (if include_data
                 then map str_of_path (glob_star w (raw_data paths) ''.csv'') @
                      map str_of_path (glob_star_star w (processed_data paths) ''.csv'')
                 else [])" by blast
  show ?thesis
  proof (cases include_models)
    case False
    with m have "dvc_files = fs1" "w' = w1" by (simp_all add: returnE_def)
    with e1 False show ?thesis by (intro exI[of _ ev1]) simp
  next
    case True
    with m have "add_dirs e a ''.joblib'' (glob_star w1 (trained_models paths) []) fs1 w1 = (Inr dvc_files, w')"
      by simp
    from add_dirs_staging[OF this] obtain ev2 where e2: "trace w' = trace w1 @ ev2" "list_all staging_event ev2"
      "dvc_files = fs1 @ added_ok ev2"
      "files_untouched e \<longrightarrow> fs w' = fs w1 \<and>
            attempted ev2 =
              map str_of_path (concat (map (\<lambda>d. glob_star w1 d ''.joblib'')
                 (filter (is_dir w1) (glob_star w1 (trained_models paths) []))))"
      by blast
    have st: "concat (map (\<lambda>d. glob_star w1 d ''.joblib'') (filter (is_dir w1) (glob_star w1 (trained_models paths) [])))
        = glob_star_star w (trained_models paths) ''.joblib''" if "fs w1 = fs w"
      unfolding glob_star_star_def
      by (simp add: glob_star_fs[OF that] is_dir_fs[OF that] cong: filter_cong)
    from e1 e2 True st show ?thesis
      by (intro exI[of _ "ev1 @ ev2"]) (auto simp: prefix_def)
  qed
qed

lemma except_cpe_Inr_run:
  "except_cpe (bindE (subprocess_run e argv chk) (\<lambda>_. returnE v)) d w = (Inr b, w') \<Longrightarrow>
   trace w' = trace w @ [Run argv (fst (exec e argv w))]"
  by (auto simp: except_cpe_def bindE_def returnE_def split: prod.splits sum.splits if_splits
      dest: subprocess_run_trace)

lemma git_commit_events:
  assumes "git_commit e tag msg w = (Inr (), w')"
  shows "\<exists>r1 r2 r3. trace w' = trace w @
           [Run [''git'', ''add'', ''*.dvc'', ''.dvc/''] r1, Run [''git'', ''add'', ''.gitignore''] r2,
            Run [''git'', ''commit'', ''-m'', tag @ '': '' @ msg] r3]"
proof -
  let ?a1 = "[''git'', ''add'', ''*.dvc'', ''.dvc/'']" and ?a2 = "[''git'', ''add'', ''.gitignore'']"
  let ?a3 = "[''git'', ''commit'', ''-m'', tag @ '': '' @ msg]"
  obtain r1 w1 where s1: "subprocess_run e ?a1 False w = (r1, w1)" by (cases "subprocess_run e ?a1 False w")
  obtain r2 w2 where s2: "subprocess_run e ?a2 False w1 = (r2, w2)" by (cases "subprocess_run e ?a2 False w1")
  obtain r3 w3 where s3: "subprocess_run e ?a3 False w2 = (r3, w3)" by (cases "subprocess_run e ?a3 False w2")
  from assms s1 s2 s3 have "w' = w3"
    by (auto simp: git_commit_def except_cpe_def bindE_def returnE_def split: sum.splits if_splits
        dest: subprocess_run_unchecked)
  with subprocess_run_trace[OF s1] subprocess_run_trace[OF s2] subprocess_run_trace[OF s3]
  show ?thesis by simp
qed

lemma rev_parse_events:
  assumes "subprocess_run e argv True w = (Inr (rc, out), w')"
  shows "trace w' = trace w @ [Run argv (Completed 0 out)]"
  using assms
  by (auto simp: subprocess_run_def Let_def log_event_def split: prod.splits proc_result.splits if_splits)

lemma save_snapshot_metadata_events:
  assumes "save_snapshot_metadata e info w = (Inr (), w')"
    and "map_of info ''version'' = Some (VStr tag)"
  shows "(trace w' = trace w @ [Write (path_join [''.snapshots''] (tag @ ''.json''))] \<or>
          trace w' = trace w @ [Mkdir [''.snapshots''], Write (path_join [''.snapshots''] (tag @ ''.json''))]) \<and>
         map_of (fs w') (path_join [''.snapshots''] (tag @ ''.json'')) = Some (File (json_dumps e (VDict info)))"
proof -
  let ?mp = "path_join [''.snapshots''] (tag @ ''.json'')"
  from assms obtain w1 where m: "mkdir e [''.snapshots''] w = (Inr (), w1)"
    and wr: "write_file e ?mp (json_dumps e (VDict info)) w1 = (Inr (), w')"
    by (auto simp: save_snapshot_metadata_def subscript_def fmt_def dest!: bindE_Inr)
  from m have t1: "trace w1 = trace w \<or> trace w1 = trace w @ [Mkdir [''.snapshots'']]"
    by (auto simp: mkdir_def log_event_def split: option.splits node.splits if_splits)
  from wr have "trace w' = trace w1 @ [Write ?mp]" "map_of (fs w') ?mp = Some (File (json_dumps e (VDict info)))"
    by (auto simp: write_file_def log_event_def update_conv' split: option.splits node.splits if_splits)
  with t1 show ?thesis by auto
qed

lemma run_calls_quiet:
  "\<forall>n w. lib_raises e n w = None \<Longrightarrow>
   run_steps e a (map Call ns) w = (Inr (), w\<lparr>trace := trace w @ map Lib ns\<rparr>)"
  by (induction ns arbitrary: w) (simp_all add: lib_call_def log_event_def)

lemma demo_pipeline_run:
  "train_pipeline_main (demo_env all_ok demo_parse) False [''models'', ''v2'', ''model.joblib''] demo_project_world =
     (Inr (), demo_project_world\<lparr>trace := map Lib calls_before_add @
         [Run [''dvc'', ''add'', ''models/v2/model.joblib''] (Completed 0 [])] @ map Lib calls_after_add\<rparr>)"
proof -
  let ?E = "demo_env all_ok demo_parse"
  let ?mp = "[''models'', ''v2'', ''model.joblib'']"
  let ?w1 = "demo_project_world\<lparr>trace := map Lib calls_before_add\<rparr>"
  let ?w2 = "demo_project_world\<lparr>trace := map Lib calls_before_add @
       [Run [''dvc'', ''add'', ''models/v2/model.joblib''] (Completed 0 [])]\<rparr>"
  have q: "\<forall>n w. lib_raises ?E n w = None" by (simp add: demo_env_def)
  have s: "str_of_path ?mp = ''models/v2/model.joblib''" by code_simp
  have ok: "all_ok [''dvc'', ''add'', ''models/v2/model.joblib''] = Completed 0 []" by code_simp
  have d: "dvc_add ?E False ?mp ?w1 = (Inr True, ?w2)"
    unfolding dvc_add_def s
    by (simp add: except_cpe_def bindE_def returnE_def subprocess_run_def demo_env_def ok log_event_def)
  have t0: "trace demo_project_world = []" by (simp add: demo_project_world_def)
  show ?thesis
    unfolding train_pipeline_main_def pipeline_steps_split run_steps_append
    by (simp add: run_calls_quiet[OF q] d bindE_def returnE_def t0)
qed

section \<open>C1: the strategy order of data-corruption recovery\<close>



section \<open>C2: model-degradation and pipeline-failure recovery\<close>

text \<open>
  Claim C2 says that all three incident types are recovered by the same three-tier chain,
  ending in a global snapshot restore. It fails for \<open>model_degradation\<close> and
  \<open>pipeline_failure\<close>. In the world below two snapshots exist, the backup is missing and
  \<open>dvc checkout\<close> of the model's \<open>.dvc\<close> file exits with status 1: recovery of the
  model-degradation incident ends \<open>failed\<close> after that one command, without listing or
  restoring any snapshot.
\<close>

theorem model_and_pipeline_recovery_counterexample:
  "recover_from_incident (demo_env dvc_down demo_parse) (demo_incident ''model_degradation'') None demo_dvc_world =
     ([(''incident'', VDict (demo_incident ''model_degradation'')),
       (''start_time'', VStr ''2024-01-01T00:00:00''), (''status'', VStr ''failed''),
       (''actions_taken'', VList []), (''error'', VStr ''All recovery strategies failed''),
       (''end_time'', VStr ''2024-01-01T00:00:00'')],
      demo_dvc_world\<lparr>trace := [Run [''dvc'', ''checkout'', ''data/x.csv.dvc''] (Completed 1 [])], ticks := 2\<rparr>)
   \<and> fst (list_snapshots (demo_env dvc_down demo_parse) demo_dvc_world)
       = Inr [snapshot_doc ''v10'' ''2024-02-01'', snapshot_doc ''v9'' ''2024-01-01'']"
  by code_simp

text \<open>
  Claim C2, amended. Only \<open>data_corruption\<close> recovery is the three-tier chain. Recovery
  from a \<open>model_degradation\<close> or \<open>pipeline_failure\<close> incident has effects on single files
  only (copies, directory creations, removals and \<open>dvc checkout\<close> of one \<open>.dvc\<close> file): it
  never lists or restores snapshots.

  For \<open>model_degradation\<close> (with a string \<open>affected_file\<close> and \<open>backup_path\<close>): when the
  backup path exists, the parent directories of the affected file are created and the backup
  is copied over it; if both succeed the result is \<open>success\<close> with
  \<open>[restored_from_backup]\<close>, and if one of them raises the result is \<open>failed\<close> with that
  exception as \<open>error\<close> and no action. Without a backup, \<open>dvc checkout <affected_file>.dvc\<close>
  is run only if that \<open>.dvc\<close> file exists: exit status 0 gives \<open>success\<close> with
  \<open>[restored_from_dvc]\<close>, another exit status gives \<open>failed\<close> with
  \<open>All recovery strategies failed\<close>, and a command that cannot be started gives \<open>failed\<close>
  with the operating system's message as \<open>error\<close>. Without backup and \<open>.dvc\<close> file nothing is
  done and the result is \<open>failed\<close> with \<open>All recovery strategies failed\<close>.

  For \<open>pipeline_failure\<close> (with a string \<open>marker_file\<close>, or none: the default \<open>''\<close> is the
  path \<open>.\<close>): when the marker path is not a directory, the marker is removed if it exists and
  the result is \<open>success\<close> with \<open>[cleared_failure_markers]\<close> and the note
  \<open>Pipeline can be restarted\<close>; when the marker path is a directory, \<open>unlink\<close> raises,
  nothing is removed and the result is \<open>failed\<close> with that exception as \<open>error\<close>.
\<close>

theorem model_and_pipeline_recovery_without_snapshots:
  assumes run: "recover_from_incident e incident tv w = (r, w')"
    and ty: "dict_get incident ''type'' VNone = VStr ''model_degradation'' \<or>
             dict_get incident ''type'' VNone = VStr ''pipeline_failure''"
    and w0: "w0 = w\<lparr>ticks := Suc (ticks w)\<rparr>"
    and tgt: "target = str_of_path (path_of_str af) @ ''.dvc''"
  shows
   "file_level_only w w'
    \<and> (dict_get incident ''type'' VNone = VStr ''model_degradation'' \<and>
        map_of incident ''affected_file'' = Some (VStr af) \<and>
        path_of_val (dict_get incident ''backup_path'' (VStr [])) = Inr backup \<longrightarrow>
          (path_exists w backup \<and>
           bindE (mkdir_parents e (path_parent (path_of_str af)))
             (\<lambda>_. shutil_copy2 e backup (path_of_str af)) w0 = (Inr (), wa) \<longrightarrow>
             fs w' = fs wa \<and> trace w' = trace wa \<and>
             map_of r ''status'' = Some (VStr ''success'') \<and>
             map_of r ''actions_taken'' = Some (VList [VStr ''restored_from_backup'']))
        \<and> (path_exists w backup \<and>
           bindE (mkdir_parents e (path_parent (path_of_str af)))
             (\<lambda>_. shutil_copy2 e backup (path_of_str af)) w0 = (Inl x, wa) \<longrightarrow>
             fs w' = fs wa \<and> trace w' = trace wa \<and>
             map_of r ''status'' = Some (VStr ''failed'') \<and>
             map_of r ''error'' = Some (VStr (exn_str x)) \<and>
             map_of r ''actions_taken'' = Some (VList []))
        \<and> (\<not> path_exists w backup \<and> path_exists w (path_of_str target) \<longrightarrow>
             trace w' = trace w @ [Run [''dvc'', ''checkout'', target]
                                     (fst (exec e [''dvc'', ''checkout'', target] w0))] \<and>
             (case fst (exec e [''dvc'', ''checkout'', target] w0) of
                Completed rc out \<Rightarrow>
                  if rc = 0
                  then map_of r ''status'' = Some (VStr ''success'') \<and>
                       map_of r ''actions_taken'' = Some (VList [VStr ''restored_from_dvc''])
                  else map_of r ''status'' = Some (VStr ''failed'') \<and>
                       map_of r ''error'' = Some (VStr ''All recovery strategies failed'') \<and>
                       map_of r ''actions_taken'' = Some (VList [])
              | SpawnFailed m \<Rightarrow>
                  map_of r ''status'' = Some (VStr ''failed'') \<and>
                  map_of r ''error'' = Some (VStr m) \<and>
                  map_of r ''actions_taken'' = Some (VList [])))
        \<and> (\<not> path_exists w backup \<and> \<not> path_exists w (path_of_str target) \<longrightarrow>
             trace w' = trace w \<and> fs w' = fs w \<and>
             map_of r ''status'' = Some (VStr ''failed'') \<and>
             map_of r ''error'' = Some (VStr ''All recovery strategies failed'') \<and>
             map_of r ''actions_taken'' = Some (VList [])))
    \<and> (dict_get incident ''type'' VNone = VStr ''pipeline_failure'' \<and>
        path_of_val (dict_get incident ''marker_file'' (VStr [])) = Inr marker \<and>
        map_of (fs w) marker \<noteq> Some Dir \<longrightarrow>
          trace w' = trace w @ (if path_exists w marker then [Unlink marker] else []) \<and>
          \<not> path_exists w' marker \<and>
          map_of r ''status'' = Some (VStr ''success'') \<and>
          map_of r ''actions_taken'' = Some (VList [VStr ''cleared_failure_markers'']) \<and>
          map_of r ''note'' = Some (VStr ''Pipeline can be restarted''))
    \<and> (dict_get incident ''type'' VNone = VStr ''pipeline_failure'' \<and>
        path_of_val (dict_get incident ''marker_file'' (VStr [])) = Inr marker \<and>
        map_of (fs w) marker = Some Dir \<longrightarrow>
          trace w' = trace w \<and> fs w' = fs w \<and>
          map_of r ''status'' = Some (VStr ''failed'') \<and>
          map_of r ''error'' = Some (VStr (exn_str (os_error e EISDIR marker))) \<and>
          map_of r ''actions_taken'' = Some (VList []))"
proof -
  let ?rr = "result0 incident (now_iso e (ticks w))"
  obtain out w1 where d: "dispatch e incident ?rr w0 = (out, w1)" by (cases "dispatch e incident ?rr w0")
  from run have fin: "finish e (out, w1) = (r, w')" by (simp add: rfi_finish d[unfolded w0])
  have ex: "path_exists w0 p = path_exists w p" for p by (simp add: w0 path_exists_def)
  have fl: "file_level_only w0 w1"
    using ty d
    by (auto simp: dispatch_def Let_def
        dest: recover_model_degradation_file_level recover_pipeline_failure_file_level)
  then have 1: "file_level_only w w'"
    using finish_file_level[OF fin, of w] by (simp add: w0)
  have M: "dispatch e incident ?rr w0 =
      (if path_exists w backup then
            (case bindE (mkdir_parents e (path_parent (path_of_str af)))
                    (\<lambda>_. shutil_copy2 e backup (path_of_str af)) w0 of
               (Inl x, w1) \<Rightarrow> ((Some x, ?rr), w1)
             | (Inr u, w1) \<Rightarrow> mark_success ?rr ''restored_from_backup'' w1)
          else
             if path_exists w (path_of_str target) then
               (case dvc_checkout e target w0 of
                  (Inl x, w1) \<Rightarrow> ((Some x, ?rr), w1)
                | (Inr True, w1) \<Rightarrow> mark_success ?rr ''restored_from_dvc'' w1
                | (Inr False, w1) \<Rightarrow> all_failed ?rr w1)
             else all_failed ?rr w0)"
    if "dict_get incident ''type'' VNone = VStr ''model_degradation''"
      "map_of incident ''affected_file'' = Some (VStr af)"
      "path_of_val (dict_get incident ''backup_path'' (VStr [])) = Inr backup"
    using that
    by (simp add: dispatch_def recover_model_degradation_def subscript_def path_of_val_def ex tgt Let_def)
  have 2: "fs w' = fs wa \<and> trace w' = trace wa \<and>
             map_of r ''status'' = Some (VStr ''success'') \<and>
             map_of r ''actions_taken'' = Some (VList [VStr ''restored_from_backup''])"
    if "dict_get incident ''type'' VNone = VStr ''model_degradation''"
      "map_of incident ''affected_file'' = Some (VStr af)"
      "path_of_val (dict_get incident ''backup_path'' (VStr [])) = Inr backup"
      "path_exists w backup"
      "bindE (mkdir_parents e (path_parent (path_of_str af)))
             (\<lambda>_. shutil_copy2 e backup (path_of_str af)) w0 = (Inr (), wa)"
  proof -
    from M[OF that(1-3)] that(4,5) d fin
    have "finish e ((None, [(''incident'', VDict incident),
             (''start_time'', VStr (now_iso e (ticks w))),
             (''status'', VStr ''success''),
             (''actions_taken'', VList [VStr ''restored_from_backup''])]), wa) = (r, w')"
      by (simp add: mark_success_result0)
    from finish_fields[OF this] show ?thesis by simp
  qed
  have cf: "fs w' = fs wa \<and> trace w' = trace wa \<and>
             map_of r ''status'' = Some (VStr ''failed'') \<and>
             map_of r ''error'' = Some (VStr (exn_str x)) \<and>
             map_of r ''actions_taken'' = Some (VList [])"
    if "dict_get incident ''type'' VNone = VStr ''model_degradation''"
      "map_of incident ''affected_file'' = Some (VStr af)"
      "path_of_val (dict_get incident ''backup_path'' (VStr [])) = Inr backup"
      "path_exists w backup"
      "bindE (mkdir_parents e (path_parent (path_of_str af)))
             (\<lambda>_. shutil_copy2 e backup (path_of_str af)) w0 = (Inl x, wa)"
  proof -
    from M[OF that(1-3)] that(4,5) d fin
    have "finish e ((Some x, ?rr), wa) = (r, w')" by simp
    from finish_fields[OF this] show ?thesis by (simp add: result0_def)
  qed
  have 3: "trace w' = trace w @ [Run [''dvc'', ''checkout'', target]
                                     (fst (exec e [''dvc'', ''checkout'', target] w0))] \<and>
             (case fst (exec e [''dvc'', ''checkout'', target] w0) of
                Completed rc out \<Rightarrow>
                  if rc = 0
                  then map_of r ''status'' = Some (VStr ''success'') \<and>
                       map_of r ''actions_taken'' = Some (VList [VStr ''restored_from_dvc''])
                  else map_of r ''status'' = Some (VStr ''failed'') \<and>
                       map_of r ''error'' = Some (VStr ''All recovery strategies failed'') \<and>
                       map_of r ''actions_taken'' = Some (VList [])
              | SpawnFailed m \<Rightarrow>
                  map_of r ''status'' = Some (VStr ''failed'') \<and>
                  map_of r ''error'' = Some (VStr m) \<and>
                  map_of r ''actions_taken'' = Some (VList []))"
    if "dict_get incident ''type'' VNone = VStr ''model_degradation''"
      "map_of incident ''affected_file'' = Some (VStr af)"
      "path_of_val (dict_get incident ''backup_path'' (VStr [])) = Inr backup"
      "\<not> path_exists w backup" "path_exists w (path_of_str target)"
  proof -
    obtain res wb where c: "dvc_checkout e target w0 = (res, wb)" by force
    note cc = dvc_checkout_cases[OF c]
    have tw: "trace wb = trace w @ [Run [''dvc'', ''checkout'', target]
                                     (fst (exec e [''dvc'', ''checkout'', target] w0))]"
      using cc by (simp add: w0)
    have dd: "(out, w1) = (case res of Inl x \<Rightarrow> ((Some x, ?rr), wb)
                | Inr True \<Rightarrow> mark_success ?rr ''restored_from_dvc'' wb
                | Inr False \<Rightarrow> all_failed ?rr wb)"
      using M[OF that(1-3)] that(4,5) d c by (simp split: sum.splits bool.splits)
    show ?thesis
    proof (cases "fst (exec e [''dvc'', ''checkout'', target] w0)")
      case (Completed rc out')
      with cc have res: "res = Inr (rc = 0)" by simp
      show ?thesis
      proof (cases "rc = 0")
        case True
        with dd res fin have "finish e (mark_success ?rr ''restored_from_dvc'' wb) = (r, w')" by simp
        from finish_fields[OF this[unfolded mark_success_result0]] tw Completed True
        show ?thesis by simp
      next
        case False
        with dd res fin have "finish e (all_failed ?rr wb) = (r, w')" by simp
        from finish_fields[OF this[unfolded all_failed_result0]] tw Completed False
        show ?thesis by simp
      qed
    next
      case (SpawnFailed m)
      with cc have res: "res = Inl (Exn OSError m)" by simp
      with dd fin have "finish e ((Some (Exn OSError m), ?rr), wb) = (r, w')" by simp
      from finish_fields[OF this] tw SpawnFailed show ?thesis by (simp add: result0_def)
    qed
  qed
  have 4: "trace w' = trace w \<and> fs w' = fs w \<and>
             map_of r ''status'' = Some (VStr ''failed'') \<and>
             map_of r ''error'' = Some (VStr ''All recovery strategies failed'') \<and>
             map_of r ''actions_taken'' = Some (VList [])"
    if "dict_get incident ''type'' VNone = VStr ''model_degradation''"
      "map_of incident ''affected_file'' = Some (VStr af)"
      "path_of_val (dict_get incident ''backup_path'' (VStr [])) = Inr backup"
      "\<not> path_exists w backup" "\<not> path_exists w (path_of_str target)"
  proof -
    from M[OF that(1-3)] that(4,5) d fin have "finish e (all_failed ?rr w0) = (r, w')" by simp
    from finish_fields[OF this[unfolded all_failed_result0]] show ?thesis by (simp add: w0)
  qed
  have 5: "trace w' = trace w @ (if path_exists w marker then [Unlink marker] else []) \<and>
          \<not> path_exists w' marker \<and>
          map_of r ''status'' = Some (VStr ''success'') \<and>
          map_of r ''actions_taken'' = Some (VList [VStr ''cleared_failure_markers'']) \<and>
          map_of r ''note'' = Some (VStr ''Pipeline can be restarted'')"
    if "dict_get incident ''type'' VNone = VStr ''pipeline_failure''"
      "path_of_val (dict_get incident ''marker_file'' (VStr [])) = Inr marker"
      "map_of (fs w) marker \<noteq> Some Dir"
  proof -
    let ?w2 = "if path_exists w marker
               then log_event (Unlink marker) (w0\<lparr>fs := AList.delete marker (fs w0)\<rparr>) else w0"
    have "dispatch e incident ?rr w0 =
       ((None, [(''incident'', VDict incident), (''start_time'', VStr (now_iso e (ticks w))),
             (''status'', VStr ''success''),
             (''actions_taken'', VList [VStr ''cleared_failure_markers'']),
             (''note'', VStr ''Pipeline can be restarted'')]), ?w2)"
      using that
      by (cases "map_of (fs w) marker")
         (auto simp: dispatch_def recover_pipeline_failure_def ex unlink_def path_exists_def w0
            append_action_def result0_def split: node.splits)
    with d fin have "finish e ((None, [(''incident'', VDict incident), (''start_time'', VStr (now_iso e (ticks w))),
             (''status'', VStr ''success''),
             (''actions_taken'', VList [VStr ''cleared_failure_markers'']),
             (''note'', VStr ''Pipeline can be restarted'')]), ?w2) = (r, w')" by simp
    from finish_fields[OF this] this show ?thesis
      by (auto simp: log_event_def w0 path_exists_def finish_def)
  qed
  have 6: "trace w' = trace w \<and> fs w' = fs w \<and>
          map_of r ''status'' = Some (VStr ''failed'') \<and>
          map_of r ''error'' = Some (VStr (exn_str (os_error e EISDIR marker))) \<and>
          map_of r ''actions_taken'' = Some (VList [])"
    if "dict_get incident ''type'' VNone = VStr ''pipeline_failure''"
      "path_of_val (dict_get incident ''marker_file'' (VStr [])) = Inr marker"
      "map_of (fs w) marker = Some Dir"
  proof -
    have "dispatch e incident ?rr w0 = ((Some (os_error e EISDIR marker), ?rr), w0)"
      using that
      by (simp add: dispatch_def recover_pipeline_failure_def ex unlink_def path_exists_def w0)
    with d fin have "finish e ((Some (os_error e EISDIR marker), ?rr), w0) = (r, w')" by simp
    from finish_fields[OF this] show ?thesis by (simp add: result0_def w0)
  qed
  from 1 2 cf 3 4 5 6 show ?thesis by blast
qed

theorem model_and_pipeline_recovery_without_snapshots_witness:
  "trace (snd (recover_from_incident (demo_env dvc_down demo_parse) (demo_incident ''model_degradation'') None demo_dvc_world))
     = [Run [''dvc'', ''checkout'', ''data/x.csv.dvc''] (Completed 1 [])] \<and>
   map_of (fst (recover_from_incident (demo_env dvc_down demo_parse) (demo_incident ''model_degradation'') None demo_dvc_world)) ''error''
     = Some (VStr ''All recovery strategies failed'') \<and>
   map_of (fst (recover_from_incident (demo_env dvc_down demo_parse) marker_incident None demo_dvc_world)) ''status''
     = Some (VStr ''success'') \<and>
   trace (snd (recover_from_incident (demo_env dvc_down demo_parse) marker_incident None demo_dvc_world))
     = [Unlink [''.incident_markers'', ''pipeline_failure_test.marker'']] \<and>
   map_of (fst (recover_from_incident (demo_env dvc_down demo_parse) [(''type'', VStr ''pipeline_failure'')] None demo_dvc_world)) ''status''
     = Some (VStr ''failed'') \<and>
   trace (snd (recover_from_incident (demo_env dvc_down demo_parse) [(''type'', VStr ''pipeline_failure'')] None demo_dvc_world)) = []"
proof -
  let ?E = "demo_env dvc_down demo_parse" and ?I = "demo_incident ''model_degradation''"
  let ?A = "recover_from_incident ?E ?I None demo_dvc_world"
  let ?B = "recover_from_incident ?E marker_incident None demo_dvc_world"
  let ?J = "[(''type'', VStr ''pipeline_failure'')]"
  let ?C = "recover_from_incident ?E ?J None demo_dvc_world"
  let ?bp = "[''data'', ''x.csv.backup'']"
  let ?m = "[''.incident_markers'', ''pipeline_failure_test.marker'']"
  have A: "?A = (fst ?A, snd ?A)" and B: "?B = (fst ?B, snd ?B)" and C: "?C = (fst ?C, snd ?C)" by simp_all
  have tyA: "dict_get ?I ''type'' VNone = VStr ''model_degradation'' \<or> dict_get ?I ''type'' VNone = VStr ''pipeline_failure''"
    by code_simp
  have tyB: "dict_get marker_incident ''type'' VNone = VStr ''model_degradation'' \<or> dict_get marker_incident ''type'' VNone = VStr ''pipeline_failure''"
    by code_simp
  have premA: "dict_get ?I ''type'' VNone = VStr ''model_degradation'' \<and>
        map_of ?I ''affected_file'' = Some (VStr ''data/x.csv'') \<and>
        path_of_val (dict_get ?I ''backup_path'' (VStr [])) = Inr ?bp"
    by code_simp
  have premA2: "\<not> path_exists demo_dvc_world ?bp \<and> path_exists demo_dvc_world (path_of_str (str_of_path (path_of_str ''data/x.csv'') @ ''.dvc''))"
    by code_simp
  have t: "str_of_path (path_of_str ''data/x.csv'') @ ''.dvc'' = ''data/x.csv.dvc''" by code_simp
  have exA: "fst (exec ?E [''dvc'', ''checkout'', ''data/x.csv.dvc''] (demo_dvc_world\<lparr>ticks := Suc (ticks demo_dvc_world)\<rparr>)) = Completed 1 []"
    by code_simp
  have tr: "trace demo_dvc_world = []" by (simp add: demo_dvc_world_def)
  have premB: "dict_get marker_incident ''type'' VNone = VStr ''pipeline_failure'' \<and>
        path_of_val (dict_get marker_incident ''marker_file'' (VStr [])) = Inr ?m \<and>
        map_of (fs demo_dvc_world) ?m \<noteq> Some Dir"
    by code_simp
  have exB: "path_exists demo_dvc_world ?m" by code_simp
  from model_and_pipeline_recovery_without_snapshots[OF A tyA refl refl, where af = "''data/x.csv''" and backup = ?bp,
      THEN conjunct2, THEN conjunct1, THEN mp, OF premA, THEN conjunct2, THEN conjunct2, THEN conjunct1, THEN mp, OF premA2]
  have 1: "trace (snd ?A) = [Run [''dvc'', ''checkout'', ''data/x.csv.dvc''] (Completed 1 [])]"
     "map_of (fst ?A) ''error'' = Some (VStr ''All recovery strategies failed'')"
    unfolding t exA tr by simp_all
  from model_and_pipeline_recovery_without_snapshots[OF B tyB refl refl, where marker = ?m,
      THEN conjunct2, THEN conjunct2, THEN conjunct1, THEN mp, OF premB] exB
  have 2: "map_of (fst ?B) ''status'' = Some (VStr ''success'')" "trace (snd ?B) = [Unlink ?m]"
    unfolding tr by simp_all
  have tyC: "dict_get ?J ''type'' VNone = VStr ''model_degradation'' \<or> dict_get ?J ''type'' VNone = VStr ''pipeline_failure''"
    by code_simp
  have premC: "dict_get ?J ''type'' VNone = VStr ''pipeline_failure'' \<and>
        path_of_val (dict_get ?J ''marker_file'' (VStr [])) = Inr [] \<and>
        map_of (fs demo_dvc_world) [] = Some Dir"
    by code_simp
  from model_and_pipeline_recovery_without_snapshots[OF C tyC refl refl, where marker = "[]",
      THEN conjunct2, THEN conjunct2, THEN conjunct2, THEN mp, OF premC]
  have 3: "map_of (fst ?C) ''status'' = Some (VStr ''failed'')" "trace (snd ?C) = []"
    unfolding tr by simp_all
  from 1 2 3 show ?thesis by blast
qed

section \<open>C3: the snapshot tier of data-corruption recovery\<close>

text \<open>
  Claim C3 says that the third strategy restores the system state captured in the snapshot:
  code, data and models. In the world below the backup is missing, \<open>dvc checkout\<close> of the
  file's \<open>.dvc\<close> file exits with status 1 and there is one snapshot, \<open>v9\<close>. Recovery
  succeeds with \<open>restored_version = v9\<close>, and the commands it ran after the listing are
  \<open>dvc pull\<close> and \<open>dvc checkout .\<close> only: there is no \<open>git checkout v9\<close>, the code is not
  restored.
\<close>

theorem snapshot_tier_counterexample:
  "recover_from_incident (demo_env (file_checkout_fails (''v9'' @ [CHR 0x0A])) demo_parse)
       (demo_incident ''data_corruption'') None demo_single_world =
     ([(''incident'', VDict (demo_incident ''data_corruption'')),
       (''start_time'', VStr ''2024-01-01T00:00:00''), (''status'', VStr ''success''),
       (''actions_taken'', VList [VStr ''full_data_restore'']),
       (''restored_version'', VStr ''v9''),
       (''end_time'', VStr ''2024-01-01T00:00:00'')],
      demo_single_world\<lparr>trace :=
        [Run [''dvc'', ''checkout'', ''data/x.csv.dvc''] (Completed 1 []),
         Run [''git'', ''tag'', ''-l''] (Completed 0 (''v9'' @ [CHR 0x0A])),
         Run [''dvc'', ''pull''] (Completed 0 []),
         Run [''dvc'', ''checkout'', ''.''] (Completed 0 [])], ticks := 2\<rparr>)"
  by code_simp

text \<open>
  Claim C3, amended. When the first two strategies fail and \<open>list_snapshots\<close> returns at
  least one snapshot, recovery calls \<open>restore_snapshot\<close> once, for a snapshot of that list,
  with \<open>restore_data=True, restore_models=False, restore_code=False\<close>. The code is not
  restored: the commands of a successful recovery are exactly \<open>dvc checkout <file>.dvc\<close>,
  \<open>git tag -l\<close>, \<open>dvc pull\<close> and \<open>dvc checkout .\<close>, with no \<open>git checkout\<close>. The restore
  itself is \<open>dvc pull\<close> followed by \<open>dvc checkout .\<close> on the working tree as it is: it is
  the same with \<open>restore_models=True\<close> (data and models are brought back alike), and the
  same for every version whose restore succeeds, the version tag being used only to look up
  the snapshot's metadata. The result then has status \<open>success\<close>, the action
  \<open>full_data_restore\<close>, and the version of the chosen snapshot as \<open>restored_version\<close>.
\<close>

theorem snapshot_tier_restores_dvc_artifacts_not_code:
  assumes ty: "map_of incident ''type'' = Some (VStr ''data_corruption'')"
    and af: "map_of incident ''affected_file'' = Some (VStr af)"
    and bp: "path_of_val (dict_get incident ''backup_path'' (VStr [])) = Inr backup"
    and run: "recover_from_incident e incident tv w = (r, w')"
    and nb: "\<not> path_exists w backup"
    and co: "dvc_checkout e (str_of_path (path_of_str af) @ ''.dvc'') (snd (datetime_now e w)) = (Inr False, wb)"
    and ls: "list_snapshots e wb = (Inr snaps, wc)"
    and ne: "snaps \<noteq> []"
    and ve: "subscript (last snaps) ''version'' = Inr v"
    and rs: "restore_snapshot e v True False False wc = (True, wd)"
  shows "(\<exists>s \<in> set snaps. subscript s ''version'' = Inr v) \<and>
         map_of r ''status'' = Some (VStr ''success'') \<and>
         map_of r ''restored_version'' = Some v \<and>
         map_of r ''actions_taken'' = Some (VList [VStr ''full_data_restore'']) \<and>
         (\<exists>r0 r1 r2 r3. trace w' = trace w @
             [Run [''dvc'', ''checkout'', str_of_path (path_of_str af) @ ''.dvc''] r0,
              Run [''git'', ''tag'', ''-l''] r1,
              Run [''dvc'', ''pull''] r2,
              Run [''dvc'', ''checkout'', ''.''] r3]) \<and>
         restore_snapshot e v True True False wc = (True, wd) \<and>
         (\<forall>v'. fst (restore_snapshot e v' True False False wc) \<longrightarrow>
               restore_snapshot e v' True False False wc = (True, wd))"
proof -
  note c1 = data_corruption_cases[OF ty af bp run refl refl,
      where wb = wb and wc = wc and snaps = snaps and v = v and b = True and wd = wd,
      THEN conjunct2, THEN conjunct2, THEN conjunct2, THEN mp, OF conjI[OF nb conjI[OF co conjI[OF ls conjI[OF ne conjI[OF ve rs]]]]]]
  note l = list_snapshots_listing[OF ls]
  from ne ve have 0: "\<exists>s \<in> set snaps. subscript s ''version'' = Inr v"
    using last_in_set by blast
  from restore_data_only_events[OF rs] obtain r2 r3 where
    t3: "trace wd = trace wc @ [Run [''dvc'', ''pull''] r2, Run [''dvc'', ''checkout'', ''.''] r3]" by blast
  from dvc_checkout_cases[OF co] have
    t1: "trace wb = trace w @ [Run [''dvc'', ''checkout'', str_of_path (path_of_str af) @ ''.dvc'']
           (fst (exec e [''dvc'', ''checkout'', str_of_path (path_of_str af) @ ''.dvc''] (snd (datetime_now e w))))]"
    by simp
  from c1 l t1 t3 have 1: "\<exists>r0 r1 r2 r3. trace w' = trace w @
             [Run [''dvc'', ''checkout'', str_of_path (path_of_str af) @ ''.dvc''] r0,
              Run [''git'', ''tag'', ''-l''] r1,
              Run [''dvc'', ''pull''] r2,
              Run [''dvc'', ''checkout'', ''.''] r3]"
    by simp
  have 2: "restore_snapshot e v True True False wc = (True, wd)"
    using rs restore_models_flag[of e v False False wc True] by simp
  have 3: "restore_snapshot e v' True False False wc = (True, wd)"
    if "fst (restore_snapshot e v' True False False wc)" for v'
  proof -
    from that have "restore_snapshot e v' True False False wc = (True, snd (restore_snapshot e v' True False False wc))"
      by (metis prod.collapse)
    from this restore_version_irrelevant[OF rs this] show ?thesis by simp
  qed
  from c1 0 1 2 3 show ?thesis by simp
qed

theorem snapshot_tier_restores_dvc_artifacts_not_code_witness:
  "map_of (fst (recover_from_incident (demo_env (file_checkout_fails (''v10'' @ [CHR 0x0A] @ ''v9'' @ [CHR 0x0A])) demo_parse)
        (demo_incident ''data_corruption'') None demo_world))
      ''restored_version'' = Some (VStr ''v9'') \<and>
   (\<exists>r0 r1 r2 r3. trace (snd (recover_from_incident (demo_env (file_checkout_fails (''v10'' @ [CHR 0x0A] @ ''v9'' @ [CHR 0x0A])) demo_parse)
        (demo_incident ''data_corruption'') None demo_world)) =
       [Run [''dvc'', ''checkout'', ''data/x.csv.dvc''] r0, Run [''git'', ''tag'', ''-l''] r1,
        Run [''dvc'', ''pull''] r2, Run [''dvc'', ''checkout'', ''.''] r3]) \<and>
   restore_snapshot (demo_env (file_checkout_fails (''v10'' @ [CHR 0x0A] @ ''v9'' @ [CHR 0x0A])) demo_parse) (VStr ''v10'') True False False
      (demo_world\<lparr>trace := [Run [''dvc'', ''checkout'', ''data/x.csv.dvc''] (Completed 1 []),
                              Run [''git'', ''tag'', ''-l''] (Completed 0 (''v10'' @ [CHR 0x0A] @ ''v9'' @ [CHR 0x0A]))], ticks := 1\<rparr>)
    = restore_snapshot (demo_env (file_checkout_fails (''v10'' @ [CHR 0x0A] @ ''v9'' @ [CHR 0x0A])) demo_parse) (VStr ''v9'') True True False
      (demo_world\<lparr>trace := [Run [''dvc'', ''checkout'', ''data/x.csv.dvc''] (Completed 1 []),
                              Run [''git'', ''tag'', ''-l''] (Completed 0 (''v10'' @ [CHR 0x0A] @ ''v9'' @ [CHR 0x0A]))], ticks := 1\<rparr>)"
proof -
  let ?E = "demo_env (file_checkout_fails (''v10'' @ [CHR 0x0A] @ ''v9'' @ [CHR 0x0A])) demo_parse"
  let ?I = "demo_incident ''data_corruption''"
  let ?B = "recover_from_incident ?E ?I None demo_world"
  let ?bp = "[''data'', ''x.csv.backup'']"
  let ?git = "Run [''git'', ''tag'', ''-l''] (Completed 0 (''v10'' @ [CHR 0x0A] @ ''v9'' @ [CHR 0x0A]))"
  let ?dvc = "Run [''dvc'', ''checkout'', ''data/x.csv.dvc''] (Completed 1 [])"
  let ?wb = "demo_world\<lparr>trace := [?dvc], ticks := 1\<rparr>"
  let ?wc = "demo_world\<lparr>trace := [?dvc, ?git], ticks := 1\<rparr>"
  let ?wd = "demo_world\<lparr>trace := [?dvc, ?git, Run [''dvc'', ''pull''] (Completed 0 []),
                                        Run [''dvc'', ''checkout'', ''.''] (Completed 0 [])], ticks := 1\<rparr>"
  let ?snaps = "[snapshot_doc ''v10'' ''2024-02-01'', snapshot_doc ''v9'' ''2024-01-01'']"
  have ty: "map_of ?I ''type'' = Some (VStr ''data_corruption'')" by code_simp
  have af: "map_of ?I ''affected_file'' = Some (VStr ''data/x.csv'')" by code_simp
  have bp: "path_of_val (dict_get ?I ''backup_path'' (VStr [])) = Inr ?bp" by code_simp
  have exB: "\<not> path_exists demo_world ?bp" by code_simp
  have coB: "dvc_checkout ?E (str_of_path (path_of_str ''data/x.csv'') @ ''.dvc'') (snd (datetime_now ?E demo_world))
      = (Inr False, ?wb)"
    by code_simp
  have lsB: "list_snapshots ?E ?wb = (Inr ?snaps, ?wc)" by code_simp
  have neB: "?snaps \<noteq> []" by simp
  have veB: "subscript (last ?snaps) ''version'' = Inr (VStr ''v9'')" by code_simp
  have rsB: "restore_snapshot ?E (VStr ''v9'') True False False ?wc = (True, ?wd)" by code_simp
  have t: "str_of_path (path_of_str ''data/x.csv'') @ ''.dvc'' = ''data/x.csv.dvc''" by code_simp
  have tr: "trace demo_world = []" by (simp add: demo_world_def)
  have B: "?B = (fst ?B, snd ?B)" by simp
  have v10: "fst (restore_snapshot ?E (VStr ''v10'') True False False ?wc)" by code_simp
  note T = snapshot_tier_restores_dvc_artifacts_not_code[OF ty af bp B exB coB lsB neB veB rsB]
  from T have 1: "map_of (fst ?B) ''restored_version'' = Some (VStr ''v9'')" by (elim conjE)
  from T have 2: "\<exists>r0 r1 r2 r3. trace (snd ?B) = trace demo_world @
       [Run [''dvc'', ''checkout'', str_of_path (path_of_str ''data/x.csv'') @ ''.dvc''] r0, Run [''git'', ''tag'', ''-l''] r1,
        Run [''dvc'', ''pull''] r2, Run [''dvc'', ''checkout'', ''.''] r3]" by (elim conjE)
  from T have 3: "restore_snapshot ?E (VStr ''v9'') True True False ?wc = (True, ?wd)" by (elim conjE)
  from T have "\<forall>v'. fst (restore_snapshot ?E v' True False False ?wc) \<longrightarrow>
               restore_snapshot ?E v' True False False ?wc = (True, ?wd)" by (elim conjE)
  from this[THEN spec, of "VStr ''v10''", THEN mp, OF v10]
  have 4: "restore_snapshot ?E (VStr ''v10'') True False False ?wc = (True, ?wd)" .
  from 2 have tr2: "\<exists>r0 r1 r2 r3. trace (snd ?B) =
       [Run [''dvc'', ''checkout'', ''data/x.csv.dvc''] r0, Run [''git'', ''tag'', ''-l''] r1,
        Run [''dvc'', ''pull''] r2, Run [''dvc'', ''checkout'', ''.''] r3]"
    unfolding t tr by simp
  show ?thesis
    apply (intro conjI)
      apply (rule 1)
     apply (rule tr2)
    apply (simp only: 3 4)
    done
qed

section \<open>C4: recovery always returns a result\<close>

text \<open>
  Claim C4. \<open>recover_from_incident\<close> has a result for every incident dictionary (it is a
  total function into results: every exception of the dispatch is caught). The result
  records the incident, the \<open>start_time\<close>, an \<open>end_time\<close>, a string \<open>status\<close> and the list
  \<open>actions_taken\<close>. If the dispatch raised \<open>x\<close>, the status is \<open>failed\<close> and \<open>error\<close> is
  \<open>str(x)\<close>. If the type is none of the three handled ones, the status is
  \<open>unknown_incident_type\<close>, \<open>actions_taken\<close> is empty and nothing was done.
\<close>

theorem recover_always_returns_result:
  assumes run: "recover_from_incident e incident tv w = (r, w')"
  shows "map_of r ''incident'' = Some (VDict incident) \<and>
         map_of r ''start_time'' = Some (VStr (now_iso e (ticks w))) \<and>
         map_of r ''end_time'' = Some (VStr (now_iso e (ticks w' - 1))) \<and>
         (\<exists>s. map_of r ''status'' = Some (VStr s)) \<and>
         (\<exists>xs. map_of r ''actions_taken'' = Some (VList xs)) \<and>
         (dispatch e incident (result0 incident (now_iso e (ticks w))) (snd (datetime_now e w))
            = ((Some x, rr), wa) \<longrightarrow>
              map_of r ''status'' = Some (VStr ''failed'') \<and>
              map_of r ''error'' = Some (VStr (exn_str x))) \<and>
         (dict_get incident ''type'' VNone \<noteq> VStr ''data_corruption'' \<and>
          dict_get incident ''type'' VNone \<noteq> VStr ''model_degradation'' \<and>
          dict_get incident ''type'' VNone \<noteq> VStr ''pipeline_failure'' \<longrightarrow>
              map_of r ''status'' = Some (VStr ''unknown_incident_type'') \<and>
              map_of r ''actions_taken'' = Some (VList []) \<and> trace w' = trace w \<and> fs w' = fs w)"
proof -
  let ?rr0 = "result0 incident (now_iso e (ticks w))"
  let ?w0 = "w\<lparr>ticks := Suc (ticks w)\<rparr>"
  obtain ex rr1 w1 where d: "dispatch e incident ?rr0 ?w0 = ((ex, rr1), w1)"
    by (metis surj_pair)
  have w0: "snd (datetime_now e w) = ?w0" by (simp add: datetime_now_def)
  from run have fin: "finish e ((ex, rr1), w1) = (r, w')" by (simp add: rfi_finish d)
  have k: "keeps ?rr0 rr1" by (rule dispatch_keeps[OF d])
  have r: "r = AList.update ''end_time'' (VStr (now_iso e (ticks w1)))
            (case ex of None \<Rightarrow> rr1 | Some x \<Rightarrow> AList.update ''error'' (VStr (exn_str x)) (AList.update ''status'' (VStr ''failed'') rr1))"
    and w': "w' = w1\<lparr>ticks := Suc (ticks w1)\<rparr>"
    using fin by (auto simp: finish_def split: option.splits)
  have 1: "map_of r ''incident'' = Some (VDict incident)" "map_of r ''start_time'' = Some (VStr (now_iso e (ticks w)))"
     "\<exists>xs. map_of r ''actions_taken'' = Some (VList xs)" "\<exists>s. map_of r ''status'' = Some (VStr s)"
    using k by (auto simp: r keeps_def result0_def split: option.splits)
  have 2: "map_of r ''end_time'' = Some (VStr (now_iso e (ticks w' - 1)))"
    by (simp add: r w')
  have 3: "map_of r ''status'' = Some (VStr ''failed'') \<and> map_of r ''error'' = Some (VStr (exn_str x))"
    if "dispatch e incident ?rr0 (snd (datetime_now e w)) = ((Some x, rr), wa)"
    using that d by (simp add: w0 r)
  have 4: "map_of r ''status'' = Some (VStr ''unknown_incident_type'') \<and>
              map_of r ''actions_taken'' = Some (VList []) \<and> trace w' = trace w \<and> fs w' = fs w"
    if "dict_get incident ''type'' VNone \<noteq> VStr ''data_corruption'' \<and>
          dict_get incident ''type'' VNone \<noteq> VStr ''model_degradation'' \<and>
          dict_get incident ''type'' VNone \<noteq> VStr ''pipeline_failure''"
    using that d by (auto simp: dispatch_def r w' result0_def)
  from 1 2 3 4 show ?thesis by blast
qed

theorem recover_always_returns_result_witness:
  "map_of (fst (recover_from_incident (demo_env dvc_down demo_parse) [(''type'', VStr ''disk_full'')] None demo_world)) ''status''
     = Some (VStr ''unknown_incident_type'') \<and>
   map_of (fst (recover_from_incident (demo_env dvc_down demo_parse) [(''type'', VStr ''data_corruption'')] None demo_world)) ''error''
     = Some (VStr (exn_str (key_error ''affected_file'')))"
proof -
  let ?E = "demo_env dvc_down demo_parse"
  let ?I = "[(''type'', VStr ''disk_full'')]" and ?J = "[(''type'', VStr ''data_corruption'')]"
  let ?A = "recover_from_incident ?E ?I None demo_world"
  let ?B = "recover_from_incident ?E ?J None demo_world"
  have A: "?A = (fst ?A, snd ?A)" and B: "?B = (fst ?B, snd ?B)" by simp_all
  have u: "dict_get ?I ''type'' VNone \<noteq> VStr ''data_corruption'' \<and>
          dict_get ?I ''type'' VNone \<noteq> VStr ''model_degradation'' \<and>
          dict_get ?I ''type'' VNone \<noteq> VStr ''pipeline_failure''"
    by code_simp
  have d: "dispatch ?E ?J (result0 ?J (now_iso ?E (ticks demo_world))) (snd (datetime_now ?E demo_world))
      = ((Some (key_error ''affected_file''), result0 ?J (now_iso ?E (ticks demo_world))), snd (datetime_now ?E demo_world))"
    by (simp add: dispatch_def dict_get_def recover_data_corruption_def subscript_def)
  from recover_always_returns_result[OF A, THEN conjunct2, THEN conjunct2, THEN conjunct2, THEN conjunct2,
      THEN conjunct2, THEN conjunct2, THEN mp, OF u]
  have 1: "map_of (fst ?A) ''status'' = Some (VStr ''unknown_incident_type'')" by simp
  from recover_always_returns_result[OF B, THEN conjunct2, THEN conjunct2, THEN conjunct2, THEN conjunct2,
      THEN conjunct2, THEN conjunct1, THEN mp, OF d]
  have 2: "map_of (fst ?B) ''error'' = Some (VStr (exn_str (key_error ''affected_file'')))" by simp
  from 1 2 show ?thesis by blast
qed

section \<open>C5: corruption followed by recovery\<close>

text \<open>
  Claim C5 says that whenever \<open>simulate_data_corruption\<close> returns an active incident,
  \<open>recover_from_incident\<close> on that incident brings the file back to its content before
  the corruption. The code does not do so when the backup path \<open><file>.backup\<close> is already
  a directory: \<open>shutil.copy2\<close> then puts the backup inside that directory, while the
  incident records the directory itself as \<open>backup_path\<close> and is returned \<open>active\<close>.
  The first recovery strategy finds that the recorded path exists, \<open>shutil.copy2\<close> on a
  directory raises, and recovery ends \<open>failed\<close> with the file still corrupted. Below,
  \<open>data/x.csv\<close> holds \<open>a,b\<close>, \<open>data/x.csv.backup\<close> is a directory, and after corruption and
  recovery the file holds the corrupted content.
\<close>

theorem corruption_then_recovery_fails_on_backup_directory:
  "map_of (fs demo_dir_world) [''data'', ''x.csv''] = Some (File ''a,b'') \<and>
   map_of (fst (fst (simulate_data_corruption (demo_env dvc_down demo_parse) [''data'', ''x.csv''] ''random'' [] demo_dir_world)))
     ''status'' = Some (VStr ''active'') \<and>
   map_of (fst (recover_from_incident (demo_env dvc_down demo_parse)
       (fst (fst (simulate_data_corruption (demo_env dvc_down demo_parse) [''data'', ''x.csv''] ''random'' [] demo_dir_world)))
       None
       (snd (simulate_data_corruption (demo_env dvc_down demo_parse) [''data'', ''x.csv''] ''random'' [] demo_dir_world))))
     ''status'' = Some (VStr ''failed'') \<and>
   map_of (fs (snd (recover_from_incident (demo_env dvc_down demo_parse)
       (fst (fst (simulate_data_corruption (demo_env dvc_down demo_parse) [''data'', ''x.csv''] ''random'' [] demo_dir_world)))
       None
       (snd (simulate_data_corruption (demo_env dvc_down demo_parse) [''data'', ''x.csv''] ''random'' [] demo_dir_world)))))
     [''data'', ''x.csv''] = Some (File ''noise'')"
  by code_simp

text \<open>
  On every other input the round trip holds. For a data file (a \<open>Path\<close>, so with
  well-formed parts) on which \<open>simulate_data_corruption\<close> returns an incident with status
  \<open>active\<close>, and whose backup path was not a directory, \<open>recover_from_incident\<close> restores
  the file to exactly its content before the corruption, by the first strategy.
\<close>

lemma backup_round_trip:
  assumes wf: "wf_path file_path"
    and sim: "simulate_data_corruption e file_path ct lg w = ((inc, lg'), w1)"
    and act: "map_of inc ''status'' = Some (VStr ''active'')"
    and nd: "\<not> is_dir w (butlast file_path @ [last file_path @ ''.backup''])"
    and rec: "recover_from_incident e inc tv w1 = (r, w2)"
  shows "(\<exists>c. map_of (fs w) file_path = Some (File c)) \<and>
         map_of (fs w2) file_path = map_of (fs w) file_path \<and>
         map_of r ''status'' = Some (VStr ''success'') \<and>
         map_of r ''actions_taken'' = Some (VList [VStr ''restored_from_backup''])"
proof -
  let ?bp = "butlast file_path @ [last file_path @ ''.backup'']"
  from simulate_data_corruption_active[OF sim act nd] obtain c c' where
    c: "map_of (fs w) file_path = Some (File c)"
    and w1: "fs w1 = AList.update file_path (File c') (AList.update ?bp (File c) (fs w))"
    and ty: "map_of inc ''type'' = Some (VStr ''data_corruption'')"
    and af: "map_of inc ''affected_file'' = Some (VStr (str_of_path file_path))"
    and bk: "map_of inc ''backup_path'' = Some (VStr (str_of_path ?bp))"
    and pn: "path_name file_path \<noteq> []"
    by blast
  from pn have pne: "file_path \<noteq> []" by (auto simp: path_name_def)
  have neq: "?bp \<noteq> file_path" by (rule backup_path_differs[OF pne])
  have rt: "path_of_str (str_of_path file_path) = file_path" by (rule path_str_roundtrip[OF wf])
  have rtb: "path_of_str (str_of_path ?bp) = ?bp"
    by (rule path_str_roundtrip[OF wf_path_backup[OF wf pn]])
  have bp: "path_of_val (dict_get inc ''backup_path'' (VStr [])) = Inr ?bp"
    by (simp add: dict_get_def bk path_of_val_def rtb)
  have ex: "path_exists w1 ?bp" using neq by (simp add: path_exists_def w1 update_conv')
  let ?w0 = "snd (datetime_now e w1)"
  have cp: "shutil_copy2 e ?bp file_path ?w0 =
      (Inr (), log_event (Copy ?bp file_path) ?w0\<lparr>fs := AList.update file_path (File c) (fs w1)\<rparr>)"
    using neq by (simp add: shutil_copy2_def Let_def is_dir_def path_exists_def w1 update_conv')
  from data_corruption_cases[OF ty af bp rec refl refl, THEN conjunct1, THEN mp, OF ex, unfolded rt,
      THEN conjunct2, THEN mp, OF cp]
  have "fs w2 = AList.update file_path (File c) (fs w1)"
    "map_of r ''status'' = Some (VStr ''success'')"
    "map_of r ''actions_taken'' = Some (VList [VStr ''restored_from_backup''])"
    by simp_all
  with c show ?thesis by (simp add: update_conv')
qed

lemma backup_round_trip_example:
  "map_of (fs (snd (recover_from_incident (demo_env dvc_down demo_parse)
       (fst (fst (simulate_data_corruption (demo_env dvc_down demo_parse) [''data'', ''x.csv''] ''random'' [] demo_world)))
       None
       (snd (simulate_data_corruption (demo_env dvc_down demo_parse) [''data'', ''x.csv''] ''random'' [] demo_world)))))
     [''data'', ''x.csv''] = Some (File ''a,b'')"
proof -
  let ?E = "demo_env dvc_down demo_parse"
  let ?S = "simulate_data_corruption ?E [''data'', ''x.csv''] ''random'' [] demo_world"
  let ?R = "recover_from_incident ?E (fst (fst ?S)) None (snd ?S)"
  have wf: "wf_path [''data'', ''x.csv'']" by code_simp
  have sim: "?S = ((fst (fst ?S), snd (fst ?S)), snd ?S)" by simp
  have act: "map_of (fst (fst ?S)) ''status'' = Some (VStr ''active'')" by code_simp
  have nd: "\<not> is_dir demo_world (butlast [''data'', ''x.csv''] @ [last [''data'', ''x.csv''] @ ''.backup''])"
    by code_simp
  have rec: "?R = (fst ?R, snd ?R)" by simp
  have orig: "map_of (fs demo_world) [''data'', ''x.csv''] = Some (File ''a,b'')" by code_simp
  from backup_round_trip[OF wf sim act nd rec] orig
  show ?thesis by simp
qed

section \<open>C6: the steps of \<open>create_snapshot\<close>\<close>

text \<open>
  Claim C6. A call of \<open>create_snapshot\<close> that returns ran, in this order: the staging
  commands (\<open>dvc add\<close> of each file, each followed by \<open>git add\<close> of its \<open>.dvc\<close> file when
  autostaging is on and that file exists), \<open>git add *.dvc .dvc/\<close> and \<open>git add .gitignore\<close>,
  \<open>git commit\<close>, \<open>git rev-parse HEAD\<close>, \<open>git tag -a\<close> with the version tag, \<open>dvc push\<close>, and
  the writing of the snapshot's metadata file. The files given to \<open>dvc add\<close> start with the
  raw CSV files; when subprocesses leave the listed directories alone they are exactly the
  raw CSV files, the processed CSV files and the model \<open>.joblib\<close> files, in that order, as
  far as \<open>include_data\<close> and \<open>include_models\<close> ask for them. The returned information, which
  is also what the metadata file holds, records the version tag, the output of
  \<open>git rev-parse HEAD\<close> as \<open>git_commit\<close>, and as \<open>dvc_files\<close> exactly the files whose
  \<open>dvc add\<close> exited with status 0.
\<close>

theorem create_snapshot_order:
  assumes run: "create_snapshot e a paths tag desc include_data include_models w = (Inr info, w')"
    and mp: "mp = path_join [''.snapshots''] (tag @ ''.json'')"
  shows "\<exists>stage r1 r2 r3 out r5 r6 meta.
     trace w' = trace w @ stage @
        [Run [''git'', ''add'', ''*.dvc'', ''.dvc/''] r1,
         Run [''git'', ''add'', ''.gitignore''] r2,
         Run [''git'', ''commit'', ''-m'', tag @ '': '' @ desc] r3,
         Run [''git'', ''rev-parse'', ''HEAD''] (Completed 0 out),
         Run [''git'', ''tag'', ''-a'', tag, ''-m'', desc] r5,
         Run [''dvc'', ''push''] r6] @ meta \<and>
     list_all staging_event stage \<and>
     (meta = [Write mp] \<or> meta = [Mkdir [''.snapshots''], Write mp]) \<and>
     map_of (fs w') mp = Some (File (json_dumps e (VDict info))) \<and>
     map_of info ''version'' = Some (VStr tag) \<and>
     map_of info ''git_commit'' = Some (VStr (strip out)) \<and>
     map_of info ''dvc_files'' = Some (VList (added_ok stage)) \<and>
     (include_data \<longrightarrow>
        prefix (map str_of_path (glob_star w (raw_data paths) ''.csv'')) (attempted stage)) \<and>
     (files_untouched e \<longrightarrow>
        attempted stage =
          (if include_data
           then map str_of_path (glob_star w (raw_data paths) ''.csv'') @
                map str_of_path (glob_star_star w (processed_data paths) ''.csv'')
           else []) @
          (if include_models
           then map str_of_path (glob_star_star w (trained_models paths) ''.joblib'')
           else []))"
proof -
  let ?w0 = "w\<lparr>ticks := Suc (ticks w)\<rparr>"
  let ?si = "[(''version'', VStr tag), (''timestamp'', VStr (now_iso e (ticks w))),
             (''description'', VStr desc), (''git_commit'', VNone),
             (''dvc_files'', VList []), (''mlflow_run_id'', VNone)]"
  from run obtain dvc_files w1 w2 rc out w3 w4 b w5 where
    st: "stage_files e a paths include_data include_models ?w0 = (Inr dvc_files, w1)"
    and gc: "git_commit e tag desc w1 = (Inr (), w2)"
    and rp: "subprocess_run e [''git'', ''rev-parse'', ''HEAD''] True w2 = (Inr (rc, out), w3)"
    and gt: "git_tag e tag desc w3 = (Inr (), w4)"
    and dp: "dvc_push e w4 = (Inr b, w5)"
    and sv: "save_snapshot_metadata e (AList.update ''git_commit'' (VStr (strip out))
                         (AList.update ''dvc_files'' (VList dvc_files) ?si)) w5 = (Inr (), w')"
    and info: "info = AList.update ''git_commit'' (VStr (strip out))
                         (AList.update ''dvc_files'' (VList dvc_files) ?si)"
    unfolding create_snapshot_def datetime_now_def Let_def
    by (auto simp: returnE_def dest!: bindE_Inr)
  have gl: "glob_star ?w0 d ending = glob_star w d ending" for d ending
    by (simp add: glob_star_def is_dir_def)
  have isd: "is_dir ?w0 = is_dir w" by (rule ext) (simp add: is_dir_def)
  have gls: "glob_star_star ?w0 d ending = glob_star_star w d ending" for d ending
    by (simp add: glob_star_star_def gl isd)
  from stage_files_staging[OF st] obtain stage where
    s: "trace w1 = trace w @ stage" "list_all staging_event stage" "dvc_files = added_ok stage"
       "include_data \<longrightarrow>
        prefix (map str_of_path (glob_star w (raw_data paths) ''.csv'')) (attempted stage)"
       "files_untouched e \<longrightarrow>
        attempted stage =
          (if include_data
           then map str_of_path (glob_star w (raw_data paths) ''.csv'') @
                map str_of_path (glob_star_star w (processed_data paths) ''.csv'')
           else []) @
          (if include_models
           then map str_of_path (glob_star_star w (trained_models paths) ''.joblib'')
           else [])"
    unfolding gl gls by auto
  from git_commit_events[OF gc] obtain r1 r2 r3 where
    c: "trace w2 = trace w1 @ [Run [''git'', ''add'', ''*.dvc'', ''.dvc/''] r1,
         Run [''git'', ''add'', ''.gitignore''] r2,
         Run [''git'', ''commit'', ''-m'', tag @ '': '' @ desc] r3]" by blast
  note r = rev_parse_events[OF rp]
  from gt have t: "trace w4 = trace w3 @ [Run [''git'', ''tag'', ''-a'', tag, ''-m'', desc]
      (fst (exec e [''git'', ''tag'', ''-a'', tag, ''-m'', desc] w3))]"
    unfolding git_tag_def by (rule except_cpe_Inr_run)
  from dp have p: "trace w5 = trace w4 @ [Run [''dvc'', ''push''] (fst (exec e [''dvc'', ''push''] w4))]"
    unfolding dvc_push_def by (rule except_cpe_Inr_run)
  have ver: "map_of info ''version'' = Some (VStr tag)" by (simp add: info)
  note m = save_snapshot_metadata_events[OF sv[folded info] ver, folded mp]
  define meta where "meta = drop (length (trace w5)) (trace w')"
  from m have mt: "trace w' = trace w5 @ meta" "meta = [Write mp] \<or> meta = [Mkdir [''.snapshots''], Write mp]"
    by (auto simp: meta_def)
  have tr: "trace w' = trace w @ stage @
        [Run [''git'', ''add'', ''*.dvc'', ''.dvc/''] r1,
         Run [''git'', ''add'', ''.gitignore''] r2,
         Run [''git'', ''commit'', ''-m'', tag @ '': '' @ desc] r3,
         Run [''git'', ''rev-parse'', ''HEAD''] (Completed 0 out),
         Run [''git'', ''tag'', ''-a'', tag, ''-m'', desc] (fst (exec e [''git'', ''tag'', ''-a'', tag, ''-m'', desc] w3)),
         Run [''dvc'', ''push''] (fst (exec e [''dvc'', ''push''] w4))] @ meta"
    using s(1) c r t p mt(1) by simp
  have i2: "map_of info ''git_commit'' = Some (VStr (strip out))"
    "map_of info ''dvc_files'' = Some (VList (added_ok stage))"
    by (simp_all add: info s(3))
  from tr s(2) mt(2) m ver i2 s(4,5)
  show ?thesis by blast
qed

theorem create_snapshot_order_witness:
  "\<exists>info w' stage out.
     create_snapshot (demo_env all_ok demo_parse) True demo_paths ''v1'' ''first'' True True demo_project_world
       = (Inr info, w') \<and>
     list_all staging_event stage \<and>
     attempted stage = [''data/x.csv'', ''processed/v1/X_train.csv'', ''models/v1/model.joblib''] \<and>
     map_of info ''dvc_files'' = Some (VList (added_ok stage)) \<and>
     map_of info ''dvc_files'' = Some (VList [VStr ''data/x.csv'', VStr ''processed/v1/X_train.csv'',
                                              VStr ''models/v1/model.joblib'']) \<and>
     map_of info ''git_commit'' = Some (VStr (strip out)) \<and>
     map_of info ''git_commit'' = Some (VStr ''abc1234'') \<and>
     (\<exists>r1 r2 r3 r5 r6 meta. trace w' = trace demo_project_world @ stage @
        [Run [''git'', ''add'', ''*.dvc'', ''.dvc/''] r1,
         Run [''git'', ''add'', ''.gitignore''] r2,
         Run [''git'', ''commit'', ''-m'', ''v1'' @ '': '' @ ''first''] r3,
         Run [''git'', ''rev-parse'', ''HEAD''] (Completed 0 out),
         Run [''git'', ''tag'', ''-a'', ''v1'', ''-m'', ''first''] r5,
         Run [''dvc'', ''push''] r6] @ meta)"
proof -
  let ?E = "demo_env all_ok demo_parse"
  let ?R = "create_snapshot ?E True demo_paths ''v1'' ''first'' True True demo_project_world"
  let ?I = "[(''version'', VStr ''v1''), (''timestamp'', VStr ''2024-01-01T00:00:00''),
             (''description'', VStr ''first''), (''git_commit'', VStr ''abc1234''),
             (''dvc_files'', VList [VStr ''data/x.csv'', VStr ''processed/v1/X_train.csv'',
                                    VStr ''models/v1/model.joblib'']),
             (''mlflow_run_id'', VNone)]"
  have r: "fst ?R = Inr ?I" by code_simp
  then have R: "?R = (Inr ?I, snd ?R)" by (metis prod.collapse)
  have u: "files_untouched ?E" by (simp add: files_untouched_def demo_env_def)
  have g: "(if True then map str_of_path (glob_star demo_project_world (raw_data demo_paths) ''.csv'') @
                map str_of_path (glob_star_star demo_project_world (processed_data demo_paths) ''.csv'')
           else []) @
          (if True then map str_of_path (glob_star_star demo_project_world (trained_models demo_paths) ''.joblib'')
           else [])
         = [''data/x.csv'', ''processed/v1/X_train.csv'', ''models/v1/model.joblib'']"
    by code_simp
  from create_snapshot_order[OF R refl]
  obtain stage r1 r2 r3 out r5 r6 meta where
    tr: "trace (snd ?R) = trace demo_project_world @ stage @
        [Run [''git'', ''add'', ''*.dvc'', ''.dvc/''] r1,
         Run [''git'', ''add'', ''.gitignore''] r2,
         Run [''git'', ''commit'', ''-m'', ''v1'' @ '': '' @ ''first''] r3,
         Run [''git'', ''rev-parse'', ''HEAD''] (Completed 0 out),
         Run [''git'', ''tag'', ''-a'', ''v1'', ''-m'', ''first''] r5,
         Run [''dvc'', ''push''] r6] @ meta"
    and sl: "list_all staging_event stage"
    and gc: "map_of ?I ''git_commit'' = Some (VStr (strip out))"
    and dv: "map_of ?I ''dvc_files'' = Some (VList (added_ok stage))"
    and at: "files_untouched ?E \<longrightarrow> attempted stage =
          (if True then map str_of_path (glob_star demo_project_world (raw_data demo_paths) ''.csv'') @
                map str_of_path (glob_star_star demo_project_world (processed_data demo_paths) ''.csv'')
           else []) @
          (if True then map str_of_path (glob_star_star demo_project_world (trained_models demo_paths) ''.joblib'')
           else [])"
    by (elim exE conjE)
  from at[THEN mp, OF u] have att: "attempted stage = [''data/x.csv'', ''processed/v1/X_train.csv'', ''models/v1/model.joblib'']"
    unfolding g .
  have d2: "map_of ?I ''dvc_files'' = Some (VList [VStr ''data/x.csv'', VStr ''processed/v1/X_train.csv'',
                                              VStr ''models/v1/model.joblib''])" by simp
  have g2: "map_of ?I ''git_commit'' = Some (VStr ''abc1234'')" by simp
  have t2: "\<exists>r1 r2 r3 r5 r6 meta. trace (snd ?R) = trace demo_project_world @ stage @
        [Run [''git'', ''add'', ''*.dvc'', ''.dvc/''] r1,
         Run [''git'', ''add'', ''.gitignore''] r2,
         Run [''git'', ''commit'', ''-m'', ''v1'' @ '': '' @ ''first''] r3,
         Run [''git'', ''rev-parse'', ''HEAD''] (Completed 0 out),
         Run [''git'', ''tag'', ''-a'', ''v1'', ''-m'', ''first''] r5,
         Run [''dvc'', ''push''] r6] @ meta"
    apply (rule exI[of _ r1], rule exI[of _ r2], rule exI[of _ r3], rule exI[of _ r5], rule exI[of _ r6],
           rule exI[of _ meta])
    apply (rule tr)
    done
  show ?thesis
    apply (rule exI[of _ ?I], rule exI[of _ "snd ?R"], rule exI[of _ stage], rule exI[of _ out])
    apply (intro conjI)
           apply (rule R)
          apply (rule sl)
         apply (rule att)
        apply (rule dv)
       apply (rule d2)
      apply (rule gc)
     apply (rule g2)
    apply (rule t2)
    done
qed
section \<open>C7: the steps of the training pipeline\<close>

text \<open>
  Claim C7 gives the order of the pipeline as: load, initialise and train, cross-validate,
  evaluate, log parameters and metrics, then save the model and add it to version control.
  In the run below every step succeeds. The parameters are logged before training (the data
  parameters after loading, the model parameters after initialisation) and once more after
  \<open>dvc add\<close> (the model path); between evaluation and saving only metrics are logged.
\<close>

theorem training_pipeline_counterexample:
  "fst (train_pipeline_main (demo_env all_ok demo_parse) False [''models'', ''v2'', ''model.joblib''] demo_project_world) = Inr () \<and>
   trace (snd (train_pipeline_main (demo_env all_ok demo_parse) False [''models'', ''v2'', ''model.joblib''] demo_project_world)) =
     [Lib ''mlflow_tracker.start_run'',
      Lib ''loader.load_csv X_train.csv'',
      Lib ''loader.load_csv X_test.csv'',
      Lib ''loader.load_csv y_train.csv'',
      Lib ''loader.load_csv y_test.csv'',
      Lib ''mlflow_tracker.log_params data'',
      Lib ''RandomForestModel'',
      Lib ''mlflow_tracker.log_params model_params'',
      Lib ''trainer.train'',
      Lib ''trainer.cross_validate'',
      Lib ''mlflow_tracker.log_metrics cv'',
      Lib ''evaluator.evaluate'',
      Lib ''mlflow_tracker.log_metrics metrics'',
      Lib ''evaluator.get_classification_report'',
      Lib ''evaluator.calculate_business_metrics'',
      Lib ''mlflow_tracker.log_metrics business_metrics'',
      Lib ''evaluator.compare_predictions'',
      Lib ''trainer.save_model'',
      Lib ''mlflow_tracker.log_model'',
      Run [''dvc'', ''add'', ''models/v2/model.joblib''] (Completed 0 []),
      Lib ''mlflow_tracker.log_params model_path'',
      Lib ''mlflow_tracker.get_run_info'',
      Lib ''mlflow_tracker.end_run FINISHED'']"
  unfolding demo_pipeline_run by (simp add: calls_before_add_def calls_after_add_def)

text \<open>
  Claim C7, amended. The \<open>try\<close> block of the training pipeline calls, in this order: the
  start of the tracker run; the loading of the four processed CSV files; the logging of the
  data parameters; the initialisation of the single classifier; the logging of the model
  parameters; training; cross-validation and the logging of its metrics; evaluation on the
  test set and the logging of its metrics; the classification report; the business metrics
  and their logging; the comparison of predictions; the saving of the model; the logging of
  the model to the tracker; \<open>dvc add\<close> of the saved model; the logging of the model path;
  \<open>get_run_info\<close>; and \<open>end_run\<close> with status \<open>FINISHED\<close>. So the steps that the claim names
  do come in its order (load, initialise, train, cross-validate, evaluate, log the
  evaluation metrics, save, add to version control), with the logging of parameters before
  training. If a step raises, the calls made are a prefix of that sequence, \<open>end_run\<close> is
  then called with status \<open>FAILED\<close>, and the exception is raised again, unless that call of
  \<open>end_run\<close> raises itself: then its exception is the one that leaves \<open>main\<close>.
\<close>

theorem training_pipeline_order:
  "(train_pipeline_main e a mp w = (Inr (), w') \<longrightarrow>
      (\<exists>w1 ok w2. trace w1 = trace w @ map Lib calls_before_add \<and>
          dvc_add e a mp w1 = (Inr ok, w2) \<and>
          (\<exists>evs. trace w2 = trace w1 @ Run [''dvc'', ''add'', str_of_path mp]
                                           (fst (exec e [''dvc'', ''add'', str_of_path mp] w1)) # evs \<and>
                 lib_names evs = []) \<and>
          trace w' = trace w2 @ map Lib calls_after_add))
   \<and> (train_pipeline_main e a mp w = (Inl x, w') \<longrightarrow>
      (\<exists>y w1 evs. run_steps e a (pipeline_steps mp) w = (Inl y, w1) \<and>
          trace w1 = trace w @ evs \<and>
          prefix (lib_names evs) (calls_before_add @ calls_after_add) \<and>
          trace w' = trace w1 @ [Lib ''mlflow_tracker.end_run FAILED''] \<and>
          x = (case lib_raises e ''mlflow_tracker.end_run FAILED'' w1 of None \<Rightarrow> y | Some z \<Rightarrow> z)))
   \<and> subseq claimed_order calls_before_add"
proof (intro conjI impI)
  assume ok: "train_pipeline_main e a mp w = (Inr (), w')"
  then have r: "run_steps e a (map Call calls_before_add @ [DvcAdd mp] @ map Call calls_after_add) w = (Inr (), w')"
    by (auto simp: train_pipeline_main_def pipeline_steps_split split: prod.splits sum.splits)
  then obtain w1 where a1: "run_steps e a (map Call calls_before_add) w = (Inr (), w1)"
    and r2: "run_steps e a ([DvcAdd mp] @ map Call calls_after_add) w1 = (Inr (), w')"
    by (auto simp: run_steps_append[of e a "map Call calls_before_add"] split: prod.splits sum.splits)
  from r2 obtain b w2 where d: "dvc_add e a mp w1 = (Inr b, w2)"
    and a3: "run_steps e a (map Call calls_after_add) w2 = (Inr (), w')"
    by (auto simp: bindE_def returnE_def split: prod.splits sum.splits)
  from run_calls_ok[OF a1] run_calls_ok[OF a3] d dvc_add_events[OF d]
  show "\<exists>w1 ok w2. trace w1 = trace w @ map Lib calls_before_add \<and>
          dvc_add e a mp w1 = (Inr ok, w2) \<and>
          (\<exists>evs. trace w2 = trace w1 @ Run [''dvc'', ''add'', str_of_path mp]
                                           (fst (exec e [''dvc'', ''add'', str_of_path mp] w1)) # evs \<and>
                 lib_names evs = []) \<and>
          trace w' = trace w2 @ map Lib calls_after_add"
    by blast
next
  assume f: "train_pipeline_main e a mp w = (Inl x, w')"
  then obtain y w1 where r: "run_steps e a (pipeline_steps mp) w = (Inl y, w1)"
    by (auto simp: train_pipeline_main_def split: prod.splits sum.splits)
  from run_steps_events[OF r] obtain evs where
    ev: "trace w1 = trace w @ evs" "prefix (lib_names evs) (concat (map step_name (pipeline_steps mp)))"
    by blast
  have names: "concat (map step_name (pipeline_steps mp)) = calls_before_add @ calls_after_add"
    by (simp add: pipeline_steps_def calls_before_add_def calls_after_add_def)
  obtain r2 w2 where l: "lib_call e ''mlflow_tracker.end_run FAILED'' w1 = (r2, w2)"
    by (cases "lib_call e ''mlflow_tracker.end_run FAILED'' w1")
  from f r l have w': "w' = w2" by (auto simp: train_pipeline_main_def split: sum.splits)
  from f r l have xy: "x = (case lib_raises e ''mlflow_tracker.end_run FAILED'' w1 of None \<Rightarrow> y | Some z \<Rightarrow> z)"
    by (auto simp: train_pipeline_main_def lib_call_def split: sum.splits option.splits)
  from lib_call_trace[OF l] w' ev names xy r
  show "\<exists>y w1 evs. run_steps e a (pipeline_steps mp) w = (Inl y, w1) \<and>
          trace w1 = trace w @ evs \<and>
          prefix (lib_names evs) (calls_before_add @ calls_after_add) \<and>
          trace w' = trace w1 @ [Lib ''mlflow_tracker.end_run FAILED''] \<and>
          x = (case lib_raises e ''mlflow_tracker.end_run FAILED'' w1 of None \<Rightarrow> y | Some z \<Rightarrow> z)"
    by auto
next
  show "subseq claimed_order calls_before_add"
    by (simp add: claimed_order_def calls_before_add_def)
qed

theorem training_pipeline_order_witness:
  "(\<exists>w1 ok w2. trace w1 = trace demo_project_world @ map Lib calls_before_add \<and>
          dvc_add (demo_env all_ok demo_parse) False [''models'', ''v2'', ''model.joblib''] w1 = (Inr ok, w2) \<and>
          trace (snd (train_pipeline_main (demo_env all_ok demo_parse) False [''models'', ''v2'', ''model.joblib''] demo_project_world))
            = trace w2 @ map Lib calls_after_add)
   \<and> (\<exists>(w1::world) evs. trace w1 = trace demo_project_world @ evs \<and>
          prefix (lib_names evs) (calls_before_add @ calls_after_add) \<and>
          trace (snd (train_pipeline_main training_fails False [''models'', ''v2'', ''model.joblib''] demo_project_world))
            = trace w1 @ [Lib ''mlflow_tracker.end_run FAILED''])
   \<and> fst (train_pipeline_main training_fails False [''models'', ''v2'', ''model.joblib''] demo_project_world)
       = Inl (Exn RuntimeError ''fit failed'')"
proof -
  let ?mp = "[''models'', ''v2'', ''model.joblib'']"
  let ?A = "train_pipeline_main (demo_env all_ok demo_parse) False ?mp demo_project_world"
  let ?B = "train_pipeline_main training_fails False ?mp demo_project_world"
  have a: "fst ?A = Inr ()" by (simp add: demo_pipeline_run)
  then have A: "?A = (Inr (), snd ?A)" by (metis prod.collapse)
  have b: "fst ?B = Inl (Exn RuntimeError ''fit failed'')" by code_simp
  then have B: "?B = (Inl (Exn RuntimeError ''fit failed''), snd ?B)" by (metis prod.collapse)
  from training_pipeline_order[THEN conjunct1, THEN mp, OF A]
  obtain w1 ok w2 where 1: "trace w1 = trace demo_project_world @ map Lib calls_before_add"
      "dvc_add (demo_env all_ok demo_parse) False ?mp w1 = (Inr ok, w2)"
      "trace (snd ?A) = trace w2 @ map Lib calls_after_add"
    by (elim exE conjE)
  from training_pipeline_order[THEN conjunct2, THEN conjunct1, THEN mp, OF B]
  obtain w1' :: world and evs where 2: "trace w1' = trace demo_project_world @ evs"
      "prefix (lib_names evs) (calls_before_add @ calls_after_add)"
      "trace (snd ?B) = trace w1' @ [Lib ''mlflow_tracker.end_run FAILED'']"
    by (elim exE conjE)
  show ?thesis
    apply (intro conjI)
    apply (rule exI[of _ w1], rule exI[of _ ok], rule exI[of _ w2])
    apply (intro conjI 1)
    apply (rule exI[of _ w1'], rule exI[of _ evs])
    apply (intro conjI 2)
    apply (rule b)
    done
qed
section \<open>C8: the argument \<open>target_version\<close> is not read\<close>

text \<open>
  Claim C8. For every incident, world and environment, any two values of
  \<open>target_version\<close> give the same result dictionary and the same effects.
\<close>

theorem target_version_is_not_read:
  "recover_from_incident e incident tv1 w = recover_from_incident e incident tv2 w"
  by (simp add: recover_from_incident_def)

theorem target_version_is_not_read_witness:
  "recover_from_incident (demo_env dvc_down demo_parse) (demo_incident ''data_corruption'') None demo_world =
   recover_from_incident (demo_env dvc_down demo_parse) (demo_incident ''data_corruption'') (Some ''v10'') demo_world"
  by (rule target_version_is_not_read)

section \<open>C9: \<open>restore_snapshot\<close> and failing DVC steps\<close>

text \<open>
  Claim C9 says that \<open>restore_snapshot\<close> returns \<open>False\<close> when the DVC pull or checkout
  step fails. \<open>DVCManager.pull\<close> and \<open>DVCManager.checkout\<close> turn a non-zero exit status
  into the return value \<open>False\<close>, which \<open>restore_snapshot\<close> drops. Here the metadata of
  \<open>v9\<close> exists, \<open>git checkout v9\<close> succeeds, and \<open>dvc pull\<close> and \<open>dvc checkout .\<close> both exit
  with status 1: the call returns \<open>True\<close>.
\<close>

theorem restore_snapshot_ignores_dvc_failure:
  "restore_snapshot (demo_env dvc_down demo_parse) (VStr ''v9'') True True True demo_world =
     (True, demo_world\<lparr>trace :=
        [Run [''git'', ''checkout'', ''v9''] (Completed 0 []),
         Run [''dvc'', ''pull''] (Completed 1 []),
         Run [''dvc'', ''checkout'', ''.''] (Completed 1 [])]\<rparr>)"
  by code_simp

section \<open>C10: the incident log holds active incidents only\<close>

text \<open>
  Claim C10. If every entry of the incident log has status \<open>active\<close>, so it is after every
  operation of the generator. \<open>simulate_data_corruption\<close> and
  \<open>simulate_model_degradation\<close> append the incident they return exactly when its status is
  \<open>active\<close>; otherwise its status is \<open>failed\<close> and the log is unchanged.
  \<open>simulate_pipeline_failure\<close> appends the active incident it returns (it has no failure
  status: when writing the marker raises, the exception leaves the function and the log is
  unchanged; with a writable working directory and a failure point free of \<open>/\<close> it
  returns). \<open>simulate_random_incident\<close> appends at most one, active, incident. New
  entries go to the end, so \<open>get_incident_log\<close> returns them in creation order, and
  \<open>clear_incident_log\<close> empties the log.
\<close>

theorem incident_log_only_holds_active_incidents:
  assumes inv: "all_active lg"
  shows
   "(simulate_data_corruption e p ct lg w = ((inc, lg'), w') \<longrightarrow>
       all_active lg' \<and>
       (if map_of inc ''status'' = Some (VStr ''active'') then lg' = lg @ [inc]
        else map_of inc ''status'' = Some (VStr ''failed'') \<and> lg' = lg))
    \<and> (simulate_model_degradation e p dt lg w = ((inc, lg'), w') \<longrightarrow>
       all_active lg' \<and>
       (if map_of inc ''status'' = Some (VStr ''active'') then lg' = lg @ [inc]
        else map_of inc ''status'' = Some (VStr ''failed'') \<and> lg' = lg))
    \<and> (simulate_pipeline_failure e fp lg w = ((res, lg'), w') \<longrightarrow>
       all_active lg' \<and>
       (case res of
          Inr i \<Rightarrow> map_of i ''status'' = Some (VStr ''active'') \<and> lg' = lg @ [i]
        | Inl x \<Rightarrow> lg' = lg))
    \<and> (simulate_pipeline_failure e fp lg w = ((res, lg'), w') \<and> CHR ''/'' \<notin> set fp \<and>
        is_dir w [] \<and>
        (map_of (fs w) [''.incident_markers''] = None \<or>
         map_of (fs w) [''.incident_markers''] = Some Dir) \<and>
        map_of (fs w) [''.incident_markers'', ''pipeline_failure_'' @ fp @ ''.marker''] \<noteq> Some Dir \<longrightarrow>
          (\<exists>i. res = Inr i))
    \<and> (simulate_random_incident e paths lg w = ((res, lg'), w') \<longrightarrow>
       all_active lg' \<and>
       (lg' = lg \<or> (\<exists>i. res = Inr i \<and> map_of i ''status'' = Some (VStr ''active'') \<and> lg' = lg @ [i])))
    \<and> get_incident_log lg = lg
    \<and> clear_incident_log lg = [] \<and> all_active (clear_incident_log lg)"
proof -
  have 1: "all_active lg' \<and>
       (if map_of inc ''status'' = Some (VStr ''active'') then lg' = lg @ [inc]
        else map_of inc ''status'' = Some (VStr ''failed'') \<and> lg' = lg)"
    if "simulate_data_corruption e p ct lg w = ((inc, lg'), w')"
    using simulate_data_corruption_log[OF that] inv by (auto simp: all_active_def)
  have 2: "all_active lg' \<and>
       (if map_of inc ''status'' = Some (VStr ''active'') then lg' = lg @ [inc]
        else map_of inc ''status'' = Some (VStr ''failed'') \<and> lg' = lg)"
    if "simulate_model_degradation e p dt lg w = ((inc, lg'), w')"
    using simulate_model_degradation_log[OF that] inv by (auto simp: all_active_def)
  have 3: "all_active lg' \<and>
       (case res of
          Inr i \<Rightarrow> map_of i ''status'' = Some (VStr ''active'') \<and> lg' = lg @ [i]
        | Inl x \<Rightarrow> lg' = lg)"
    if "simulate_pipeline_failure e fp lg w = ((res, lg'), w')"
    using simulate_pipeline_failure_log[OF that] inv by (cases res) (auto simp: all_active_def)
  have 4: "\<exists>i. res = Inr i"
    if "simulate_pipeline_failure e fp lg w = ((res, lg'), w')" "CHR ''/'' \<notin> set fp"
       "is_dir w []" "map_of (fs w) [''.incident_markers''] = None \<or>
         map_of (fs w) [''.incident_markers''] = Some Dir"
       "map_of (fs w) [''.incident_markers'', ''pipeline_failure_'' @ fp @ ''.marker''] \<noteq> Some Dir"
  proof -
    define m where "m = ''pipeline_failure_'' @ fp @ ''.marker''"
    have mp: "path_join [''.incident_markers''] m = [''.incident_markers'', m]"
      unfolding m_def by (rule marker_path[OF that(2)])
    note run = that(1)[unfolded simulate_pipeline_failure_def Let_def, folded m_def, unfolded mp]
    note nd = that(5)[folded m_def]
    have pp: "path_parent [''.incident_markers'', m] = [''.incident_markers'']"
      by (simp add: path_parent_def)
    show ?thesis
      using run nd that(3,4) unfolding pp
      by (cases "map_of (fs w) [''.incident_markers'', m]")
         (auto simp: mkdir_def write_file_def bindE_def is_dir_def path_parent_def
            log_event_def datetime_now_def update_conv' split: node.splits)
  qed
  have 5: "all_active lg' \<and>
       (lg' = lg \<or> (\<exists>i. res = Inr i \<and> map_of i ''status'' = Some (VStr ''active'') \<and> lg' = lg @ [i]))"
    if "simulate_random_incident e paths lg w = ((res, lg'), w')"
    using simulate_random_incident_log[OF that] inv by (auto simp: all_active_def)
  from 1 2 3 4 5 show ?thesis
    by (simp add: get_incident_log_def clear_incident_log_def all_active_def)
qed

theorem incident_log_only_holds_active_incidents_witness:
  "snd (fst (simulate_data_corruption (demo_env dvc_down demo_parse) [''data'', ''x.csv''] ''random'' [] demo_world))
     = [fst (fst (simulate_data_corruption (demo_env dvc_down demo_parse) [''data'', ''x.csv''] ''random'' [] demo_world))] \<and>
   snd (fst (simulate_data_corruption (demo_env dvc_down demo_parse) [''data'', ''missing.csv''] ''random'' [] demo_world)) = [] \<and>
   all_active (snd (fst (simulate_pipeline_failure (demo_env dvc_down demo_parse) ''test'' [] demo_world))) \<and>
   (\<exists>i. fst (fst (simulate_pipeline_failure (demo_env dvc_down demo_parse) ''test'' [] demo_world)) = Inr i)"
proof -
  let ?E = "demo_env dvc_down demo_parse"
  let ?A = "simulate_data_corruption ?E [''data'', ''x.csv''] ''random'' [] demo_world"
  let ?B = "simulate_data_corruption ?E [''data'', ''missing.csv''] ''random'' [] demo_world"
  let ?C = "simulate_pipeline_failure ?E ''test'' [] demo_world"
  have inv: "all_active []" by (simp add: all_active_def)
  have A: "?A = ((fst (fst ?A), snd (fst ?A)), snd ?A)" and B: "?B = ((fst (fst ?B), snd (fst ?B)), snd ?B)"
    and C: "?C = ((fst (fst ?C), snd (fst ?C)), snd ?C)" by simp_all
  have actA: "map_of (fst (fst ?A)) ''status'' = Some (VStr ''active'')" by code_simp
  have actB: "map_of (fst (fst ?B)) ''status'' \<noteq> Some (VStr ''active'')" by code_simp
  have normal: "CHR ''/'' \<notin> set ''test'' \<and> is_dir demo_world [] \<and>
        (map_of (fs demo_world) [''.incident_markers''] = None \<or>
         map_of (fs demo_world) [''.incident_markers''] = Some Dir) \<and>
        map_of (fs demo_world) [''.incident_markers'', ''pipeline_failure_'' @ ''test'' @ ''.marker''] \<noteq> Some Dir"
    by code_simp
  from incident_log_only_holds_active_incidents[OF inv, THEN conjunct1, THEN mp, OF A] actA
  have 1: "snd (fst ?A) = [fst (fst ?A)]" by simp
  from incident_log_only_holds_active_incidents[OF inv, THEN conjunct1, THEN mp, OF B] actB
  have 2: "snd (fst ?B) = []" by simp
  from incident_log_only_holds_active_incidents[OF inv, THEN conjunct2, THEN conjunct2, THEN conjunct1, THEN mp, OF C]
  have 3: "all_active (snd (fst ?C))" by simp
  from incident_log_only_holds_active_incidents[OF inv, THEN conjunct2, THEN conjunct2, THEN conjunct2, THEN conjunct1,
      THEN mp, OF conjI[OF C normal]]
  have 4: "\<exists>i. fst (fst ?C) = Inr i" .
  from 1 2 3 4 show ?thesis by blast
qed

end
